(* ===== verification/Prelude.thy ===== *)
theory Prelude
  imports "HOL-Library.Word" "HOL-Library.AList" "HOL-Library.Multiset"
begin

text \<open>
  Shared vocabulary of the development.

  \<^item> Go's \<^verbatim>\<open>int64\<close> is the type \<open>int64\<close> of 64-bit words: \<open>+\<close> and \<open>-\<close> wrap as in Go,
    and every comparison of the source is written on the signed reading \<open>sint\<close>.
  \<^item> A Go map is an association list \<open>('k, 'v) gmap\<close> with pairwise distinct keys
    (\<open>wf_gmap\<close>). Go's \<^verbatim>\<open>range\<close> visits the entries in an unspecified order; here the list
    order stands for the order of the next \<^verbatim>\<open>range\<close>, so that a statement about every list is
    a statement about every iteration order. Two lists with the same lookups are the same Go
    map (\<open>same_map\<close>), and the lemmas on permutations say what does not depend on the order.
  \<^item> A Go map that may be \<^verbatim>\<open>nil\<close> where the source tests for it is a \<open>gmap option\<close>.
  \<^item> A Go error return is a sum value, \<open>Inl\<close> for the error.

  The locale \<open>keyed_store\<close> states what a client of a map relies on; it is interpreted on the
  association lists at the end of the theory.
\<close>

named_theorems gmap_simps \<open>lookups after map operations\<close>
named_theorems i64_simps \<open>signed readings of wrapped arithmetic\<close>

section \<open>Error returns\<close>

definition ok_opt :: "'e + 'a \<Rightarrow> 'a option" where
  "ok_opt r = (case r of Inl _ \<Rightarrow> None | Inr x \<Rightarrow> Some x)"

lemma ok_opt_simps [simp]: "ok_opt (Inl e) = None" "ok_opt (Inr x) = Some x"
  by (simp_all add: ok_opt_def)

lemma ok_opt_eq_Some [simp]: "ok_opt r = Some x \<longleftrightarrow> r = Inr x"
  by (cases r) auto

section \<open>64-bit integers\<close>

type_synonym int64 = "64 word"

definition MaxInt64 :: int64 where
  "MaxInt64 = 9223372036854775807"

definition in_int64 :: "int \<Rightarrow> bool" where
  "in_int64 i \<longleftrightarrow> - (2 ^ 63) \<le> i \<and> i < 2 ^ 63"

lemma sint_MaxInt64 [i64_simps]: "sint MaxInt64 = 2 ^ 63 - 1"
  by (simp add: MaxInt64_def)

lemma sint_int64_lower: "- (2 ^ 63) \<le> sint (a :: int64)"
  using sint_ge [of a] by simp

lemma sint_int64_upper: "sint (a :: int64) < 2 ^ 63"
  using sint_lt [of a] by simp

lemma sint_le_MaxInt64: "sint (a :: int64) \<le> sint MaxInt64"
  using sint_int64_upper [of a] by (simp add: sint_MaxInt64)

lemma sint_less_MaxInt64_iff: "sint (a :: int64) < sint MaxInt64 \<longleftrightarrow> a \<noteq> MaxInt64"
proof -
  have "sint a = sint MaxInt64 \<longleftrightarrow> a = MaxInt64"
    by (auto intro: signed_word_eqI)
  then show ?thesis
    using sint_le_MaxInt64 [of a] by auto
qed

lemma sint_add_exact:
  fixes a b :: int64
  assumes "in_int64 (sint a + sint b)"
  shows "sint (a + b) = sint a + sint b"
  using assms by (simp add: sint_word_add in_int64_def signed_take_bit_int_eq_self)

lemma sint_diff_exact:
  fixes a b :: int64
  assumes "in_int64 (sint a - sint b)"
  shows "sint (a - b) = sint a - sint b"
  using assms by (simp add: sint_word_diff in_int64_def signed_take_bit_int_eq_self)

section \<open>Go maps\<close>

type_synonym ('k, 'v) gmap = "('k \<times> 'v) list"

type_synonym smap = "(string, string) gmap"
type_synonym resources = "(string, int64) gmap"

definition wf_gmap :: "('k, 'v) gmap \<Rightarrow> bool" where
  "wf_gmap m \<longleftrightarrow> distinct (map fst m)"

definition same_map :: "('k, 'v) gmap \<Rightarrow> ('k, 'v) gmap \<Rightarrow> bool" where
  "same_map m m' \<longleftrightarrow> map_of m = map_of m'"

text \<open>Reading a missing key yields the zero value of the element type, here \<open>d\<close>.\<close>

definition mget :: "'v \<Rightarrow> ('k, 'v) gmap \<Rightarrow> 'k \<Rightarrow> 'v" where
  "mget d m k = (case map_of m k of None \<Rightarrow> d | Some v \<Rightarrow> v)"

definition mput :: "'k \<Rightarrow> 'v \<Rightarrow> ('k, 'v) gmap \<Rightarrow> ('k, 'v) gmap" where
  "mput k v m = AList.update k v m"

definition mdel :: "'k \<Rightarrow> ('k, 'v) gmap \<Rightarrow> ('k, 'v) gmap" where
  "mdel k m = AList.delete k m"

text \<open>A store through the pointer held under a key: the entry changes in place.\<close>

definition madj :: "'k \<Rightarrow> ('v \<Rightarrow> 'v) \<Rightarrow> ('k, 'v) gmap \<Rightarrow> ('k, 'v) gmap" where
  "madj k f m = map (\<lambda>(k', v). if k' = k then (k', f v) else (k', v)) m"

text \<open>A map that may be nil reads as an empty map.\<close>

definition entries :: "('k, 'v) gmap option \<Rightarrow> ('k, 'v) gmap" where
  "entries m = (case m of None \<Rightarrow> [] | Some m' \<Rightarrow> m')"

lemma entries_simps [simp]: "entries None = []" "entries (Some m) = m"
  by (simp_all add: entries_def)

abbreviation qget :: "resources \<Rightarrow> string \<Rightarrow> int64" where
  "qget m k \<equiv> mget 0 m k"

abbreviation sget :: "smap option \<Rightarrow> string \<Rightarrow> string" where
  "sget m k \<equiv> mget '''' (entries m) k"

lemma mget_Nil [simp]: "mget d [] k = d"
  by (simp add: mget_def)

lemma mget_Cons: "mget d ((k', v) # m) k = (if k = k' then v else mget d m k)"
  by (simp add: mget_def)

lemma map_of_mput [gmap_simps]: "map_of (mput k v m) = (map_of m)(k \<mapsto> v)"
  by (simp add: mput_def update_conv')

lemma map_of_mdel [gmap_simps]: "map_of (mdel k m) = (map_of m)(k := None)"
  by (simp add: mdel_def delete_conv')

lemma map_of_madj [gmap_simps]:
  "map_of (madj k f m) = (map_of m)(k := map_option f (map_of m k))"
  unfolding madj_def by (induction m) (auto simp: fun_eq_iff)

lemma mget_mput [simp]: "mget d (mput k v m) k' = (if k' = k then v else mget d m k')"
  by (simp add: mget_def map_of_mput)

lemma mget_Some: "map_of m k = Some v \<Longrightarrow> mget d m k = v"
  by (simp add: mget_def)

lemma mget_None: "map_of m k = None \<Longrightarrow> mget d m k = d"
  by (simp add: mget_def)

lemma fst_set_mput: "fst ` set (mput k v m) = insert k (fst ` set m)"
  by (simp add: mput_def dom_update)

lemma map_fst_madj [simp]: "map fst (madj k f m) = map fst m"
  unfolding madj_def by (induction m) auto

lemma set_mdel: "set (mdel k m) = {p \<in> set m. fst p \<noteq> k}"
  by (auto simp: mdel_def AList.delete_eq)

subsection \<open>Well-formedness\<close>

lemma wf_gmap_Nil [simp, intro]: "wf_gmap []"
  by (simp add: wf_gmap_def)

lemma wf_gmap_Cons: "wf_gmap ((k, v) # m) \<longleftrightarrow> k \<notin> fst ` set m \<and> wf_gmap m"
  by (simp add: wf_gmap_def)

lemma wf_gmap_mput [simp, intro]: "wf_gmap m \<Longrightarrow> wf_gmap (mput k v m)"
  by (simp add: wf_gmap_def mput_def distinct_update)

lemma wf_gmap_mdel [simp, intro]: "wf_gmap m \<Longrightarrow> wf_gmap (mdel k m)"
  by (simp add: wf_gmap_def mdel_def distinct_delete)

lemma wf_gmap_madj [simp]: "wf_gmap (madj k f m) = wf_gmap m"
  by (simp add: wf_gmap_def)

lemma wf_gmap_filter: "wf_gmap m \<Longrightarrow> wf_gmap (filter P m)"
  by (simp add: wf_gmap_def distinct_map_filter)

lemma wf_gmap_lookup: "wf_gmap m \<Longrightarrow> (k, v) \<in> set m \<longleftrightarrow> map_of m k = Some v"
  by (simp add: wf_gmap_def)

lemma list_all_lookup:
  "wf_gmap m \<Longrightarrow> list_all P m \<longleftrightarrow> (\<forall>k v. map_of m k = Some v \<longrightarrow> P (k, v))"
  by (auto simp: list_all_iff wf_gmap_lookup [symmetric])

lemma wf_gmap_mset: "mset m = mset m' \<Longrightarrow> wf_gmap m = wf_gmap m'"
  unfolding wf_gmap_def by (metis mset_map mset_eq_imp_distinct_iff)

lemma same_map_mset:
  assumes "wf_gmap m" and "mset m = mset m'"
  shows "same_map m m'"
proof -
  from assms have wf': "wf_gmap m'"
    by (simp add: wf_gmap_mset [of m m'])
  moreover have "set m = set m'"
    using assms(2) by (rule mset_eq_setD)
  ultimately show ?thesis
    using assms(1) map_of_inject_set [of m m'] unfolding same_map_def wf_gmap_def by blast
qed

lemma filter_fst_map_of:
  "map_of (filter (\<lambda>p. P (fst p)) m) k = (if P k then map_of m k else None)"
  by (induction m) auto

lemma sum_list_map_order:
  fixes f :: "'a \<Rightarrow> 'b::comm_monoid_add"
  assumes "mset xs = mset ys"
  shows "sum_list (map f xs) = sum_list (map f ys)"
proof -
  from assms have "sum_mset (image_mset f (mset xs)) = sum_mset (image_mset f (mset ys))"
    by simp
  then show ?thesis
    by (simp only: mset_map [symmetric] sum_mset_sum_list)
qed

subsection \<open>Copying a map entry by entry\<close>

definition copy_into :: "('k, 'v) gmap \<Rightarrow> ('k, 'v) gmap \<Rightarrow> ('k, 'v) gmap" where
  "copy_into m c = fold (\<lambda>(k, v) c. mput k v c) m c"

lemma mput_fresh: "k \<notin> fst ` set m \<Longrightarrow> mput k v m = m @ [(k, v)]"
  by (induction m) (auto simp: mput_def)

lemma copy_into_fresh:
  "wf_gmap m \<Longrightarrow> fst ` set m \<inter> fst ` set c = {} \<Longrightarrow> copy_into m c = c @ m"
proof (induction m arbitrary: c)
  case Nil
  then show ?case by (simp add: copy_into_def)
next
  case (Cons p m)
  obtain k v where p: "p = (k, v)" by (cases p)
  have "copy_into (p # m) c = copy_into m (c @ [(k, v)])"
    using Cons.prems by (simp add: p copy_into_def mput_fresh)
  also have "\<dots> = (c @ [(k, v)]) @ m"
    by (rule Cons.IH) (use Cons.prems in \<open>auto simp: p wf_gmap_Cons\<close>)
  finally show ?case by (simp add: p)
qed

lemma copy_into_Nil [simp]: "wf_gmap m \<Longrightarrow> copy_into m [] = m"
  by (simp add: copy_into_fresh)

lemma wf_gmap_copy_into [intro]: "wf_gmap c \<Longrightarrow> wf_gmap (copy_into m c)"
  unfolding copy_into_def by (induction m arbitrary: c) auto

section \<open>Scanning for a least candidate\<close>

text \<open>
  A loop that visits the entries of a map and keeps the best candidate seen so far, replacing it
  only by a strictly better one. The result is a least candidate whatever the order of the visit.
\<close>

definition scan_min :: "('a \<Rightarrow> 'b option) \<Rightarrow> ('b \<Rightarrow> 'k::linorder) \<Rightarrow> 'a list \<Rightarrow> 'b \<Rightarrow> 'b" where
  "scan_min cand key xs b =
     fold (\<lambda>x b. case cand x of None \<Rightarrow> b | Some y \<Rightarrow> if key y < key b then y else b) xs b"

lemma scan_min_Nil [simp]: "scan_min cand key [] b = b"
  by (simp add: scan_min_def)

lemma scan_min_Cons:
  "scan_min cand key (x # xs) b =
     scan_min cand key xs (case cand x of None \<Rightarrow> b | Some y \<Rightarrow> if key y < key b then y else b)"
  by (simp add: scan_min_def)

lemma scan_min_le_start: "key (scan_min cand key xs b) \<le> key b"
proof (induction xs arbitrary: b)
  case (Cons x xs)
  show ?case
    unfolding scan_min_Cons by (rule order_trans [OF Cons.IH]) (auto split: option.splits)
qed simp

lemma scan_min_le: "x \<in> set xs \<Longrightarrow> cand x = Some y \<Longrightarrow> key (scan_min cand key xs b) \<le> key y"
proof (induction xs arbitrary: b)
  case (Cons z xs)
  let ?b' = "case cand z of None \<Rightarrow> b | Some y \<Rightarrow> if key y < key b then y else b"
  show ?case
  proof (cases "x = z")
    case True
    have "key (scan_min cand key xs ?b') \<le> key ?b'"
      by (rule scan_min_le_start)
    also have "\<dots> \<le> key y"
      using Cons.prems(2) True by (simp add: not_less)
    finally show ?thesis by (simp only: scan_min_Cons)
  next
    case False
    then have "x \<in> set xs" using Cons.prems(1) by simp
    then have "key (scan_min cand key xs ?b') \<le> key y"
      using Cons.prems(2) by (rule Cons.IH)
    then show ?thesis by (simp only: scan_min_Cons)
  qed
qed simp

lemma scan_min_cases:
  "scan_min cand key xs b = b \<or>
   (\<exists>x \<in> set xs. cand x = Some (scan_min cand key xs b) \<and> key (scan_min cand key xs b) < key b)"
proof (induction xs arbitrary: b)
  case (Cons x xs)
  show ?case
  proof (cases "\<exists>y. cand x = Some y \<and> key y < key b")
    case True
    then obtain y where y: "cand x = Some y" "key y < key b" by blast
    then have "scan_min cand key (x # xs) b = scan_min cand key xs y"
      by (simp add: scan_min_Cons)
    then show ?thesis using Cons.IH [of y] y by auto
  next
    case False
    then have "scan_min cand key (x # xs) b = scan_min cand key xs b"
      by (auto simp: scan_min_Cons split: option.splits)
    then show ?thesis using Cons.IH [of b] by auto
  qed
qed simp

text \<open>Visiting the entries in another order changes at most which of several least ones is kept.\<close>

lemma scan_min_key_le:
  assumes "set xs \<subseteq> set ys"
  shows "key (scan_min cand key ys b) \<le> key (scan_min cand key xs b)"
  using scan_min_cases [of cand key xs b]
proof
  assume "scan_min cand key xs b = b"
  then show ?thesis by (simp add: scan_min_le_start)
next
  assume "\<exists>x\<in>set xs. cand x = Some (scan_min cand key xs b) \<and> key (scan_min cand key xs b) < key b"
  then show ?thesis using assms by (blast intro: scan_min_le)
qed

lemma scan_min_key_order:
  "set xs = set ys \<Longrightarrow> key (scan_min cand key xs b) = key (scan_min cand key ys b)"
  by (intro order_antisym scan_min_key_le) auto

section \<open>What a client of a map relies on\<close>

locale keyed_store =
  fixes empty :: 'm
    and put :: "'k \<Rightarrow> 'v \<Rightarrow> 'm \<Rightarrow> 'm"
    and remove :: "'k \<Rightarrow> 'm \<Rightarrow> 'm"
    and find :: "'m \<Rightarrow> 'k \<Rightarrow> 'v option"
    and ok :: "'m \<Rightarrow> bool"
  assumes find_empty: "find empty k = None"
    and find_put: "ok m \<Longrightarrow> find (put k v m) k' = (if k' = k then Some v else find m k')"
    and find_remove: "ok m \<Longrightarrow> find (remove k m) k' = (if k' = k then None else find m k')"
    and ok_empty: "ok empty"
    and ok_put: "ok m \<Longrightarrow> ok (put k v m)"
    and ok_remove: "ok m \<Longrightarrow> ok (remove k m)"
begin

text \<open>Registering a list of items, as a synchronisation loop does.\<close>

lemma ok_fold_put: "ok m \<Longrightarrow> ok (fold (\<lambda>x. put (key x) (val x)) xs m)"
  by (induction xs arbitrary: m) (auto intro: ok_put)

lemma find_fold_put_other:
  "ok m \<Longrightarrow> k \<notin> key ` set xs \<Longrightarrow> find (fold (\<lambda>x. put (key x) (val x)) xs m) k = find m k"
  by (induction xs arbitrary: m) (auto simp: ok_put find_put)

lemma find_fold_put_distinct:
  "ok m \<Longrightarrow> distinct (map key xs) \<Longrightarrow> x \<in> set xs \<Longrightarrow>
   find (fold (\<lambda>x. put (key x) (val x)) xs m) (key x) = Some (val x)"
proof (induction xs arbitrary: m)
  case Nil
  then show ?case by simp
next
  case (Cons y ys)
  show ?case
  proof (cases "x \<in> set ys")
    case True
    with Cons show ?thesis by (auto intro: ok_put)
  next
    case False
    with Cons.prems have "x = y" and "key y \<notin> key ` set ys"
      by auto
    with Cons.prems show ?thesis
      by (simp add: find_fold_put_other ok_put find_put)
  qed
qed

lemma remove_put_restores: "ok m \<Longrightarrow> find m k = None \<Longrightarrow> find (remove k (put k v m)) k' = find m k'"
  by (simp add: find_remove find_put ok_put)

end

interpretation gm: keyed_store "[] :: ('k, 'v) gmap" mput mdel map_of wf_gmap
  by unfold_locales (auto simp: map_of_mput map_of_mdel)

end
