(* ===== verification/GoStrings.thy ===== *)
theory GoStrings
  imports Prelude
begin

text \<open>
  The part of Go's standard library for strings that the program uses: \<^verbatim>\<open>strings.HasPrefix\<close>,
  \<^verbatim>\<open>TrimPrefix\<close>, \<^verbatim>\<open>TrimSpace\<close>, \<^verbatim>\<open>Split\<close>, \<^verbatim>\<open>Index\<close>, \<^verbatim>\<open>Contains\<close>, \<^verbatim>\<open>Join\<close>, and
  \<^verbatim>\<open>strconv.ParseInt\<close> / \<^verbatim>\<open>Atoi\<close> in base 10 with the \<^verbatim>\<open>%d\<close> verb of \<^verbatim>\<open>fmt\<close>. A string is its list of
  bytes, as in Go. The lemmas show that printing and parsing a decimal number are inverse, and
  what the search and trimming functions return on the shapes the parsers meet.
\<close>

section \<open>Prefixes\<close>

definition HasPrefix :: "string \<Rightarrow> string \<Rightarrow> bool" where
  "HasPrefix s p \<longleftrightarrow> length p \<le> length s \<and> take (length p) s = p"

definition TrimPrefix :: "string \<Rightarrow> string \<Rightarrow> string" where
  "TrimPrefix s p = (if HasPrefix s p then drop (length p) s else s)"

lemma HasPrefix_iff: "HasPrefix s p \<longleftrightarrow> (\<exists>t. s = p @ t)"
  unfolding HasPrefix_def by (metis append_eq_conv_conj append_take_drop_id le_add1 length_append)

lemma HasPrefix_append [simp]: "HasPrefix (p @ t) p"
  by (simp add: HasPrefix_def)

lemma HasPrefix_Nil [simp]: "HasPrefix s []"
  by (simp add: HasPrefix_def)

lemma TrimPrefix_append [simp]: "TrimPrefix (p @ t) p = t"
  by (simp add: TrimPrefix_def)

text \<open>Names with a separator after the owner: two owners without the separator never share a prefix.\<close>

lemma prefix_sep_unique:
  assumes "c \<notin> set p" and "c \<notin> set q" and "HasPrefix (q @ c # n) (p @ [c])"
  shows "p = q"
proof -
  from assms(3) obtain t where "q @ c # n = p @ c # t"
    by (auto simp: HasPrefix_iff)
  with assms(1,2) show ?thesis
    by (auto simp: append_eq_append_conv2 append_eq_Cons_conv Cons_eq_append_conv)
qed

section \<open>Searching and splitting\<close>

fun Index :: "string \<Rightarrow> string \<Rightarrow> nat option" where
  "Index s p =
     (if HasPrefix s p then Some 0
      else case s of [] \<Rightarrow> None | _ # s' \<Rightarrow> map_option Suc (Index s' p))"

declare Index.simps [simp del]

definition Contains :: "string \<Rightarrow> string \<Rightarrow> bool" where
  "Contains s p \<longleftrightarrow> Index s p \<noteq> None"

fun Split :: "string \<Rightarrow> char \<Rightarrow> string list" where
  "Split [] sep = [[]]"
| "Split (c # s) sep =
     (if c = sep then [] # Split s sep
      else case Split s sep of [] \<Rightarrow> [[c]] | w # ws \<Rightarrow> (c # w) # ws)"

fun Join :: "string list \<Rightarrow> string \<Rightarrow> string" where
  "Join [] sep = []"
| "Join [w] sep = w"
| "Join (w # ws) sep = w @ sep @ Join ws sep"

lemma Index_prefix [simp]: "Index (p @ t) p = Some 0"
  by (subst Index.simps) simp

lemma Contains_iff: "Contains s p \<longleftrightarrow> (\<exists>a b. s = a @ p @ b)"
proof (induction s p rule: Index.induct)
  case (1 s p)
  show ?case
  proof (cases "HasPrefix s p")
    case True
    then have "\<exists>a b. s = a @ p @ b"
      by (auto simp: HasPrefix_iff intro: exI [of _ "[]"])
    with True show ?thesis
      by (simp add: Contains_def Index.simps [of s p])
  next
    case False
    show ?thesis
    proof (cases s)
      case Nil
      with False show ?thesis
        by (auto simp: Contains_def Index.simps [of "[]" p] HasPrefix_iff)
    next
      case (Cons c s')
      have "(\<exists>a b. s = a @ p @ b) \<longleftrightarrow> (\<exists>a b. s' = a @ p @ b)"
      proof
        assume "\<exists>a b. s = a @ p @ b"
        then obtain a b where "s = a @ p @ b" by blast
        with False Cons show "\<exists>a b. s' = a @ p @ b"
          by (cases a) (fastforce simp: HasPrefix_iff)+
      next
        assume "\<exists>a b. s' = a @ p @ b"
        with Cons show "\<exists>a b. s = a @ p @ b" by (metis append_Cons)
      qed
      with False Cons "1.IH" show ?thesis
        by (simp add: Contains_def Index.simps [of "c # s'" p])
    qed
  qed
qed

lemma Split_nonempty [simp]: "Split s sep \<noteq> []"
  by (induction s) (auto split: list.splits)

lemma Split_no_sep: "sep \<notin> set s \<Longrightarrow> Split s sep = [s]"
  by (induction s) auto

lemma Split_append_sep: "sep \<notin> set s \<Longrightarrow> Split (s @ sep # t) sep = s # Split t sep"
  by (induction s) (auto split: list.splits)

lemma Split_Join:
  "ws \<noteq> [] \<Longrightarrow> \<forall>w \<in> set ws. sep \<notin> set w \<Longrightarrow> Split (Join ws [sep]) sep = ws"
  by (induction ws "[sep]" rule: Join.induct) (auto simp: Split_no_sep Split_append_sep)

lemma Join_Split: "Join (Split s sep) [sep] = s"
proof (induction s)
  case (Cons c s)
  then show ?case
    by (cases "Split s sep"; cases "tl (Split s sep)") auto
qed simp

section \<open>Trimming white space\<close>

text \<open>The UTF-8 encodings of the Unicode white-space characters, as \<^verbatim>\<open>unicode.IsSpace\<close> lists them.\<close>

definition space_encodings :: "string list" where
  "space_encodings =
     [[CHR 0x09], [CHR 0x0A], [CHR 0x0B], [CHR 0x0C], [CHR 0x0D], [CHR 0x20],
      [CHR 0xC2, CHR 0x85], [CHR 0xC2, CHR 0xA0], [CHR 0xE1, CHR 0x9A, CHR 0x80]]
     @ map (\<lambda>b. [CHR 0xE2, CHR 0x80, b])
         [CHR 0x80, CHR 0x81, CHR 0x82, CHR 0x83, CHR 0x84, CHR 0x85, CHR 0x86, CHR 0x87,
          CHR 0x88, CHR 0x89, CHR 0x8A, CHR 0xA8, CHR 0xA9, CHR 0xAF]
     @ [[CHR 0xE2, CHR 0x81, CHR 0x9F], [CHR 0xE3, CHR 0x80, CHR 0x80]]"

lemma find_space_shorter:
  assumes "List.find (HasPrefix s) space_encodings = Some e"
  shows "length (drop (length e) s) < length s"
proof -
  from assms have "e \<in> set space_encodings" and "HasPrefix s e"
    by (auto simp: find_Some_iff)
  then have "e \<noteq> []" and "length e \<le> length s"
    by (auto simp: space_encodings_def HasPrefix_def)
  then show ?thesis by (cases e) auto
qed

function TrimLeftSpace :: "string \<Rightarrow> string" where
  "TrimLeftSpace s =
     (case List.find (HasPrefix s) space_encodings of
        None \<Rightarrow> s
      | Some e \<Rightarrow> TrimLeftSpace (drop (length e) s))"
  by pat_completeness auto

termination
  by (relation "measure length") (simp_all add: find_space_shorter del: length_drop)

declare TrimLeftSpace.simps [simp del]

lemma find_rev_space_shorter:
  assumes "List.find (\<lambda>e. HasPrefix r (rev e)) space_encodings = Some e"
  shows "length (drop (length e) r) < length r"
proof -
  from assms have "e \<in> set space_encodings" and "HasPrefix r (rev e)"
    by (auto simp: find_Some_iff)
  then have "e \<noteq> []" and "length e \<le> length r"
    by (auto simp: space_encodings_def HasPrefix_def)
  then show ?thesis by (cases e) auto
qed

text \<open>Trimming on the right is trimming the reversed encodings off the reversed string.\<close>

function trim_rev :: "string \<Rightarrow> string" where
  "trim_rev r =
     (case List.find (\<lambda>e. HasPrefix r (rev e)) space_encodings of
        None \<Rightarrow> r
      | Some e \<Rightarrow> trim_rev (drop (length e) r))"
  by pat_completeness auto

termination
  by (relation "measure length") (simp_all add: find_rev_space_shorter del: length_drop)

declare trim_rev.simps [simp del]

definition TrimSpace :: "string \<Rightarrow> string" where
  "TrimSpace s = rev (trim_rev (rev (TrimLeftSpace s)))"

text \<open>An ASCII byte that is not white space stops the trimming.\<close>

definition plain_char :: "char \<Rightarrow> bool" where
  "plain_char c \<longleftrightarrow> of_char c < (128 :: nat) \<and> c \<notin> set [CHR 0x09, CHR 0x0A, CHR 0x0B, CHR 0x0C, CHR 0x0D, CHR 0x20]"

lemma no_space_prefix:
  assumes "plain_char c" and "e \<in> set space_encodings"
  shows "\<not> HasPrefix (c # s) e" and "\<not> HasPrefix (c # s) (rev e)"
  using assms by (auto simp: space_encodings_def plain_char_def HasPrefix_def)

lemma TrimLeftSpace_plain: "plain_char c \<Longrightarrow> TrimLeftSpace (c # s) = c # s"
proof -
  assume "plain_char c"
  then have "List.find (HasPrefix (c # s)) space_encodings = None"
    by (auto simp: find_None_iff no_space_prefix)
  then show ?thesis by (subst TrimLeftSpace.simps) simp
qed

lemma trim_rev_plain: "plain_char c \<Longrightarrow> trim_rev (c # r) = c # r"
proof -
  assume "plain_char c"
  then have "List.find (\<lambda>e. HasPrefix (c # r) (rev e)) space_encodings = None"
    by (auto simp: find_None_iff no_space_prefix)
  then show ?thesis by (subst trim_rev.simps) simp
qed

lemma TrimLeftSpace_blank: "TrimLeftSpace (CHR '' '' # s) = TrimLeftSpace s"
  by (subst TrimLeftSpace.simps) (simp add: space_encodings_def HasPrefix_def)

lemma TrimSpace_blank: "TrimSpace (CHR '' '' # s) = TrimSpace s"
  by (simp add: TrimSpace_def TrimLeftSpace_blank)

lemma TrimSpace_Nil [simp]: "TrimSpace [] = []"
  by (simp add: TrimSpace_def TrimLeftSpace.simps [of "[]"] trim_rev.simps [of "[]"]
      space_encodings_def HasPrefix_def)

lemma TrimSpace_plain:
  assumes "s \<noteq> []" and "plain_char (hd s)" and "plain_char (last s)"
  shows "TrimSpace s = s"
proof -
  from assms obtain c t where s: "s = c # t" by (cases s) auto
  have left: "TrimLeftSpace s = s"
    using assms by (simp add: s TrimLeftSpace_plain)
  have "rev s = last s # rev (butlast s)"
    using assms(1) by (metis append_butlast_last_id rev.simps(2) rev_append rev_rev_ident rev_singleton_conv append_Cons append_Nil)
  with assms(3) have "trim_rev (rev s) = rev s"
    by (metis trim_rev_plain)
  with left show ?thesis by (simp add: TrimSpace_def)
qed

section \<open>Decimal numbers\<close>

definition is_digit :: "char \<Rightarrow> bool" where
  "is_digit c \<longleftrightarrow> 48 \<le> (of_char c :: nat) \<and> (of_char c :: nat) \<le> 57"

definition digit_val :: "char \<Rightarrow> nat" where
  "digit_val c = of_char c - 48"

datatype num_error = ErrSyntax | ErrRange

text \<open>
  \<^verbatim>\<open>strconv.ParseUint\<close> in base 10 at 64 bits: the accumulator is checked before and after
  each digit, so an overflow is reported before a later non-digit is seen.
\<close>

fun parse_uint_loop :: "nat \<Rightarrow> string \<Rightarrow> num_error + nat" where
  "parse_uint_loop n [] = Inr n"
| "parse_uint_loop n (c # s) =
     (if \<not> is_digit c then Inl ErrSyntax
      else if (2 ^ 64 - 1) div 10 + 1 \<le> n then Inl ErrRange
      else let n1 = n * 10 + digit_val c in
        if 2 ^ 64 - 1 < n1 then Inl ErrRange else parse_uint_loop n1 s)"

definition ParseUint :: "string \<Rightarrow> num_error + nat" where
  "ParseUint s = (if s = [] then Inl ErrSyntax else parse_uint_loop 0 s)"

text \<open>\<^verbatim>\<open>strconv.ParseInt(s, 10, 64)\<close>: the value is also meaningful on a range error (it is clamped).\<close>

definition ParseInt :: "string \<Rightarrow> int64 \<times> num_error option" where
  "ParseInt s =
     (case s of
        [] \<Rightarrow> (0, Some ErrSyntax)
      | c # t \<Rightarrow>
          (let neg = (c = CHR ''-'');
               u = (if c = CHR ''+'' \<or> c = CHR ''-'' then t else s)
           in case ParseUint u of
                Inl ErrSyntax \<Rightarrow> (0, Some ErrSyntax)
              | Inl ErrRange \<Rightarrow> (if neg then - (2 ^ 63) else MaxInt64, Some ErrRange)
              | Inr un \<Rightarrow>
                  if \<not> neg \<and> 2 ^ 63 \<le> un then (MaxInt64, Some ErrRange)
                  else if neg \<and> 2 ^ 63 < un then (- (2 ^ 63), Some ErrRange)
                  else (if neg then - word_of_nat un else word_of_nat un, None)))"

text \<open>\<^verbatim>\<open>strconv.Atoi\<close> returns the same value; its callers drop the error.\<close>

definition Atoi :: "string \<Rightarrow> int64" where
  "Atoi s = fst (ParseInt s)"

definition digit_char :: "nat \<Rightarrow> char" where
  "digit_char d = char_of (48 + d)"

fun Itoa :: "nat \<Rightarrow> string" where
  "Itoa n = (if n < 10 then [digit_char n] else Itoa (n div 10) @ [digit_char (n mod 10)])"

declare Itoa.simps [simp del]

lemma of_char_digit: "d < 10 \<Longrightarrow> (of_char (digit_char d) :: nat) = 48 + d"
  by (simp add: digit_char_def)

lemma is_digit_digit_char [simp]: "d < 10 \<Longrightarrow> is_digit (digit_char d)"
  by (simp add: is_digit_def of_char_digit)

lemma digit_val_digit_char [simp]: "d < 10 \<Longrightarrow> digit_val (digit_char d) = d"
  by (simp add: digit_val_def of_char_digit)

lemma Itoa_nonempty [simp]: "Itoa n \<noteq> []"
  by (subst Itoa.simps) simp

lemma Itoa_digits: "c \<in> set (Itoa n) \<Longrightarrow> is_digit c"
proof (induction n rule: Itoa.induct)
  case (1 n)
  then show ?case
    by (cases "n < 10") (auto simp: Itoa.simps [of n])
qed

lemma plain_char_digit: "is_digit c \<Longrightarrow> plain_char c"
  by (auto simp: is_digit_def plain_char_def)

lemma TrimSpace_Itoa [simp]: "TrimSpace (Itoa n) = Itoa n"
  by (rule TrimSpace_plain) (auto intro!: plain_char_digit Itoa_digits [of _ n])

lemma parse_uint_append:
  "parse_uint_loop n (s @ t) =
     (case parse_uint_loop n s of Inl e \<Rightarrow> Inl e | Inr m \<Rightarrow> parse_uint_loop m t)"
  by (induction n s rule: parse_uint_loop.induct) (auto simp: Let_def)

lemma parse_uint_Itoa: "n < 2 ^ 64 \<Longrightarrow> parse_uint_loop 0 (Itoa n) = Inr n"
proof (induction n rule: Itoa.induct)
  case (1 n)
  show ?case
  proof (cases "n < 10")
    case True
    then show ?thesis by (simp add: Itoa.simps [of n])
  next
    case False
    then have "parse_uint_loop 0 (Itoa (n div 10)) = Inr (n div 10)"
      using 1 by simp
    moreover have "n div 10 < (2 ^ 64 - 1) div 10 + 1"
      using "1.prems" by simp
    moreover have "n div 10 * 10 + n mod 10 = n"
      by simp
    ultimately show ?thesis
      using False "1.prems" by (simp add: Itoa.simps [of n] parse_uint_append)
  qed
qed

lemma ParseInt_Itoa: "n < 2 ^ 63 \<Longrightarrow> ParseInt (Itoa n) = (word_of_nat n, None)"
proof -
  assume n: "n < 2 ^ 63"
  obtain c t where ct: "Itoa n = c # t"
    by (cases "Itoa n") auto
  have "is_digit c"
    using Itoa_digits [of c n] ct by simp
  then have "c \<noteq> CHR ''+''" and "c \<noteq> CHR ''-''"
    by (auto simp: is_digit_def)
  moreover have "parse_uint_loop 0 (c # t) = Inr n"
    using parse_uint_Itoa [of n] n ct by simp
  ultimately show ?thesis
    using n by (simp add: ParseInt_def ParseUint_def ct del: parse_uint_loop.simps)
qed

lemma Atoi_Itoa: "n < 2 ^ 63 \<Longrightarrow> sint (Atoi (Itoa n)) = int n"
proof -
  assume n: "n < 2 ^ 63"
  then have "Atoi (Itoa n) = word_of_nat n"
    by (simp add: Atoi_def ParseInt_Itoa)
  moreover have "sint (word_of_nat n :: int64) = int n"
    using n by (simp add: signed_of_nat signed_take_bit_int_eq_self)
  ultimately show ?thesis by simp
qed

section \<open>Searching in a text that ends in a number\<close>

lemma Index_length: "Index s p = Some i \<Longrightarrow> i + length p \<le> length s"
proof (induction s p arbitrary: i rule: Index.induct)
  case (1 s p)
  show ?case
  proof (cases "HasPrefix s p")
    case True
    with "1.prems" show ?thesis
      by (auto simp: Index.simps [of s p] HasPrefix_iff)
  next
    case False
    with "1.prems" obtain c s' j where "s = c # s'" "Index s' p = Some j" "i = Suc j"
      by (auto simp: Index.simps [of s p] split: list.splits)
    with "1.IH" [OF False] show ?thesis by auto
  qed
qed

lemma Index_append: "Index s p = Some i \<Longrightarrow> Index (s @ t) p = Some i"
proof (induction s p arbitrary: i rule: Index.induct)
  case (1 s p)
  have len: "length p \<le> length s"
    using Index_length [OF "1.prems"] by simp
  have pre: "HasPrefix (s @ t) p = HasPrefix s p"
    using len by (auto simp: HasPrefix_iff append_eq_append_conv2)
  show ?case
  proof (cases "HasPrefix s p")
    case True
    with "1.prems" pre show ?thesis
      by (simp add: Index.simps [of s p] Index.simps [of "s @ t" p])
  next
    case False
    with "1.prems" obtain c s' j where s: "s = c # s'" "Index s' p = Some j" "i = Suc j"
      by (auto simp: Index.simps [of s p] split: list.splits)
    with "1.IH" [OF False s(1) s(2)] False pre show ?thesis
      by (simp add: Index.simps [of "c # s' @ t" p])
  qed
qed

lemma Contains_append_other:
  assumes "p \<noteq> []" and "last p \<notin> set ds"
  shows "Contains (s @ ds) p \<longleftrightarrow> Contains s p"
proof
  assume "Contains (s @ ds) p"
  then obtain a b where eq: "s @ ds = (a @ p) @ b"
    by (auto simp: Contains_iff)
  have "\<exists>u. s = (a @ p) @ u \<or> s @ u = a @ p \<and> u \<noteq> [] \<and> ds = u @ b"
    using append_eq_append_conv2 [THEN iffD1, OF eq] by (metis append_Nil2)
  then consider u where "s = (a @ p) @ u" | u where "s @ u = a @ p" "u \<noteq> []" "ds = u @ b"
    by blast
  then show "Contains s p"
  proof cases
    case 1
    then show ?thesis by (auto simp: Contains_iff)
  next
    case (2 u)
    then have "last p = last u"
      using assms(1) by (metis last_appendR)
    with 2 assms(2) show ?thesis by simp
  qed
next
  assume "Contains s p"
  then obtain a b where "s @ ds = a @ p @ (b @ ds)"
    by (auto simp: Contains_iff)
  then show "Contains (s @ ds) p"
    unfolding Contains_iff by blast
qed

lemma Itoa_no_other: "\<not> is_digit c \<Longrightarrow> c \<notin> set (Itoa n)"
  using Itoa_digits by blast

lemma not_digits [simp]: "\<not> is_digit CHR ''=''" "\<not> is_digit CHR '',''" "\<not> is_digit CHR 0x0A"
  by (simp_all add: is_digit_def)

end
