(* ===== verification/GoTime.thy ===== *)
theory GoTime
  imports GoStrings "HOL-Library.Log_Nat"
begin

text \<open>
  The part of Go's package \<^verbatim>\<open>time\<close> that the program uses. A \<^verbatim>\<open>time.Time\<close> is the number of
  nanoseconds since Go's zero time (so \<^verbatim>\<open>IsZero\<close> is equality with 0); a \<^verbatim>\<open>time.Duration\<close> is an
  \<^verbatim>\<open>int64\<close> of nanoseconds. \<open>Sub\<close> saturates at the ends of the duration range, as in Go, and
  arithmetic on durations wraps. The clock is an argument \<open>now\<close> of every definition that reads it.
  \<open>ParseDuration\<close> follows the library's scanner, the IEEE double rounding of a fraction included.
\<close>

type_synonym time = int
type_synonym duration = int64

definition IsZero :: "time \<Rightarrow> bool" where
  "IsZero t \<longleftrightarrow> t = 0"

definition minDuration :: duration where
  "minDuration = - (2 ^ 63)"

definition maxDuration :: duration where
  "maxDuration = MaxInt64"

definition Sub :: "time \<Rightarrow> time \<Rightarrow> duration" where
  "Sub t u =
     (if in_int64 (t - u) then word_of_int (t - u)
      else if t < u then minDuration else maxDuration)"

definition Since :: "time \<Rightarrow> time \<Rightarrow> duration" where
  "Since now t = Sub now t"

definition Add :: "time \<Rightarrow> duration \<Rightarrow> time" where
  "Add t d = t + sint d"

definition Second :: duration where
  "Second = 1000000000"

definition Minute :: duration where
  "Minute = 60000000000"

lemma sint_word_of_int_exact: "in_int64 i \<Longrightarrow> sint (word_of_int i :: int64) = i"
  by (simp add: sint_sbintrunc' in_int64_def signed_take_bit_int_eq_self)

lemma sint_minDuration [i64_simps]: "sint minDuration = - (2 ^ 63)"
  by (simp add: minDuration_def)

lemma sint_maxDuration [i64_simps]: "sint maxDuration = 2 ^ 63 - 1"
  by (simp add: maxDuration_def sint_MaxInt64)

text \<open>The duration between two instants is the difference clamped to the range of \<^verbatim>\<open>int64\<close>.\<close>

lemma sint_Sub: "sint (Sub t u) = max (- (2 ^ 63)) (min (2 ^ 63 - 1) (t - u))"
  by (auto simp: Sub_def in_int64_def sint_word_of_int_exact i64_simps max_def min_def simp del: of_int_diff)

lemma Sub_exact: "in_int64 (t - u) \<Longrightarrow> sint (Sub t u) = t - u"
  by (simp add: Sub_def sint_word_of_int_exact del: of_int_diff)

section \<open>Doubles for the fraction of a duration\<close>

text \<open>Non-negative doubles in the normal range, as a fraction of naturals; rounding is half-even.\<close>

definition round_half_even :: "nat \<Rightarrow> nat \<Rightarrow> nat" where
  "round_half_even p q =
     (let d = p div q; r = p mod q in
      if 2 * r < q then d
      else if q < 2 * r then Suc d
      else if even d then d else Suc d)"

function doublings :: "nat \<Rightarrow> nat \<Rightarrow> nat" where
  "doublings p q = (if p = 0 \<or> q \<le> p then 0 else Suc (doublings (2 * p) q))"
  by pat_completeness auto
termination
  by (relation "measure (\<lambda>(p, q). q - p)") auto

declare doublings.simps [simp del]

definition to_double :: "nat \<Rightarrow> nat \<Rightarrow> nat \<times> nat" where
  "to_double p q =
     (if p = 0 then (0, 1)
      else if q \<le> p then
        (let k = floorlog 2 (p div q) - 1 in
         if 52 \<le> k then (round_half_even p (q * 2 ^ (k - 52)) * 2 ^ (k - 52), 1)
         else (round_half_even (p * 2 ^ (52 - k)) q, 2 ^ (52 - k)))
      else
        (let e = 52 + doublings p q in (round_half_even (p * 2 ^ e) q, 2 ^ e)))"

definition double_mult :: "nat \<times> nat \<Rightarrow> nat \<times> nat \<Rightarrow> nat \<times> nat" where
  "double_mult a b = to_double (fst a * fst b) (snd a * snd b)"

definition double_to_uint :: "nat \<times> nat \<Rightarrow> nat" where
  "double_to_uint a = fst a div snd a"

section \<open>Parsing a duration\<close>

fun leadingInt :: "nat \<Rightarrow> string \<Rightarrow> (nat \<times> string) option" where
  "leadingInt x [] = Some (x, [])"
| "leadingInt x (c # s) =
     (if \<not> is_digit c then Some (x, c # s)
      else if 2 ^ 63 div 10 < x then None
      else let x' = x * 10 + digit_val c in
        if 2 ^ 63 < x' then None else leadingInt x' s)"

fun leadingFraction :: "nat \<Rightarrow> nat \<Rightarrow> bool \<Rightarrow> string \<Rightarrow> nat \<times> nat \<times> string" where
  "leadingFraction x scale overflow [] = (x, scale, [])"
| "leadingFraction x scale overflow (c # s) =
     (if \<not> is_digit c then (x, scale, c # s)
      else if overflow then leadingFraction x scale True s
      else if (2 ^ 63 - 1) div 10 < x then leadingFraction x scale True s
      else let y = x * 10 + digit_val c in
        if 2 ^ 63 < y then leadingFraction x scale True s
        else leadingFraction y (scale * 10) False s)"

definition unitMap :: "(string, nat) gmap" where
  "unitMap =
     [(''ns'', 1), (''us'', 1000), ([CHR 0xC2, CHR 0xB5, CHR ''s''], 1000),
      ([CHR 0xCE, CHR 0xBC, CHR ''s''], 1000), (''ms'', 1000000), (''s'', 1000000000),
      (''m'', 60000000000), (''h'', 3600000000000)]"

definition unit_char :: "char \<Rightarrow> bool" where
  "unit_char c \<longleftrightarrow> \<not> (c = CHR ''.'' \<or> is_digit c)"

text \<open>The optional fraction: its digits, its scale, the rest, and whether a digit was consumed.\<close>

definition parse_fraction :: "string \<Rightarrow> nat \<times> nat \<times> string \<times> bool" where
  "parse_fraction s =
     (case s of
        [] \<Rightarrow> (0, 1, s, False)
      | c # t \<Rightarrow>
          if c = CHR ''.'' then
            (case leadingFraction 0 1 False t of
               (f, scale, r) \<Rightarrow> (f, scale, r, length r \<noteq> length t))
          else (0, 1, s, False))"

text \<open>A unit name and the value it gives to the number before it, in nanoseconds.\<close>

definition parse_unit :: "nat \<Rightarrow> nat \<Rightarrow> nat \<Rightarrow> string \<Rightarrow> (nat \<times> string) option" where
  "parse_unit v f scale s =
     (let u = takeWhile unit_char s; r = dropWhile unit_char s in
      if u = [] then None
      else case map_of unitMap u of
             None \<Rightarrow> None
           | Some unit \<Rightarrow>
               if 2 ^ 63 div unit < v then None
               else if 0 < f then
                 (let w = v * unit + double_to_uint
                            (double_mult (to_double f 1) (to_double unit scale))
                  in if 2 ^ 63 < w then None else Some (w, r))
               else Some (v * unit, r))"

text \<open>One number with its unit: its length in nanoseconds and the rest of the input.\<close>

definition parse_unit_value :: "string \<Rightarrow> (nat \<times> string) option" where
  "parse_unit_value s =
     (if s = [] \<or> \<not> (hd s = CHR ''.'' \<or> is_digit (hd s)) then None
      else case leadingInt 0 s of
             None \<Rightarrow> None
           | Some (v, s1) \<Rightarrow>
               (case parse_fraction s1 of
                  (f, scale, s2, post) \<Rightarrow>
                    if length s1 = length s \<and> \<not> post then None
                    else parse_unit v f scale s2))"

lemma leadingInt_length: "leadingInt x s = Some (v, r) \<Longrightarrow> length r \<le> length s"
  by (induction x s rule: leadingInt.induct) (auto simp: Let_def split: if_splits)

lemma leadingFraction_length: "leadingFraction x k b s = (f, k', r) \<Longrightarrow> length r \<le> length s"
  by (induction x k b s rule: leadingFraction.induct) (auto simp: Let_def split: if_splits)

lemma takeWhile_shorter: "takeWhile P s \<noteq> [] \<Longrightarrow> length (dropWhile P s) < length s"
  by (cases s) (auto simp: length_dropWhile_le le_imp_less_Suc split: if_splits)

lemma parse_fraction_length: "parse_fraction s = (f, k, r, b) \<Longrightarrow> length r \<le> length s"
  by (auto simp: parse_fraction_def le_SucI dest: leadingFraction_length
      split: list.splits if_splits prod.splits)

lemma parse_unit_shorter: "parse_unit v f k s = Some (w, r) \<Longrightarrow> length r < length s"
  using takeWhile_shorter [of unit_char s]
  by (auto simp: parse_unit_def Let_def split: if_splits option.splits)

lemma parse_unit_value_shorter:
  assumes "parse_unit_value s = Some (v, r)"
  shows "length r < length s"
proof -
  obtain w s1 where li: "leadingInt 0 s = Some (w, s1)"
    using assms by (auto simp: parse_unit_value_def split: if_splits option.splits)
  obtain f k s2 b where pf: "parse_fraction s1 = (f, k, s2, b)"
    by (metis prod_cases4)
  have "parse_unit w f k s2 = Some (v, r)"
    using assms li pf by (simp add: parse_unit_value_def split: if_splits)
  then show ?thesis
    using parse_unit_shorter parse_fraction_length [OF pf] leadingInt_length [OF li]
    by fastforce
qed

text \<open>The loop over the numbers of the input, adding up nanoseconds.\<close>

function parse_units :: "nat \<Rightarrow> string \<Rightarrow> nat option" where
  "parse_units d s =
     (if s = [] then Some d
      else case parse_unit_value s of
             None \<Rightarrow> None
           | Some (v, r) \<Rightarrow> if 2 ^ 63 < d + v then None else parse_units (d + v) r)"
  by pat_completeness auto
termination
  by (relation "measure (\<lambda>(d, s). length s)") (auto dest: parse_unit_value_shorter)

declare parse_units.simps [simp del]

definition ParseDuration :: "string \<Rightarrow> duration option" where
  "ParseDuration s =
     (let neg = (s \<noteq> [] \<and> hd s = CHR ''-'');
          t = (if s \<noteq> [] \<and> (hd s = CHR ''-'' \<or> hd s = CHR ''+'') then tl s else s)
      in if t = ''0'' then Some 0
         else if t = [] then None
         else case parse_units 0 t of
                None \<Rightarrow> None
              | Some d \<Rightarrow>
                  if neg then Some (- word_of_nat d)
                  else if 2 ^ 63 - 1 < d then None
                  else Some (word_of_nat d))"

lemma ParseDuration_3m: "ParseDuration ''3m'' = Some 180000000000"
  by (simp add: ParseDuration_def parse_units.simps [of 0 "[CHR ''3'', CHR ''m'']"]
      parse_units.simps [of _ "[]"] parse_unit_value_def parse_fraction_def parse_unit_def
      unit_char_def is_digit_def digit_val_def unitMap_def)

lemma ParseDuration_empty: "ParseDuration [] = None"
  by (simp add: ParseDuration_def)

end
