(* ===== verification/KubeTypes.thy ===== *)
theory KubeTypes
  imports GoTime
begin

text \<open>
  The objects the program handles. The Kubernetes objects (\<^verbatim>\<open>corev1.Pod\<close>, \<^verbatim>\<open>corev1.Node\<close>, \<dots>)
  are records of the fields the source reads or writes; a field the source never touches is left
  out and no definition can depend on it. A \<^verbatim>\<open>resource.Quantity\<close> belongs to a third-party
  package: its type is the parameter \<open>'q\<close>, and the only method the source calls on it,
  \<^verbatim>\<open>MilliValue\<close>, is an argument of the definitions that need it. The \<^verbatim>\<open>v1alpha1\<close> types of
  \<^verbatim>\<open>src/api\<close> are modelled with all their fields, and the label and annotation keys of
  \<^verbatim>\<open>src/internal/kompakt/labels.go\<close> are constants.
\<close>

section \<open>Label and annotation keys\<close>

definition LabelProfile :: string where "LabelProfile = ''packer.kompakt.io/packing-profile''"
definition LabelExclude :: string where "LabelExclude = ''kompakt.io/exclude''"
definition AnnotationPriority :: string where "AnnotationPriority = ''kompakt.io/priority''"
definition AnnotationTraceID :: string where "AnnotationTraceID = ''kompakt.io/trace-id''"
definition AnnotationReason :: string where "AnnotationReason = ''kompakt.io/gate-reason''"
definition AnnotationNode :: string where "AnnotationNode = ''kompakt.io/target-node''"
definition AnnotationHeldBy :: string where "AnnotationHeldBy = ''kompakt.io/held-by''"
definition GatePrefix :: string where "GatePrefix = ''kompakt.io/''"

lemmas label_defs =
  LabelProfile_def LabelExclude_def AnnotationPriority_def AnnotationTraceID_def
  AnnotationReason_def AnnotationNode_def AnnotationHeldBy_def GatePrefix_def

lemma annotation_keys_distinct:
  "distinct [AnnotationPriority, AnnotationTraceID, AnnotationReason, AnnotationNode, AnnotationHeldBy]"
  by (simp add: label_defs)

section \<open>Pods and nodes\<close>

record Taint =
  taint_Key :: string
  taint_Value :: string
  taint_Effect :: string

record Toleration =
  tol_Key :: string
  tol_Operator :: string
  tol_Value :: string
  tol_Effect :: string

record NodeSelectorRequirement =
  req_Key :: string
  req_Operator :: string
  req_Values :: "string list"

record NodeSelectorTerm =
  MatchExpressions :: "NodeSelectorRequirement list"
  MatchFields :: "NodeSelectorRequirement list"

record NodeAffinity =
  RequiredDuringScheduling :: "NodeSelectorTerm list option"

record Affinity =
  aff_NodeAffinity :: "NodeAffinity option"

record 'q Container =
  Requests :: "(string, 'q) gmap"

record 'q Pod =
  pod_Name :: string
  pod_Namespace :: string
  pod_Labels :: "smap option"
  pod_Annotations :: "smap option"
  pod_CreationTimestamp :: time
  SchedulingGates :: "string list"
  NodeSelector :: smap
  Tolerations :: "Toleration list"
  pod_Affinity :: "Affinity option"
  pod_NodeName :: string
  pod_Phase :: string
  Containers :: "'q Container list"

record NodeCondition =
  nc_Type :: string
  nc_Status :: string
  nc_LastTransitionTime :: time

record 'q Node =
  node_Name :: string
  node_Labels :: "smap option"
  node_CreationTimestamp :: time
  node_DeletionTimestamp :: "time option"
  node_Taints :: "Taint list"
  node_Allocatable :: "(string, 'q) gmap"
  node_Conditions :: "NodeCondition list"

record Event =
  ev_Component :: string
  ev_Reason :: string
  ev_Message :: string
  ev_LastTimestamp :: time
  ev_CreationTimestamp :: time

section \<open>PackingProfile\<close>

record LabelRef =
  lr_Label :: string

record NodeGroupTaint =
  ngt_Key :: string
  ngt_Value :: string
  ngt_Effect :: string

record NodeGroupTemplate =
  NamePrefix :: string
  tmpl_InstanceType :: string
  tmpl_Allocatable :: resources
  tmpl_Labels :: "smap option"
  tmpl_Taints :: "NodeGroupTaint list"

record DemandSource =
  ds_Type :: string
  ds_Resources :: "string list"
  AdditionalResources :: "string list"
  ds_Annotation :: string
  ds_Unit :: string

record CapacitySource =
  cs_Type :: string
  cs_Resources :: "string list"
  cs_Label :: string
  PerDeviceCount :: "LabelRef option"
  NodeGroupTemplates :: "NodeGroupTemplate list"

record NodeConditionRequirement =
  ncr_Type :: string
  ncr_Status :: string

record ReadinessSignal =
  rs_NodeConditions :: "NodeConditionRequirement list"
  RequiredLabels :: "string list"

record RuleRef =
  rule_Name :: string

record PackingProfileSpec =
  sp_DemandSource :: DemandSource
  sp_CapacitySource :: CapacitySource
  sp_ReadinessSignal :: ReadinessSignal
  sp_Rules :: "RuleRef list"
  ReservationTimeout :: string

record Condition =
  cond_Type :: string
  cond_Status :: string
  cond_Reason :: string
  cond_Message :: string
  cond_LastTransitionTime :: time

record PackingProfileStatus =
  ActiveGates :: "32 word"
  InflightNodes :: "32 word"
  st_ActiveDetectors :: "string list"
  st_Conditions :: "Condition list"

record PackingProfile =
  pp_Name :: string
  pp_Spec :: PackingProfileSpec
  pp_Status :: PackingProfileStatus

section \<open>Errors of the API server\<close>

text \<open>An error of the API client: what \<^verbatim>\<open>errors.IsNotFound\<close> tells apart, with the text of \<^verbatim>\<open>Error()\<close>.\<close>

datatype api_error = NotFound (error_text: string) | OtherError (error_text: string)

primrec IsNotFound :: "api_error \<Rightarrow> bool" where
  "IsNotFound (NotFound _) = True"
| "IsNotFound (OtherError _) = False"

end
