(* ===== verification/Scheduling.thy ===== *)
theory Scheduling
  imports KubeTypes
begin

text \<open>
  \<^verbatim>\<open>src/internal/scheduling/tolerations.go\<close>: the toleration check shared by the ledger and by the
  template matching of the controller. Its specification \<open>tolerates_spec\<close> is the documented
  Kubernetes rule; the code agrees with it on every toleration that API validation admits.
\<close>

section \<open>Model\<close>

fun TolerateTaint :: "Toleration list \<Rightarrow> Taint \<Rightarrow> bool" where
  "TolerateTaint [] taint = False"
| "TolerateTaint (t # ts) taint =
     (if tol_Operator t = ''Exists'' \<and> (tol_Key t = '''' \<or> tol_Key t = taint_Key taint)
         \<and> (tol_Effect t = '''' \<or> tol_Effect t = taint_Effect taint) then True
      else if tol_Key t = taint_Key taint \<and> tol_Value t = taint_Value taint
         \<and> (tol_Effect t = '''' \<or> tol_Effect t = taint_Effect taint) then True
      else TolerateTaint ts taint)"

section \<open>Specification\<close>

text \<open>
  The documented rule: the effects match (an empty effect matches all), the keys match (an empty
  key matches all), and the operator holds: \<^verbatim>\<open>Exists\<close> for any value, \<^verbatim>\<open>Equal\<close> (the default) for
  the same value. Validation admits an empty key only with \<^verbatim>\<open>Exists\<close>.
\<close>

definition valid_toleration :: "Toleration \<Rightarrow> bool" where
  "valid_toleration t \<longleftrightarrow>
     tol_Operator t \<in> {'''', ''Equal'', ''Exists''} \<and>
     (tol_Key t = '''' \<longrightarrow> tol_Operator t = ''Exists'')"

definition tolerates_spec :: "Toleration \<Rightarrow> Taint \<Rightarrow> bool" where
  "tolerates_spec t taint \<longleftrightarrow>
     (tol_Effect t = '''' \<or> tol_Effect t = taint_Effect taint) \<and>
     (tol_Key t = '''' \<or> tol_Key t = taint_Key taint) \<and>
     (tol_Operator t = ''Exists'' \<or> tol_Value t = taint_Value taint)"

lemma TolerateTaint_iff:
  "TolerateTaint ts taint \<longleftrightarrow>
     (\<exists>t \<in> set ts. (tol_Effect t = '''' \<or> tol_Effect t = taint_Effect taint) \<and>
        (tol_Operator t = ''Exists'' \<and> (tol_Key t = '''' \<or> tol_Key t = taint_Key taint)
         \<or> tol_Key t = taint_Key taint \<and> tol_Value t = taint_Value taint))"
proof (induction ts)
  case Nil
  then show ?case by simp
next
  case (Cons t ts)
  show ?case
    unfolding TolerateTaint.simps Cons.IH by (simp only: list.set bex_simps if_bool_eq_disj) blast
qed

lemma TolerateTaint_append:
  "TolerateTaint (ts @ us) taint \<longleftrightarrow> TolerateTaint ts taint \<or> TolerateTaint us taint"
  unfolding TolerateTaint_iff by (simp only: set_append bex_Un)

text \<open>On tolerations that pass API validation, the check is the Kubernetes rule.\<close>

theorem TolerateTaint_spec:
  assumes "\<forall>t \<in> set ts. valid_toleration t"
  shows "TolerateTaint ts taint \<longleftrightarrow> (\<exists>t \<in> set ts. tolerates_spec t taint)"
  using assms unfolding TolerateTaint_iff valid_toleration_def tolerates_spec_def
  by (intro bex_cong) auto

theorem TolerateTaint_spec_witness:
  "valid_toleration \<lparr>tol_Key = ''gpu'', tol_Operator = '''', tol_Value = ''l20'', tol_Effect = ''NoSchedule''\<rparr>
   \<and> TolerateTaint [\<lparr>tol_Key = ''gpu'', tol_Operator = '''', tol_Value = ''l20'', tol_Effect = ''NoSchedule''\<rparr>]
       \<lparr>taint_Key = ''gpu'', taint_Value = ''l20'', taint_Effect = ''NoSchedule''\<rparr>"
proof -
  let ?t = "\<lparr>tol_Key = ''gpu'', tol_Operator = '''', tol_Value = ''l20'', tol_Effect = ''NoSchedule''\<rparr>"
  have v: "\<forall>t \<in> set [?t]. valid_toleration t"
    by (simp add: valid_toleration_def)
  show ?thesis
    using v TolerateTaint_spec [OF v] by (simp add: tolerates_spec_def)
qed

end
