(* ===== verification/Ledger.thy ===== *)
theory Ledger
  imports Scheduling
begin

text \<open>
  \<^verbatim>\<open>src/internal/ledger/ledger.go\<close>: the node ledger. A \<open>nodeEntry\<close> holds what one node offers, what
  is used and what is reserved; the ledger maps the names of existing and of in-flight nodes to
  entries. The entries are reached through pointers and changed in place: \<open>withEntry\<close> is a store
  through the pointer that \<open>findEntry\<close> returns, and since every \<open>AddNode\<close> and
  \<open>AddInflightNode\<close> allocates a fresh entry no entry is shared between two names. Every method
  holds the ledger's mutex for its whole body, so a method is one atomic step on the record.
  The receiver is the first argument; a method that may fail returns \<open>Inl errNoFit\<close> and leaves the
  ledger as it was.

  The first part is the model, in the order of the source. The second part holds the facts the
  other components use: what a scan of the nodes returns (\<open>FindFit\<close>, \<open>FindFitExisting\<close>), what a
  reservation changes, and the invariant \<open>ledger_ok\<close> under which the capacity arithmetic does
  not wrap. The locale \<open>capacity_book\<close> is the contract the rules rely on; both searches of the
  ledger are instances of it.
\<close>

section \<open>Model\<close>

datatype ledger_error = errNoFit

record nodeEntry =
  allocatable :: resources
  used :: resources
  reserved :: resources
  ne_labels :: "smap option"
  ne_taints :: "Taint list"

record PodSchedulingConstraints =
  con_Tolerations :: "Toleration list"
  con_NodeSelector :: smap

record NodeLedger =
  nodes :: "(string, nodeEntry) gmap"
  inflight :: "(string, nodeEntry) gmap"

definition available :: "nodeEntry \<Rightarrow> string \<Rightarrow> int64" where
  "available n resource =
     qget (allocatable n) resource - qget (used n) resource - qget (reserved n) resource"

definition New :: NodeLedger where
  "New = \<lparr>nodes = [], inflight = []\<rparr>"

definition copyMap :: "resources \<Rightarrow> resources" where
  "copyMap m = copy_into m []"

definition copyStringMap :: "smap option \<Rightarrow> smap option" where
  "copyStringMap m = (case m of None \<Rightarrow> None | Some m' \<Rightarrow> Some (copy_into m' []))"

definition AddNode ::
  "NodeLedger \<Rightarrow> string \<Rightarrow> resources \<Rightarrow> smap option \<Rightarrow> Taint list \<Rightarrow> NodeLedger" where
  "AddNode l name alloc labels taints =
     l\<lparr>nodes := mput name
         \<lparr>allocatable = copyMap alloc, used = [], reserved = [],
          ne_labels = copyStringMap labels, ne_taints = taints\<rparr> (nodes l)\<rparr>"

definition ClearNodes :: "NodeLedger \<Rightarrow> NodeLedger" where
  "ClearNodes l = l\<lparr>nodes := []\<rparr>"

definition ClearInflight :: "NodeLedger \<Rightarrow> NodeLedger" where
  "ClearInflight l = l\<lparr>inflight := []\<rparr>"

definition ClearInflightByPrefix :: "NodeLedger \<Rightarrow> string \<Rightarrow> NodeLedger" where
  "ClearInflightByPrefix l pre =
     l\<lparr>inflight := fold (\<lambda>(name, _) m. if HasPrefix name pre then mdel name m else m)
                      (inflight l) (inflight l)\<rparr>"

definition snapshot_loop ::
  "(string, nodeEntry) gmap \<Rightarrow> (string, resources) gmap \<Rightarrow> (string, resources) gmap" where
  "snapshot_loop m snap =
     fold (\<lambda>(name, n) snap.
             if 0 < length (reserved n) then mput name (copyMap (reserved n)) snap else snap) m snap"

definition SnapshotReservations :: "NodeLedger \<Rightarrow> (string, resources) gmap" where
  "SnapshotReservations l = snapshot_loop (inflight l) (snapshot_loop (nodes l) [])"

definition restore_one :: "string \<Rightarrow> resources \<Rightarrow> NodeLedger \<Rightarrow> NodeLedger" where
  "restore_one name res l =
     (let l1 = (case map_of (nodes l) name of
                  None \<Rightarrow> l
                | Some n \<Rightarrow> l\<lparr>nodes := madj name (\<lambda>n. n\<lparr>reserved := copyMap res\<rparr>) (nodes l)\<rparr>)
      in case map_of (inflight l1) name of
           None \<Rightarrow> l1
         | Some n \<Rightarrow> l1\<lparr>inflight := madj name (\<lambda>n. n\<lparr>reserved := copyMap res\<rparr>) (inflight l1)\<rparr>)"

definition RestoreReservations :: "NodeLedger \<Rightarrow> (string, resources) gmap \<Rightarrow> NodeLedger" where
  "RestoreReservations l snap = fold (\<lambda>(name, res). restore_one name res) snap l"

definition RemoveNode :: "NodeLedger \<Rightarrow> string \<Rightarrow> NodeLedger" where
  "RemoveNode l name = l\<lparr>nodes := mdel name (nodes l)\<rparr>"

definition UpdateUsage :: "NodeLedger \<Rightarrow> string \<Rightarrow> resources \<Rightarrow> NodeLedger" where
  "UpdateUsage l name u =
     (case map_of (nodes l) name of
        None \<Rightarrow> l
      | Some _ \<Rightarrow> l\<lparr>nodes := madj name (\<lambda>n. n\<lparr>used := copyMap u\<rparr>) (nodes l)\<rparr>)"

definition AddInflightNode ::
  "NodeLedger \<Rightarrow> string \<Rightarrow> resources \<Rightarrow> smap option \<Rightarrow> Taint list \<Rightarrow> NodeLedger" where
  "AddInflightNode l name alloc labels taints =
     l\<lparr>inflight := mput name
         \<lparr>allocatable = copyMap alloc, used = [], reserved = [],
          ne_labels = copyStringMap labels, ne_taints = taints\<rparr> (inflight l)\<rparr>"

definition RemoveInflightNode :: "NodeLedger \<Rightarrow> string \<Rightarrow> NodeLedger" where
  "RemoveInflightNode l name = l\<lparr>inflight := mdel name (inflight l)\<rparr>"

definition findEntry :: "NodeLedger \<Rightarrow> string \<Rightarrow> nodeEntry option" where
  "findEntry l name =
     (case map_of (nodes l) name of
        Some n \<Rightarrow> Some n
      | None \<Rightarrow> (case map_of (inflight l) name of Some n \<Rightarrow> Some n | None \<Rightarrow> None))"

definition withEntry :: "NodeLedger \<Rightarrow> string \<Rightarrow> (nodeEntry \<Rightarrow> nodeEntry) \<Rightarrow> NodeLedger" where
  "withEntry l name f =
     (case map_of (nodes l) name of
        Some _ \<Rightarrow> l\<lparr>nodes := madj name f (nodes l)\<rparr>
      | None \<Rightarrow> l\<lparr>inflight := madj name f (inflight l)\<rparr>)"

text \<open>The two loops of \<^verbatim>\<open>Reserve\<close>: the check with its early return, then the additions.\<close>

fun demand_fits :: "nodeEntry \<Rightarrow> resources \<Rightarrow> bool" where
  "demand_fits n [] = True"
| "demand_fits n ((res, qty) # d) =
     (if sint (available n res) < sint qty then False else demand_fits n d)"

definition add_reserved :: "resources \<Rightarrow> resources \<Rightarrow> resources" where
  "add_reserved d r = fold (\<lambda>(res, qty) r. mput res (qget r res + qty) r) d r"

definition Reserve :: "NodeLedger \<Rightarrow> string \<Rightarrow> resources \<Rightarrow> ledger_error + NodeLedger" where
  "Reserve l nodeName demand =
     (case findEntry l nodeName of
        None \<Rightarrow> Inl errNoFit
      | Some n \<Rightarrow>
          if \<not> demand_fits n demand then Inl errNoFit
          else Inr (withEntry l nodeName (\<lambda>n. n\<lparr>reserved := add_reserved demand (reserved n)\<rparr>)))"

definition sub_reserved :: "resources \<Rightarrow> resources \<Rightarrow> resources" where
  "sub_reserved d r =
     fold (\<lambda>(res, qty) r.
             let r1 = mput res (qget r res - qty) r
             in if sint (qget r1 res) < 0 then mput res 0 r1 else r1) d r"

definition ReleaseReservation :: "NodeLedger \<Rightarrow> string \<Rightarrow> resources \<Rightarrow> NodeLedger" where
  "ReleaseReservation l nodeName demand =
     (case findEntry l nodeName of
        None \<Rightarrow> l
      | Some _ \<Rightarrow> withEntry l nodeName (\<lambda>n. n\<lparr>reserved := sub_reserved demand (reserved n)\<rparr>))"

fun untolerated :: "Toleration list \<Rightarrow> Taint list \<Rightarrow> bool" where
  "untolerated tols [] = False"
| "untolerated tols (taint # ts) =
     (if taint_Effect taint \<noteq> ''NoSchedule'' \<and> taint_Effect taint \<noteq> ''NoExecute''
      then untolerated tols ts
      else if \<not> TolerateTaint tols taint then True
      else untolerated tols ts)"

fun selector_mismatch :: "smap option \<Rightarrow> smap \<Rightarrow> bool" where
  "selector_mismatch labels [] = False"
| "selector_mismatch labels ((key, val) # sel) =
     (if sget labels key \<noteq> val then True else selector_mismatch labels sel)"

definition nodeMatchesConstraints :: "nodeEntry \<Rightarrow> PodSchedulingConstraints option \<Rightarrow> bool" where
  "nodeMatchesConstraints n constraints =
     (case constraints of
        None \<Rightarrow> True
      | Some c \<Rightarrow>
          if untolerated (con_Tolerations c) (ne_taints n) then False
          else if selector_mismatch (ne_labels n) (con_NodeSelector c) then False
          else True)"

text \<open>The slack loop shared by the two searches: \<open>None\<close> is the early exit with \<^verbatim>\<open>fits = false\<close>.\<close>

fun slack_loop :: "nodeEntry \<Rightarrow> resources \<Rightarrow> int64 \<Rightarrow> int64 option" where
  "slack_loop n [] totalSlack = Some totalSlack"
| "slack_loop n ((res, qty) # d) totalSlack =
     (let avail = available n res in
      if sint avail < sint qty then None
      else slack_loop n d (totalSlack + (avail - qty)))"

definition check_fit ::
  "resources \<Rightarrow> PodSchedulingConstraints option \<Rightarrow> bool \<Rightarrow> string \<times> nodeEntry
   \<Rightarrow> string \<times> int64 \<times> bool \<Rightarrow> string \<times> int64 \<times> bool" where
  "check_fit demand constraints infl p best =
     (case p of (nodeName, n) \<Rightarrow> case best of (bestName, bestSlack, bestInflight) \<Rightarrow>
        if \<not> nodeMatchesConstraints n constraints then best
        else case slack_loop n demand 0 of
               None \<Rightarrow> best
             | Some totalSlack \<Rightarrow>
                 if sint totalSlack < sint bestSlack
                    \<or> (totalSlack = bestSlack \<and> \<not> infl \<and> bestInflight)
                 then (nodeName, totalSlack, infl) else best)"

definition FindFit ::
  "NodeLedger \<Rightarrow> resources \<Rightarrow> PodSchedulingConstraints option \<Rightarrow> ledger_error + string \<times> bool" where
  "FindFit l demand constraints =
     (let best1 = fold (check_fit demand constraints False) (nodes l) ('''', MaxInt64, False);
          (bestName, _, bestInflight) = fold (check_fit demand constraints True) (inflight l) best1
      in if bestName = '''' then Inl errNoFit else Inr (bestName, bestInflight))"

definition check_existing ::
  "resources \<Rightarrow> PodSchedulingConstraints option \<Rightarrow> string \<times> nodeEntry
   \<Rightarrow> string \<times> int64 \<Rightarrow> string \<times> int64" where
  "check_existing demand constraints p best =
     (case p of (name, n) \<Rightarrow> case best of (bestName, bestSlack) \<Rightarrow>
        if \<not> nodeMatchesConstraints n constraints then best
        else case slack_loop n demand 0 of
               None \<Rightarrow> best
             | Some totalSlack \<Rightarrow>
                 if sint totalSlack < sint bestSlack then (name, totalSlack) else best)"

definition FindFitExisting ::
  "NodeLedger \<Rightarrow> resources \<Rightarrow> PodSchedulingConstraints option \<Rightarrow> ledger_error + string" where
  "FindFitExisting l demand constraints =
     (let (bestName, _) = fold (check_existing demand constraints) (nodes l) ('''', MaxInt64)
      in if bestName = '''' then Inl errNoFit else Inr bestName)"

record LedgerSnapshot =
  NodeCount :: nat
  InflightCount :: nat
  TotalAllocatable :: resources

definition Snapshot :: "NodeLedger \<Rightarrow> LedgerSnapshot" where
  "Snapshot l =
     \<lparr>NodeCount = length (nodes l), InflightCount = length (inflight l),
      TotalAllocatable =
        fold (\<lambda>(_, n) total. fold (\<lambda>(res, qty) total. mput res (qget total res + qty) total)
                (allocatable n) total) (nodes l) []\<rparr>"

fun HasInflightSignal_loop :: "(string, nodeEntry) gmap \<Rightarrow> string \<Rightarrow> bool" where
  "HasInflightSignal_loop [] pre = False"
| "HasInflightSignal_loop ((name, n) # m) pre =
     (if HasPrefix name pre \<and> length (allocatable n) = 0 then True
      else HasInflightSignal_loop m pre)"

definition HasInflightSignal :: "NodeLedger \<Rightarrow> string \<Rightarrow> bool" where
  "HasInflightSignal l pre = HasInflightSignal_loop (inflight l) pre"

section \<open>Reading the loops\<close>

definition slack :: "nodeEntry \<Rightarrow> resources \<Rightarrow> int64" where
  "slack n d = (\<Sum>(res, qty)\<leftarrow>d. available n res - qty)"

definition exact_slack :: "nodeEntry \<Rightarrow> resources \<Rightarrow> int" where
  "exact_slack n d = (\<Sum>(res, qty)\<leftarrow>d. sint (available n res) - sint qty)"

text \<open>A node is eligible for a pod when the constraints admit it and every demanded amount is free.\<close>

definition eligible :: "nodeEntry \<Rightarrow> resources \<Rightarrow> PodSchedulingConstraints option \<Rightarrow> bool" where
  "eligible n d c \<longleftrightarrow> nodeMatchesConstraints n c \<and> demand_fits n d"

lemma demand_fits_iff:
  "demand_fits n d \<longleftrightarrow> (\<forall>(res, qty) \<in> set d. sint qty \<le> sint (available n res))"
  by (induction n d rule: demand_fits.induct) auto

lemma demand_fitsD: "demand_fits n d \<Longrightarrow> (res, qty) \<in> set d \<Longrightarrow> sint qty \<le> sint (available n res)"
  by (auto simp: demand_fits_iff)

lemma slack_loop_eq: "slack_loop n d t = (if demand_fits n d then Some (t + slack n d) else None)"
  by (induction n d t rule: slack_loop.induct) (auto simp: slack_def Let_def)

lemma untolerated_iff:
  "untolerated tols ts \<longleftrightarrow>
     (\<exists>t \<in> set ts. taint_Effect t \<in> {''NoSchedule'', ''NoExecute''} \<and> \<not> TolerateTaint tols t)"
  by (induction tols ts rule: untolerated.induct) auto

lemma selector_mismatch_iff:
  "selector_mismatch labels sel \<longleftrightarrow> (\<exists>(k, v) \<in> set sel. sget labels k \<noteq> v)"
  by (induction labels sel rule: selector_mismatch.induct) auto

lemma nodeMatchesConstraints_Some:
  "nodeMatchesConstraints n (Some c) \<longleftrightarrow>
     (\<forall>t \<in> set (ne_taints n). taint_Effect t \<in> {''NoSchedule'', ''NoExecute''}
        \<longrightarrow> TolerateTaint (con_Tolerations c) t) \<and>
     (\<forall>(k, v) \<in> set (con_NodeSelector c). sget (ne_labels n) k = v)"
  unfolding nodeMatchesConstraints_def by (auto simp: untolerated_iff selector_mismatch_iff)

lemma HasInflightSignal_loop_iff:
  "HasInflightSignal_loop m pre \<longleftrightarrow> (\<exists>(name, n) \<in> set m. HasPrefix name pre \<and> allocatable n = [])"
  by (induction m pre rule: HasInflightSignal_loop.induct) auto

lemma HasInflightSignal_iff:
  "HasInflightSignal l pre \<longleftrightarrow>
     (\<exists>(name, n) \<in> set (inflight l). HasPrefix name pre \<and> allocatable n = [])"
  by (simp add: HasInflightSignal_def HasInflightSignal_loop_iff)

text \<open>The order in which a demand is ranged over does not matter.\<close>

lemma demand_fits_order: "mset d = mset d' \<Longrightarrow> demand_fits n d = demand_fits n d'"
  unfolding demand_fits_iff by (drule mset_eq_setD) simp

lemma slack_order: "mset d = mset d' \<Longrightarrow> slack n d = slack n d'"
  unfolding slack_def by (rule sum_list_map_order)

lemma slack_loop_order: "mset d = mset d' \<Longrightarrow> slack_loop n d t = slack_loop n d' t"
  by (simp add: slack_loop_eq demand_fits_order [of d d'] slack_order [of d d'])

text \<open>The wrapped slack is the true one as long as the true one is an \<^verbatim>\<open>int64\<close>.\<close>

lemma exact_slack_nonneg: "demand_fits n d \<Longrightarrow> 0 \<le> exact_slack n d"
  unfolding exact_slack_def by (rule sum_list_nonneg) (auto simp: demand_fits_iff)

lemma sint_slack_exact:
  "demand_fits n d \<Longrightarrow> exact_slack n d < 2 ^ 63 \<Longrightarrow> sint (slack n d) = exact_slack n d"
proof (induction d)
  case Nil
  then show ?case by (simp add: slack_def exact_slack_def)
next
  case (Cons p d)
  obtain res qty where p: "p = (res, qty)" by (cases p)
  have fits: "demand_fits n d" and room: "sint qty \<le> sint (available n res)"
    using Cons.prems(1) by (auto simp: p split: if_splits)
  have split: "exact_slack n (p # d) = (sint (available n res) - sint qty) + exact_slack n d"
    by (simp add: exact_slack_def p)
  have tail: "sint (slack n d) = exact_slack n d"
    using Cons.IH [OF fits] Cons.prems(2) room split by simp
  have head: "sint (available n res - qty) = sint (available n res) - sint qty"
    using Cons.prems(2) room split exact_slack_nonneg [OF fits]
    by (intro sint_diff_exact) (simp add: in_int64_def)
  have "sint ((available n res - qty) + slack n d) = sint (available n res - qty) + sint (slack n d)"
    using Cons.prems(2) room split exact_slack_nonneg [OF fits] head tail
    by (intro sint_add_exact) (simp add: in_int64_def)
  moreover have "slack n (p # d) = (available n res - qty) + slack n d"
    by (simp add: slack_def p)
  ultimately show ?case
    by (simp add: split head tail)
qed

section \<open>What the searches return\<close>

text \<open>
  The preference of \<open>FindFit\<close> between two candidate nodes: less slack first, and at equal slack
  an existing node before an in-flight one. It is a linear order, and the test in the body of the
  search is exactly its strict part.
\<close>

datatype fit_key = FitKey (fk_slack: int) (fk_inflight: bool)

instantiation fit_key :: linorder
begin

definition less_eq_fit_key :: "fit_key \<Rightarrow> fit_key \<Rightarrow> bool" where
  "a \<le> b \<longleftrightarrow> fk_slack a < fk_slack b \<or> fk_slack a = fk_slack b \<and> (fk_inflight a \<longrightarrow> fk_inflight b)"

definition less_fit_key :: "fit_key \<Rightarrow> fit_key \<Rightarrow> bool" where
  "a < b \<longleftrightarrow> fk_slack a < fk_slack b \<or> fk_slack a = fk_slack b \<and> \<not> fk_inflight a \<and> fk_inflight b"

instance
proof
  fix a b c :: fit_key
  show "(a < b) = (a \<le> b \<and> \<not> b \<le> a)"
    by (auto simp: less_eq_fit_key_def less_fit_key_def)
  show "a \<le> a"
    by (simp add: less_eq_fit_key_def)
  show "a \<le> b \<Longrightarrow> b \<le> c \<Longrightarrow> a \<le> c"
    by (auto simp: less_eq_fit_key_def)
  show "a \<le> b \<Longrightarrow> b \<le> a \<Longrightarrow> a = b"
    by (auto simp: less_eq_fit_key_def intro: fit_key.expand)
  show "a \<le> b \<or> b \<le> a"
    by (auto simp: less_eq_fit_key_def)
qed

end

definition best_key :: "string \<times> int64 \<times> bool \<Rightarrow> fit_key" where
  "best_key b = FitKey (sint (fst (snd b))) (snd (snd b))"

text \<open>Both kinds of nodes as one list of named candidates, the in-flight flag with each.\<close>

definition fit_cand ::
  "resources \<Rightarrow> PodSchedulingConstraints option \<Rightarrow> bool \<times> string \<times> nodeEntry
   \<Rightarrow> (string \<times> int64 \<times> bool) option" where
  "fit_cand d c x = (case x of (infl, name, n) \<Rightarrow>
     if eligible n d c then Some (name, slack n d, infl) else None)"

definition tagged :: "NodeLedger \<Rightarrow> (bool \<times> string \<times> nodeEntry) list" where
  "tagged l = map (Pair False) (nodes l) @ map (Pair True) (inflight l)"

lemma sint_eq_iff: "sint (a :: int64) = sint b \<longleftrightarrow> a = b"
  by (auto intro: signed_word_eqI)

lemma check_fit_eq:
  "check_fit d c infl p b =
     (case fit_cand d c (infl, p) of
        None \<Rightarrow> b | Some y \<Rightarrow> if best_key y < best_key b then y else b)"
proof -
  obtain name n where p: "p = (name, n)" by (cases p)
  obtain bn bs bi where b: "b = (bn, bs, bi)" by (metis prod_cases3)
  show ?thesis
    by (auto simp: check_fit_def fit_cand_def eligible_def slack_loop_eq best_key_def
        less_fit_key_def sint_eq_iff p b)
qed

lemma FindFit_scan:
  "FindFit l d c =
     (case scan_min (fit_cand d c) best_key (tagged l) ('''', MaxInt64, False) of
        (name, _, infl) \<Rightarrow> if name = '''' then Inl errNoFit else Inr (name, infl))"
proof -
  have step: "check_fit d c infl = (\<lambda>p b. case fit_cand d c (infl, p) of
        None \<Rightarrow> b | Some y \<Rightarrow> if best_key y < best_key b then y else b)" for infl
    by (intro ext) (rule check_fit_eq)
  show ?thesis
    unfolding FindFit_def scan_min_def tagged_def fold_append fold_map comp_def step Let_def
    by (simp split: prod.splits)
qed

lemma check_existing_eq:
  "check_existing d c p b =
     (case (case p of (name, n) \<Rightarrow> if eligible n d c then Some (name, slack n d) else None) of
        None \<Rightarrow> b | Some y \<Rightarrow> if sint (snd y) < sint (snd b) then y else b)"
  by (auto simp: check_existing_def eligible_def slack_loop_eq split: prod.splits)

definition existing_cand ::
  "resources \<Rightarrow> PodSchedulingConstraints option \<Rightarrow> string \<times> nodeEntry \<Rightarrow> (string \<times> int64) option" where
  "existing_cand d c p = (case p of (name, n) \<Rightarrow>
     if eligible n d c then Some (name, slack n d) else None)"

lemma FindFitExisting_scan:
  "FindFitExisting l d c =
     (case scan_min (existing_cand d c) (\<lambda>b. sint (snd b)) (nodes l) ('''', MaxInt64) of
        (name, _) \<Rightarrow> if name = '''' then Inl errNoFit else Inr name)"
proof -
  have step: "check_existing d c = (\<lambda>p b. case existing_cand d c p of
        None \<Rightarrow> b | Some y \<Rightarrow> if sint (snd y) < sint (snd b) then y else b)"
    by (intro ext) (simp add: check_existing_eq existing_cand_def)
  show ?thesis
    unfolding FindFitExisting_def scan_min_def step Let_def ..
qed

lemma existing_cand_SomeD:
  "existing_cand d c p = Some r \<Longrightarrow> \<exists>n. p = (fst r, n) \<and> eligible n d c \<and> r = (fst r, slack n d)"
  by (auto simp: existing_cand_def split: prod.splits if_splits)

lemma fit_cand_SomeD:
  "fit_cand d c x = Some r \<Longrightarrow>
   \<exists>n. x = (snd (snd r), fst r, n) \<and> eligible n d c \<and> r = (fst r, slack n d, snd (snd r))"
  by (auto simp: fit_cand_def split: prod.splits if_splits)

text \<open>A success names an eligible existing node of least slack.\<close>

lemma FindFitExisting_sound:
  assumes "FindFitExisting l d c = Inr name"
  obtains n where "(name, n) \<in> set (nodes l)" and "eligible n d c" and "name \<noteq> ''''"
    and "\<And>name' n'. (name', n') \<in> set (nodes l) \<Longrightarrow> eligible n' d c
           \<Longrightarrow> sint (slack n d) \<le> sint (slack n' d)"
proof -
  let ?r = "scan_min (existing_cand d c) (\<lambda>b. sint (snd b)) (nodes l) ('''', MaxInt64)"
  have name: "fst ?r = name" "name \<noteq> ''''"
    using assms by (auto simp: FindFitExisting_scan split: prod.splits if_splits)
  then have "?r \<noteq> ('''', MaxInt64)"
    by (metis fst_conv)
  then obtain p where p: "p \<in> set (nodes l)" "existing_cand d c p = Some ?r"
    using scan_min_cases by metis
  then obtain n where n: "p = (name, n)" "eligible n d c" "?r = (name, slack n d)"
    using existing_cand_SomeD [OF p(2)] unfolding name(1) by blast
  have "sint (slack n d) \<le> sint (slack n' d)"
    if "(name', n') \<in> set (nodes l)" "eligible n' d c" for name' n'
  proof -
    have "existing_cand d c (name', n') = Some (name', slack n' d)"
      using that by (simp add: existing_cand_def)
    from scan_min_le [of "(name', n')" "nodes l" "existing_cand d c", OF that(1) this,
        of "\<lambda>b. sint (snd b)" "('''', MaxInt64)"] show ?thesis
      by (simp add: n(3))
  qed
  with p(1) n name(2) show thesis by (intro that) auto
qed

text \<open>A failure means that no node is eligible, but for a node of the largest representable slack.\<close>

lemma FindFitExisting_complete:
  assumes "FindFitExisting l d c = Inl e" and "'''' \<notin> fst ` set (nodes l)"
    and "(name, n) \<in> set (nodes l)" and "eligible n d c"
  shows "slack n d = MaxInt64"
proof -
  let ?r = "scan_min (existing_cand d c) (\<lambda>b. sint (snd b)) (nodes l) ('''', MaxInt64)"
  have "fst ?r = ''''"
    using assms(1) by (auto simp: FindFitExisting_scan split: prod.splits if_splits)
  then have "existing_cand d c p \<noteq> Some ?r" if "p \<in> set (nodes l)" for p
    using assms(2) that existing_cand_SomeD [of d c p ?r] by force
  then have start: "?r = ('''', MaxInt64)"
    using scan_min_cases by metis
  have "existing_cand d c (name, n) = Some (name, slack n d)"
    using assms(4) by (simp add: existing_cand_def)
  from scan_min_le [of "(name, n)" "nodes l" "existing_cand d c", OF assms(3) this,
      of "\<lambda>b. sint (snd b)" "('''', MaxInt64)"]
  have "sint MaxInt64 \<le> sint (slack n d)"
    by (simp add: start)
  then show ?thesis
    using sint_less_MaxInt64_iff [of "slack n d"] by simp
qed

definition entries_of :: "NodeLedger \<Rightarrow> bool \<Rightarrow> (string, nodeEntry) gmap" where
  "entries_of l infl = (if infl then inflight l else nodes l)"

lemma in_tagged: "(infl, p) \<in> set (tagged l) \<longleftrightarrow> p \<in> set (entries_of l infl)"
  by (auto simp: tagged_def entries_of_def)

lemma FindFit_sound:
  assumes "FindFit l d c = Inr (name, infl)"
  obtains n where "(name, n) \<in> set (entries_of l infl)" and "eligible n d c" and "name \<noteq> ''''"
    and "\<And>name' n' infl'. (name', n') \<in> set (entries_of l infl') \<Longrightarrow> eligible n' d c
           \<Longrightarrow> FitKey (sint (slack n d)) infl \<le> FitKey (sint (slack n' d)) infl'"
proof -
  let ?r = "scan_min (fit_cand d c) best_key (tagged l) ('''', MaxInt64, False)"
  have name: "fst ?r = name" "snd (snd ?r) = infl" "name \<noteq> ''''"
    using assms by (auto simp: FindFit_scan split: prod.splits if_splits)
  then have "?r \<noteq> ('''', MaxInt64, False)"
    by (metis fst_conv)
  then obtain x where x: "x \<in> set (tagged l)" "fit_cand d c x = Some ?r"
    using scan_min_cases by metis
  then obtain n where n: "x = (infl, name, n)" "eligible n d c" "?r = (name, slack n d, infl)"
    using fit_cand_SomeD [OF x(2)] unfolding name(1,2) by blast
  have "FitKey (sint (slack n d)) infl \<le> FitKey (sint (slack n' d)) infl'"
    if "(name', n') \<in> set (entries_of l infl')" "eligible n' d c" for name' n' infl'
  proof -
    have "(infl', name', n') \<in> set (tagged l)"
      using that(1) by (simp add: in_tagged)
    moreover have "fit_cand d c (infl', name', n') = Some (name', slack n' d, infl')"
      using that(2) by (simp add: fit_cand_def)
    ultimately have "best_key ?r \<le> best_key (name', slack n' d, infl')"
      by (rule scan_min_le)
    then show ?thesis
      by (simp add: n(3) best_key_def)
  qed
  with x(1) n name(3) show thesis by (intro that) (auto simp: in_tagged)
qed

lemma FindFit_complete:
  assumes "FindFit l d c = Inl e" and "'''' \<notin> fst ` set (entries_of l False)"
    and "'''' \<notin> fst ` set (entries_of l True)"
    and "(name, n) \<in> set (entries_of l infl)" and "eligible n d c"
  shows "slack n d = MaxInt64"
proof -
  let ?r = "scan_min (fit_cand d c) best_key (tagged l) ('''', MaxInt64, False)"
  have "fst ?r = ''''"
    using assms(1) by (auto simp: FindFit_scan split: prod.splits if_splits)
  moreover have "fst (snd x) \<noteq> ''''" if "x \<in> set (tagged l)" for x
    using that assms(2,3) by (auto simp: tagged_def entries_of_def image_iff)
  ultimately have "fit_cand d c x \<noteq> Some ?r" if "x \<in> set (tagged l)" for x
    using that fit_cand_SomeD [of d c x ?r] by force
  then have start: "?r = ('''', MaxInt64, False)"
    using scan_min_cases by metis
  have "(infl, name, n) \<in> set (tagged l)"
    using assms(4) by (simp add: in_tagged)
  moreover have "fit_cand d c (infl, name, n) = Some (name, slack n d, infl)"
    using assms(5) by (simp add: fit_cand_def)
  ultimately have "best_key ?r \<le> best_key (name, slack n d, infl)"
    by (rule scan_min_le)
  then have "sint MaxInt64 \<le> sint (slack n d)"
    unfolding start by (auto simp: best_key_def less_eq_fit_key_def)
  then show ?thesis
    using sint_less_MaxInt64_iff [of "slack n d"] by simp
qed

section \<open>Reservations\<close>

lemma map_of_add_reserved:
  "wf_gmap d \<Longrightarrow>
   map_of (add_reserved d r) k =
     (case map_of d k of None \<Rightarrow> map_of r k | Some q \<Rightarrow> Some (qget r k + q))"
proof (induction d arbitrary: r)
  case Nil
  then show ?case by (simp add: add_reserved_def)
next
  case (Cons p d)
  obtain res qty where p: "p = (res, qty)" by (cases p)
  have fresh: "map_of d res = None" and wf: "wf_gmap d"
    using Cons.prems by (auto simp: p wf_gmap_Cons map_of_eq_None_iff)
  have "add_reserved (p # d) r = add_reserved d (mput res (qget r res + qty) r)"
    by (simp add: add_reserved_def p)
  with fresh show ?case
    by (auto simp: p Cons.IH [OF wf] map_of_mput split: option.splits)
qed

lemma qget_add_reserved: "wf_gmap d \<Longrightarrow> qget (add_reserved d r) k = qget r k + qget d k"
  by (simp add: mget_def map_of_add_reserved split: option.splits)

lemma wf_add_reserved [intro]: "wf_gmap r \<Longrightarrow> wf_gmap (add_reserved d r)"
  unfolding add_reserved_def by (induction d arbitrary: r) auto

lemma map_of_sub_reserved:
  "wf_gmap d \<Longrightarrow>
   map_of (sub_reserved d r) k =
     (case map_of d k of None \<Rightarrow> map_of r k
      | Some q \<Rightarrow> Some (if sint (qget r k - q) < 0 then 0 else qget r k - q))"
proof (induction d arbitrary: r)
  case Nil
  then show ?case by (simp add: sub_reserved_def)
next
  case (Cons p d)
  obtain res qty where p: "p = (res, qty)" by (cases p)
  have fresh: "map_of d res = None" and wf: "wf_gmap d"
    using Cons.prems by (auto simp: p wf_gmap_Cons map_of_eq_None_iff)
  let ?r1 = "mput res (qget r res - qty) r"
  have "sub_reserved (p # d) r =
      sub_reserved d (if sint (qget r res - qty) < 0 then mput res 0 ?r1 else ?r1)"
    by (simp add: sub_reserved_def p Let_def)
  with fresh show ?case
    by (auto simp: p Cons.IH [OF wf] map_of_mput split: option.splits)
qed

lemma findEntry_withEntry:
  "findEntry (withEntry l name f) name' =
     (if name' = name then map_option f (findEntry l name) else findEntry l name')"
  by (auto simp: findEntry_def withEntry_def map_of_madj split: option.splits)

lemma Reserve_Inr_iff:
  "Reserve l name d = Inr l' \<longleftrightarrow>
     (\<exists>n. findEntry l name = Some n \<and> demand_fits n d \<and>
        l' = withEntry l name (\<lambda>n. n\<lparr>reserved := add_reserved d (reserved n)\<rparr>))"
  by (auto simp: Reserve_def split: option.splits)

lemma available_reserved_update:
  "wf_gmap d \<Longrightarrow> available (n\<lparr>reserved := add_reserved d (reserved n)\<rparr>) k = available n k - qget d k"
  by (simp add: available_def qget_add_reserved)

section \<open>The invariant\<close>

text \<open>
  Amounts are non-negative and at most \<open>2 ^ 61\<close> (two petabytes of memory in milli-bytes), so that
  allocatable minus used minus reserved is computed without wrap-around. Names are not empty, and
  no name is both an existing and an in-flight node: the controller prefixes the latter with the
  profile name and a slash, which no node name contains.
\<close>

definition amount_ok :: "int64 \<Rightarrow> bool" where
  "amount_ok v \<longleftrightarrow> 0 \<le> sint v \<and> sint v \<le> 2 ^ 61"

definition amounts_ok :: "resources \<Rightarrow> bool" where
  "amounts_ok m \<longleftrightarrow> wf_gmap m \<and> list_all (\<lambda>(_, v). amount_ok v) m"

definition entry_ok :: "nodeEntry \<Rightarrow> bool" where
  "entry_ok n \<longleftrightarrow> amounts_ok (allocatable n) \<and> amounts_ok (used n) \<and> amounts_ok (reserved n)"

definition nodes_ok :: "(string, nodeEntry) gmap \<Rightarrow> bool" where
  "nodes_ok m \<longleftrightarrow> wf_gmap m \<and> list_all (\<lambda>(k, n). k \<noteq> '''' \<and> entry_ok n) m"

definition ledger_ok :: "NodeLedger \<Rightarrow> bool" where
  "ledger_ok l \<longleftrightarrow> nodes_ok (nodes l) \<and> nodes_ok (inflight l) \<and>
     list_all (\<lambda>(k, _). map_of (inflight l) k = None) (nodes l)"

lemma amounts_ok_iff:
  "amounts_ok m \<longleftrightarrow> wf_gmap m \<and> (\<forall>k v. map_of m k = Some v \<longrightarrow> amount_ok v)"
  unfolding amounts_ok_def using list_all_lookup [of m "\<lambda>(_, v). amount_ok v"] by auto

lemma nodes_ok_iff:
  "nodes_ok m \<longleftrightarrow> wf_gmap m \<and> (\<forall>k n. map_of m k = Some n \<longrightarrow> k \<noteq> '''' \<and> entry_ok n)"
  unfolding nodes_ok_def using list_all_lookup [of m "\<lambda>(k, n). k \<noteq> '''' \<and> entry_ok n"] by auto

lemma all_Some_imp: "(\<forall>v. x = Some v \<longrightarrow> P) \<longleftrightarrow> x = None \<or> P"
  by (cases x) auto

lemma ledger_ok_iff:
  "ledger_ok l \<longleftrightarrow> nodes_ok (nodes l) \<and> nodes_ok (inflight l) \<and>
     (\<forall>k. map_of (nodes l) k = None \<or> map_of (inflight l) k = None)"
proof (cases "wf_gmap (nodes l)")
  case True
  have "list_all (\<lambda>(k, _). map_of (inflight l) k = None) (nodes l) \<longleftrightarrow>
      (\<forall>k. map_of (nodes l) k = None \<or> map_of (inflight l) k = None)"
    unfolding list_all_lookup [OF True] prod.case all_Some_imp ..
  then show ?thesis
    by (simp only: ledger_ok_def)
next
  case False
  then show ?thesis by (simp add: ledger_ok_def nodes_ok_def)
qed

lemma amount_ok_0 [simp]: "amount_ok 0"
  by (simp add: amount_ok_def)

lemma amounts_ok_Nil [simp]: "amounts_ok []"
  by (simp add: amounts_ok_def)

lemma amounts_ok_copyMap [simp]: "amounts_ok m \<Longrightarrow> amounts_ok (copyMap m)"
  by (simp add: copyMap_def amounts_ok_def)

lemma amounts_ok_qget: "amounts_ok m \<Longrightarrow> amount_ok (qget m k)"
  by (auto simp: amounts_ok_iff mget_def split: option.splits)

lemma nodes_ok_Nil [simp]: "nodes_ok []"
  by (simp add: nodes_ok_def)

lemma nodes_ok_mput: "nodes_ok m \<Longrightarrow> name \<noteq> '''' \<Longrightarrow> entry_ok n \<Longrightarrow> nodes_ok (mput name n m)"
  by (auto simp: nodes_ok_iff map_of_mput)

lemma nodes_ok_mdel: "nodes_ok m \<Longrightarrow> nodes_ok (mdel name m)"
  by (auto simp: nodes_ok_iff map_of_mdel)

lemma nodes_ok_madj:
  "nodes_ok m \<Longrightarrow> (\<And>n. map_of m name = Some n \<Longrightarrow> entry_ok n \<Longrightarrow> entry_ok (f n))
   \<Longrightarrow> nodes_ok (madj name f m)"
  by (auto simp: nodes_ok_iff map_of_madj split: if_splits)

lemma nodes_ok_filter: "nodes_ok m \<Longrightarrow> nodes_ok (filter P m)"
  by (auto simp: nodes_ok_def wf_gmap_filter list_all_iff)

lemma findEntry_ok: "ledger_ok l \<Longrightarrow> findEntry l name = Some n \<Longrightarrow> entry_ok n \<and> name \<noteq> ''''"
  by (auto simp: ledger_ok_iff nodes_ok_iff findEntry_def split: option.splits)

lemma ledger_ok_withEntry:
  assumes "ledger_ok l" and "\<And>n. findEntry l name = Some n \<Longrightarrow> entry_ok n \<Longrightarrow> entry_ok (f n)"
  shows "ledger_ok (withEntry l name f)"
proof (cases "map_of (nodes l) name")
  case None
  then have "nodes_ok (madj name f (inflight l))"
    using assms by (intro nodes_ok_madj) (auto simp: ledger_ok_iff findEntry_def)
  with None assms(1) show ?thesis
    by (auto simp: ledger_ok_iff withEntry_def map_of_madj)
next
  case (Some n)
  then have "nodes_ok (madj name f (nodes l))"
    using assms by (intro nodes_ok_madj) (auto simp: ledger_ok_iff findEntry_def)
  moreover have "map_of (nodes l) name = None \<or> map_of (inflight l) name = None"
    using assms(1) by (simp only: ledger_ok_iff)
  ultimately show ?thesis
    using Some assms(1) by (auto simp: ledger_ok_iff withEntry_def map_of_madj)
qed

text \<open>Under the invariant the free amount is computed exactly.\<close>

lemma sint_available:
  assumes "entry_ok n"
  shows "sint (available n k) =
    sint (qget (allocatable n) k) - sint (qget (used n) k) - sint (qget (reserved n) k)"
proof -
  have a: "amount_ok (qget (allocatable n) k)" "amount_ok (qget (used n) k)"
    "amount_ok (qget (reserved n) k)"
    using assms by (auto simp: entry_ok_def intro: amounts_ok_qget)
  have "sint (qget (allocatable n) k - qget (used n) k) =
      sint (qget (allocatable n) k) - sint (qget (used n) k)"
    using a by (intro sint_diff_exact) (simp add: amount_ok_def in_int64_def)
  then show ?thesis
    unfolding available_def using a
    by (subst sint_diff_exact) (simp_all add: amount_ok_def in_int64_def)
qed

text \<open>A reservation that fits stays within the allocatable amount, so the invariant is kept.\<close>

lemma entry_ok_reserve:
  assumes "entry_ok n" and "amounts_ok d" and "demand_fits n d"
  shows "entry_ok (n\<lparr>reserved := add_reserved d (reserved n)\<rparr>)"
proof -
  have wf: "wf_gmap d" and wfr: "wf_gmap (reserved n)"
    using assms(1,2) by (auto simp: amounts_ok_def entry_ok_def)
  have new: "amount_ok (qget (reserved n) k + q)" if "map_of d k = Some q" for k q
  proof -
    have q: "amount_ok q" "sint q \<le> sint (available n k)"
      using that assms(2,3) wf by (auto simp: amounts_ok_iff demand_fits_iff wf_gmap_lookup [symmetric])
    have r: "amount_ok (qget (reserved n) k)" "amount_ok (qget (allocatable n) k)"
      "amount_ok (qget (used n) k)"
      using assms(1) by (auto simp: entry_ok_def intro: amounts_ok_qget)
    have "sint (qget (reserved n) k + q) = sint (qget (reserved n) k) + sint q"
      using q r by (intro sint_add_exact) (simp add: amount_ok_def in_int64_def)
    then show ?thesis
      using q r sint_available [OF assms(1), of k] by (simp add: amount_ok_def)
  qed
  have "amounts_ok (add_reserved d (reserved n))"
    using assms(1) new wfr
    by (auto simp: amounts_ok_iff map_of_add_reserved [OF wf] entry_ok_def split: option.splits)
  with assms(1) show ?thesis by (simp add: entry_ok_def)
qed

lemma Reserve_ok:
  assumes "ledger_ok l" and "amounts_ok d" and "Reserve l name d = Inr l'"
  shows "ledger_ok l'"
proof -
  from assms(3) obtain n where "findEntry l name = Some n" and fits: "demand_fits n d"
    and l': "l' = withEntry l name (\<lambda>n. n\<lparr>reserved := add_reserved d (reserved n)\<rparr>)"
    by (auto simp: Reserve_Inr_iff)
  with assms(1,2) show ?thesis
    unfolding l' by (intro ledger_ok_withEntry) (auto intro: entry_ok_reserve)
qed

definition room :: "NodeLedger \<Rightarrow> string \<Rightarrow> string \<Rightarrow> int" where
  "room l name res = (case findEntry l name of None \<Rightarrow> 0 | Some n \<Rightarrow> sint (available n res))"

lemma Reserve_room:
  assumes "ledger_ok l" and "amounts_ok d" and "Reserve l name d = Inr l'"
  shows "room l' name' k = room l name' k - (if name' = name then sint (qget d k) else 0)"
proof -
  from assms(3) obtain n where n: "findEntry l name = Some n" and fits: "demand_fits n d"
    and l': "l' = withEntry l name (\<lambda>n. n\<lparr>reserved := add_reserved d (reserved n)\<rparr>)"
    by (auto simp: Reserve_Inr_iff)
  show ?thesis
  proof (cases "name' = name")
    case False
    then show ?thesis by (simp add: room_def l' findEntry_withEntry)
  next
    case True
    have ok: "entry_ok n"
      using assms(1) n findEntry_ok by blast
    have wf: "wf_gmap d"
      using assms(2) by (simp add: amounts_ok_def)
    have q: "amount_ok (qget d k)"
      using assms(2) by (rule amounts_ok_qget)
    have bounds: "amount_ok (qget (allocatable n) k)" "amount_ok (qget (used n) k)"
      "amount_ok (qget (reserved n) k)"
      using ok by (auto simp: entry_ok_def intro: amounts_ok_qget)
    have "sint (available n k - qget d k) = sint (available n k) - sint (qget d k)"
      using q bounds sint_available [OF ok, of k]
      by (intro sint_diff_exact) (simp add: amount_ok_def in_int64_def)
    then show ?thesis
      by (simp add: True room_def l' findEntry_withEntry n available_reserved_update [OF wf])
  qed
qed

end
