(* ===== verification/Capacity.thy ===== *)
theory Capacity
  imports Ledger
begin

text \<open>
  What the ledger promises to its clients.

  The locale \<open>capacity_book\<close> states the contract between a search for a node and the booking of
  capacity on it; inside it, placing any sequence of demands is shown never to give away more
  than was free. Both searches of the ledger with \<open>Reserve\<close> are instances of the contract. The
  second half treats the life of a ledger: the operations keep the invariant (\<open>ledger_reach\<close>), a
  reservation is undone by its release, reservations survive the rebuild of the ledger, and the
  entries of one profile can be cleared without touching those of another.
\<close>

section \<open>The contract\<close>

text \<open>Placing demands one after the other, skipping those that pick no node.\<close>

fun place_all ::
  "('l \<Rightarrow> resources \<Rightarrow> 'c \<Rightarrow> string option) \<Rightarrow> ('l \<Rightarrow> string \<Rightarrow> resources \<Rightarrow> 'l option)
   \<Rightarrow> 'l \<Rightarrow> (resources \<times> 'c) list \<Rightarrow> 'l \<times> (string \<times> resources) list" where
  "place_all pick book l [] = (l, [])"
| "place_all pick book l ((d, c) # ps) =
     (case pick l d c of
        None \<Rightarrow> place_all pick book l ps
      | Some n \<Rightarrow>
          (case book l n d of
             None \<Rightarrow> place_all pick book l ps
           | Some l' \<Rightarrow> apsnd (Cons (n, d)) (place_all pick book l' ps)))"

definition booked :: "(string \<times> resources) list \<Rightarrow> string \<Rightarrow> string \<Rightarrow> int" where
  "booked as n k = (\<Sum>(n', d)\<leftarrow>as. if n' = n then sint (qget d k) else 0)"

locale capacity_book =
  fixes pick :: "'l \<Rightarrow> resources \<Rightarrow> 'c \<Rightarrow> string option"
    and book :: "'l \<Rightarrow> string \<Rightarrow> resources \<Rightarrow> 'l option"
    and free :: "'l \<Rightarrow> string \<Rightarrow> string \<Rightarrow> int"
    and ok :: "'l \<Rightarrow> bool"
  assumes pick_book: "ok l \<Longrightarrow> pick l d c = Some n \<Longrightarrow> \<exists>l'. book l n d = Some l'"
    and book_fits: "ok l \<Longrightarrow> amounts_ok d \<Longrightarrow> book l n d = Some l' \<Longrightarrow> 0 \<le> free l n k
          \<Longrightarrow> sint (qget d k) \<le> free l n k"
    and book_free: "ok l \<Longrightarrow> amounts_ok d \<Longrightarrow> book l n d = Some l'
          \<Longrightarrow> free l' n' k = free l n' k - (if n' = n then sint (qget d k) else 0)"
    and ok_book: "ok l \<Longrightarrow> amounts_ok d \<Longrightarrow> book l n d = Some l' \<Longrightarrow> ok l'"
begin

lemma book_free_nonneg:
  assumes "ok l" and "amounts_ok d" and "book l n d = Some l'" and "0 \<le> free l n' k"
  shows "0 \<le> free l' n' k"
  using book_free [OF assms(1-3), of n' k] book_fits [OF assms(1-3), of k] assms(4) by auto

text \<open>The account of a sequence: what was free is what is still free plus what was booked.\<close>

lemma place_all_account:
  "ok l \<Longrightarrow> list_all (\<lambda>(d, c). amounts_ok d) ps \<Longrightarrow> place_all pick book l ps = (l', as)
   \<Longrightarrow> ok l' \<and> free l n k = free l' n k + booked as n k \<and> (0 \<le> free l n k \<longrightarrow> 0 \<le> free l' n k)"
proof (induction ps arbitrary: l as)
  case Nil
  then show ?case by (simp add: booked_def)
next
  case (Cons p ps)
  obtain d c where p: "p = (d, c)" by (cases p)
  have good: "amounts_ok d" "list_all (\<lambda>(d, c). amounts_ok d) ps"
    using Cons.prems(2) by (simp_all add: p)
  show ?case
  proof (cases "pick l d c")
    case None
    with Cons good show ?thesis by (simp add: p)
  next
    case (Some m)
    then obtain l1 where l1: "book l m d = Some l1"
      using pick_book Cons.prems(1) by blast
    obtain as' where as': "place_all pick book l1 ps = (l', as')" "as = (m, d) # as'"
      using Cons.prems(3) Some l1 by (cases "place_all pick book l1 ps") (auto simp: p)
    have "ok l1"
      using ok_book Cons.prems(1) good(1) l1 by blast
    then have IH: "ok l' \<and> free l1 n k = free l' n k + booked as' n k
        \<and> (0 \<le> free l1 n k \<longrightarrow> 0 \<le> free l' n k)"
      using good(2) as'(1) by (rule Cons.IH)
    then show ?thesis
      using book_free [OF Cons.prems(1) good(1) l1, of n k]
        book_free_nonneg [OF Cons.prems(1) good(1) l1, of n k]
      by (auto simp: as'(2) booked_def)
  qed
qed

lemma place_all_no_oversubscription:
  assumes "ok l" and "list_all (\<lambda>(d, c). amounts_ok d) ps"
    and "place_all pick book l ps = (l', as)" and "0 \<le> free l n k"
  shows "booked as n k \<le> free l n k"
  using place_all_account [OF assms(1-3), of n k] assms(4) by simp

end

section \<open>The ledger is an instance\<close>

lemma lookup_existing: "ledger_ok l \<Longrightarrow> (name, n) \<in> set (nodes l) \<Longrightarrow> findEntry l name = Some n"
  by (simp add: ledger_ok_iff nodes_ok_iff findEntry_def wf_gmap_lookup)

lemma lookup_inflight:
  assumes "ledger_ok l" and "(name, n) \<in> set (inflight l)"
  shows "findEntry l name = Some n"
proof -
  have "map_of (inflight l) name = Some n"
    using assms by (simp add: ledger_ok_iff nodes_ok_iff wf_gmap_lookup)
  moreover from this have "map_of (nodes l) name = None"
    using assms(1) by (metis ledger_ok_iff option.distinct(1))
  ultimately show ?thesis by (simp add: findEntry_def)
qed

lemma lookup_entries_of:
  "ledger_ok l \<Longrightarrow> (name, n) \<in> set (entries_of l infl) \<Longrightarrow> findEntry l name = Some n"
  by (auto simp: entries_of_def lookup_existing lookup_inflight split: if_splits)

lemma Reserve_succeeds:
  "findEntry l name = Some n \<Longrightarrow> eligible n d c \<Longrightarrow> \<exists>l'. Reserve l name d = Inr l'"
  by (auto simp: Reserve_def eligible_def)

lemma Reserve_fits_room:
  assumes "ledger_ok l" and "amounts_ok d" and "Reserve l name d = Inr l'" and "0 \<le> room l name k"
  shows "sint (qget d k) \<le> room l name k"
proof -
  obtain n where n: "findEntry l name = Some n" and fits: "demand_fits n d"
    using assms(3) by (auto simp: Reserve_Inr_iff)
  show ?thesis
  proof (cases "map_of d k")
    case None
    with assms(4) show ?thesis by (simp add: mget_None)
  next
    case (Some q)
    then have "(k, q) \<in> set d"
      using assms(2) by (simp add: amounts_ok_def wf_gmap_lookup)
    with Some n fits show ?thesis
      by (simp add: room_def mget_Some demand_fitsD)
  qed
qed

interpretation existing: capacity_book
  "\<lambda>l d c. ok_opt (FindFitExisting l d c)" "\<lambda>l n d. ok_opt (Reserve l n d)" room ledger_ok
proof unfold_locales
  fix l d c n
  assume ok: "ledger_ok l" and "ok_opt (FindFitExisting l d c) = Some n"
  then obtain e where "(n, e) \<in> set (nodes l)" and el: "eligible e d c"
    by (auto elim!: FindFitExisting_sound)
  then have "findEntry l n = Some e"
    using ok by (simp add: lookup_existing)
  then show "\<exists>l'. ok_opt (Reserve l n d) = Some l'"
    using Reserve_succeeds el by simp
qed (auto intro: Reserve_fits_room Reserve_ok simp: Reserve_room)

interpretation anynode: capacity_book
  "\<lambda>l d c. map_option fst (ok_opt (FindFit l d c))" "\<lambda>l n d. ok_opt (Reserve l n d)" room ledger_ok
proof unfold_locales
  fix l d c n
  assume ok: "ledger_ok l" and "map_option fst (ok_opt (FindFit l d c)) = Some n"
  then obtain infl where "FindFit l d c = Inr (n, infl)"
    by (auto simp: map_option_case split: option.splits)
  then obtain e where "(n, e) \<in> set (entries_of l infl)" and el: "eligible e d c"
    by (auto elim!: FindFit_sound)
  then have "findEntry l n = Some e"
    using ok by (simp add: lookup_entries_of)
  then show "\<exists>l'. ok_opt (Reserve l n d) = Some l'"
    using Reserve_succeeds el by simp
qed (auto intro: Reserve_fits_room Reserve_ok simp: Reserve_room)

section \<open>The life of a ledger\<close>

lemma ClearInflightByPrefix_filter:
  "inflight (ClearInflightByPrefix l pre) = filter (\<lambda>p. \<not> HasPrefix (fst p) pre) (inflight l)"
proof -
  have "fold (\<lambda>(name, _) m. if HasPrefix name pre then mdel name m else m) xs m
      = filter (\<lambda>p. \<not> (HasPrefix (fst p) pre \<and> fst p \<in> fst ` set xs)) m"
    for xs m :: "(string, nodeEntry) gmap"
  proof (induction xs arbitrary: m)
    case Nil
    then show ?case by simp
  next
    case (Cons x xs)
    have "mdel (fst x) m = filter (\<lambda>p. fst p \<noteq> fst x) m"
      by (auto simp: mdel_def AList.delete_eq intro: filter_cong)
    then show ?case
      by (cases x) (auto simp: Cons.IH intro!: filter_cong)
  qed
  then show ?thesis
    by (auto simp: ClearInflightByPrefix_def intro!: filter_cong)
qed

lemma ClearInflightByPrefix_nodes [simp]: "nodes (ClearInflightByPrefix l pre) = nodes l"
  by (simp add: ClearInflightByPrefix_def)

lemma map_of_ClearInflightByPrefix:
  "map_of (inflight (ClearInflightByPrefix l pre)) k =
     (if HasPrefix k pre then None else map_of (inflight l) k)"
  by (simp add: ClearInflightByPrefix_filter filter_fst_map_of [of "\<lambda>k. \<not> HasPrefix k pre"])

lemma entry_ok_fresh:
  "amounts_ok a \<Longrightarrow> entry_ok \<lparr>allocatable = copyMap a, used = [], reserved = [], ne_labels = s, ne_taints = t\<rparr>"
  by (simp add: entry_ok_def)

lemma wf_gmap_fold: "(\<And>x r. wf_gmap r \<Longrightarrow> wf_gmap (f x r)) \<Longrightarrow> wf_gmap r \<Longrightarrow> wf_gmap (fold f xs r)"
  by (induction xs arbitrary: r) simp_all

lemma wf_sub_reserved: "wf_gmap r \<Longrightarrow> wf_gmap (sub_reserved d r)"
  unfolding sub_reserved_def by (rule wf_gmap_fold) (simp_all add: Let_def split: prod.split)

lemma amounts_ok_sub_reserved:
  assumes "amounts_ok r" and "amounts_ok d"
  shows "amounts_ok (sub_reserved d r)"
proof -
  have wf: "wf_gmap (sub_reserved d r)"
    using assms(1) by (intro wf_sub_reserved) (simp add: amounts_ok_def)
  have "amount_ok (if sint (qget r k - q) < 0 then 0 else qget r k - q)"
    if "map_of d k = Some q" for k q
  proof -
    have q: "amount_ok q"
      using that assms(2) by (simp add: amounts_ok_iff)
    have r: "amount_ok (qget r k)"
      using assms(1) by (rule amounts_ok_qget)
    have "sint (qget r k - q) = sint (qget r k) - sint q"
      using q r by (intro sint_diff_exact) (simp add: amount_ok_def in_int64_def)
    with q r show ?thesis by (simp add: amount_ok_def)
  qed
  with wf assms show ?thesis
    by (auto simp: amounts_ok_iff map_of_sub_reserved split: option.splits)
qed

lemma ReleaseReservation_ok:
  assumes "ledger_ok l" and "amounts_ok d"
  shows "ledger_ok (ReleaseReservation l name d)"
proof (cases "findEntry l name")
  case None
  with assms(1) show ?thesis by (simp add: ReleaseReservation_def)
next
  case (Some n)
  have "ledger_ok (withEntry l name (\<lambda>n. n\<lparr>reserved := sub_reserved d (reserved n)\<rparr>))"
    using assms(1) by (rule ledger_ok_withEntry)
      (use assms(2) in \<open>simp add: entry_ok_def amounts_ok_sub_reserved\<close>)
  with Some show ?thesis by (simp add: ReleaseReservation_def)
qed

lemma UpdateUsage_ok: "ledger_ok l \<Longrightarrow> amounts_ok u \<Longrightarrow> ledger_ok (UpdateUsage l name u)"
proof (cases "map_of (nodes l) name")
  case None
  assume "ledger_ok l"
  with None show ?thesis by (simp add: UpdateUsage_def)
next
  case (Some n)
  assume l: "ledger_ok l" and u: "amounts_ok u"
  have "ledger_ok (withEntry l name (\<lambda>n. n\<lparr>used := copyMap u\<rparr>))"
    using l by (rule ledger_ok_withEntry) (use u in \<open>simp add: entry_ok_def\<close>)
  with Some show ?thesis by (simp add: UpdateUsage_def withEntry_def)
qed

lemma restore_one_eq:
  "restore_one name res l =
     l\<lparr>nodes := madj name (\<lambda>n. n\<lparr>reserved := copyMap res\<rparr>) (nodes l),
       inflight := madj name (\<lambda>n. n\<lparr>reserved := copyMap res\<rparr>) (inflight l)\<rparr>"
proof -
  have id: "madj name f m = m" if "map_of m name = None" for f and m :: "(string, nodeEntry) gmap"
    using that unfolding madj_def by (intro map_idI) (force simp: map_of_eq_None_iff)
  show ?thesis
    by (auto simp: restore_one_def Let_def id split: option.splits)
qed

lemma restore_one_ok:
  "ledger_ok l \<Longrightarrow> amounts_ok res \<Longrightarrow> ledger_ok (restore_one name res l)"
  unfolding restore_one_eq ledger_ok_iff
  by (auto simp: map_of_madj entry_ok_def intro!: nodes_ok_madj)

lemma RestoreReservations_ok:
  "ledger_ok l \<Longrightarrow> list_all (\<lambda>(_, r). amounts_ok r) snap \<Longrightarrow> ledger_ok (RestoreReservations l snap)"
  unfolding RestoreReservations_def
  by (induction snap arbitrary: l) (auto simp: restore_one_ok)

text \<open>
  The ledgers that the operations produce when node names are not empty, no name is both a node and in flight, and amounts are
  in range. The operations do not check this, and a negative demand does reach \<open>Reserve\<close>.
\<close>

inductive ledger_reach :: "NodeLedger \<Rightarrow> bool" where
  reach_new: "ledger_reach New"
| reach_add: "ledger_reach l \<Longrightarrow> name \<noteq> '''' \<Longrightarrow> map_of (inflight l) name = None \<Longrightarrow> amounts_ok a
    \<Longrightarrow> ledger_reach (AddNode l name a labels taints)"
| reach_add_inflight: "ledger_reach l \<Longrightarrow> name \<noteq> '''' \<Longrightarrow> map_of (nodes l) name = None \<Longrightarrow> amounts_ok a
    \<Longrightarrow> ledger_reach (AddInflightNode l name a labels taints)"
| reach_clear: "ledger_reach l \<Longrightarrow> ledger_reach (ClearNodes l)"
| reach_clear_inflight: "ledger_reach l \<Longrightarrow> ledger_reach (ClearInflight l)"
| reach_clear_prefix: "ledger_reach l \<Longrightarrow> ledger_reach (ClearInflightByPrefix l pre)"
| reach_remove: "ledger_reach l \<Longrightarrow> ledger_reach (RemoveNode l name)"
| reach_remove_inflight: "ledger_reach l \<Longrightarrow> ledger_reach (RemoveInflightNode l name)"
| reach_usage: "ledger_reach l \<Longrightarrow> amounts_ok u \<Longrightarrow> ledger_reach (UpdateUsage l name u)"
| reach_reserve: "ledger_reach l \<Longrightarrow> amounts_ok d \<Longrightarrow> Reserve l name d = Inr l' \<Longrightarrow> ledger_reach l'"
| reach_release: "ledger_reach l \<Longrightarrow> amounts_ok d \<Longrightarrow> ledger_reach (ReleaseReservation l name d)"
| reach_restore: "ledger_reach l \<Longrightarrow> list_all (\<lambda>(_, r). amounts_ok r) snap
    \<Longrightarrow> ledger_reach (RestoreReservations l snap)"

lemma New_ok: "ledger_ok New"
  by (simp add: New_def ledger_ok_def)

lemma AddNode_ok:
  "ledger_ok l \<Longrightarrow> name \<noteq> '''' \<Longrightarrow> map_of (inflight l) name = None \<Longrightarrow> amounts_ok a
   \<Longrightarrow> ledger_ok (AddNode l name a labels taints)"
  by (auto simp: AddNode_def ledger_ok_iff map_of_mput entry_ok_fresh intro!: nodes_ok_mput)

lemma AddInflightNode_ok:
  "ledger_ok l \<Longrightarrow> name \<noteq> '''' \<Longrightarrow> map_of (nodes l) name = None \<Longrightarrow> amounts_ok a
   \<Longrightarrow> ledger_ok (AddInflightNode l name a labels taints)"
  by (auto simp: AddInflightNode_def ledger_ok_iff map_of_mput entry_ok_fresh intro!: nodes_ok_mput)

lemma ClearNodes_ok: "ledger_ok l \<Longrightarrow> ledger_ok (ClearNodes l)"
  by (simp add: ClearNodes_def ledger_ok_iff)

lemma ClearInflight_ok: "ledger_ok l \<Longrightarrow> ledger_ok (ClearInflight l)"
  by (simp add: ClearInflight_def ledger_ok_iff)

lemma ClearInflightByPrefix_ok: "ledger_ok l \<Longrightarrow> ledger_ok (ClearInflightByPrefix l pre)"
  unfolding ledger_ok_iff map_of_ClearInflightByPrefix
  by (auto simp: ClearInflightByPrefix_filter nodes_ok_filter)

lemma RemoveNode_ok: "ledger_ok l \<Longrightarrow> ledger_ok (RemoveNode l name)"
  by (auto simp: RemoveNode_def ledger_ok_iff map_of_mdel nodes_ok_mdel)

lemma RemoveInflightNode_ok: "ledger_ok l \<Longrightarrow> ledger_ok (RemoveInflightNode l name)"
  by (auto simp: RemoveInflightNode_def ledger_ok_iff map_of_mdel nodes_ok_mdel)

lemmas ledger_ok_intros =
  New_ok AddNode_ok AddInflightNode_ok ClearNodes_ok ClearInflight_ok ClearInflightByPrefix_ok
  RemoveNode_ok RemoveInflightNode_ok UpdateUsage_ok Reserve_ok ReleaseReservation_ok
  RestoreReservations_ok

lemma ledger_reach_ok: "ledger_reach l \<Longrightarrow> ledger_ok l"
  by (induction rule: ledger_reach.induct) (auto intro: ledger_ok_intros)

section \<open>Rebuilding the ledger\<close>

lemma map_of_snapshot_loop:
  "wf_gmap m \<Longrightarrow>
   map_of (snapshot_loop m s) k =
     (case map_of m k of
        None \<Rightarrow> map_of s k
      | Some n \<Rightarrow> if reserved n \<noteq> [] then Some (copyMap (reserved n)) else map_of s k)"
proof (induction m arbitrary: s)
  case Nil
  then show ?case by (simp add: snapshot_loop_def)
next
  case (Cons p m)
  obtain name n where p: "p = (name, n)" by (cases p)
  have fresh: "map_of m name = None" and wf: "wf_gmap m"
    using Cons.prems by (auto simp: p wf_gmap_Cons map_of_eq_None_iff)
  let ?s1 = "if reserved n \<noteq> [] then mput name (copyMap (reserved n)) s else s"
  have "snapshot_loop (p # m) s = snapshot_loop m ?s1"
    by (simp add: snapshot_loop_def p)
  with fresh show ?case
    by (auto simp: p Cons.IH [OF wf] map_of_mput split: option.splits)
qed

lemma wf_snapshot_loop: "wf_gmap s \<Longrightarrow> wf_gmap (snapshot_loop m s)"
  unfolding snapshot_loop_def by (induction m arbitrary: s) auto

lemma wf_SnapshotReservations: "wf_gmap (SnapshotReservations l)"
  by (simp add: SnapshotReservations_def wf_snapshot_loop)

lemma map_of_SnapshotReservations:
  assumes "ledger_ok l"
  shows "map_of (SnapshotReservations l) k =
    (case findEntry l k of
       None \<Rightarrow> None
     | Some n \<Rightarrow> if reserved n \<noteq> [] then Some (reserved n) else None)"
proof -
  have wf: "wf_gmap (nodes l)" "wf_gmap (inflight l)"
    and one: "map_of (nodes l) k = None \<or> map_of (inflight l) k = None"
    using assms by (auto simp only: ledger_ok_iff nodes_ok_iff)
  have copy: "copyMap (reserved n) = reserved n" if "findEntry l k = Some n" for n
    using findEntry_ok [OF assms that] by (simp add: copyMap_def entry_ok_def amounts_ok_def)
  show ?thesis
    using one copy unfolding SnapshotReservations_def findEntry_def
    by (auto simp: map_of_snapshot_loop wf split: option.splits)
qed

lemma SnapshotReservations_ok:
  assumes "ledger_ok l"
  shows "list_all (\<lambda>(_, r). amounts_ok r) (SnapshotReservations l)"
proof -
  have "amounts_ok r" if "map_of (SnapshotReservations l) k = Some r" for k r
    using that findEntry_ok [OF assms, of k]
    by (auto simp: map_of_SnapshotReservations [OF assms] entry_ok_def split: option.splits if_splits)
  then show ?thesis
    by (auto simp: list_all_lookup wf_SnapshotReservations)
qed

definition with_reserved :: "resources option \<Rightarrow> nodeEntry \<Rightarrow> nodeEntry" where
  "with_reserved r n = (case r of None \<Rightarrow> n | Some r' \<Rightarrow> n\<lparr>reserved := copyMap r'\<rparr>)"

lemma RestoreReservations_Cons [simp]:
  "RestoreReservations l ((name, res) # snap) = RestoreReservations (restore_one name res l) snap"
  by (simp add: RestoreReservations_def)

lemma RestoreReservations_lookup:
  assumes "wf_gmap snap"
  shows "map_of (nodes (RestoreReservations l snap)) k =
      map_option (with_reserved (map_of snap k)) (map_of (nodes l) k)"
    and "map_of (inflight (RestoreReservations l snap)) k =
      map_option (with_reserved (map_of snap k)) (map_of (inflight l) k)"
  using assms
proof (induction snap arbitrary: l)
  case Nil
  {
    case 1
    then show ?case by (simp add: RestoreReservations_def with_reserved_def option.map_ident)
  next
    case 2
    then show ?case by (simp add: RestoreReservations_def with_reserved_def option.map_ident)
  }
next
  case (Cons p snap)
  obtain name res where p: "p = (name, res)" by (cases p)
  {
    case 1
    then have "map_of snap name = None" "wf_gmap snap"
      by (auto simp: p wf_gmap_Cons map_of_eq_None_iff)
    then show ?case
      using Cons.IH(1) [of "restore_one name res l"]
      by (auto simp: p restore_one_eq map_of_madj with_reserved_def option.map_comp comp_def
          option.map_ident)
  next
    case 2
    then have "map_of snap name = None" "wf_gmap snap"
      by (auto simp: p wf_gmap_Cons map_of_eq_None_iff)
    then show ?case
      using Cons.IH(2) [of "restore_one name res l"]
      by (auto simp: p restore_one_eq map_of_madj with_reserved_def option.map_comp comp_def
          option.map_ident)
  }
qed

lemma findEntry_RestoreReservations:
  "wf_gmap snap \<Longrightarrow>
   findEntry (RestoreReservations l snap) k = map_option (with_reserved (map_of snap k)) (findEntry l k)"
  by (auto simp: findEntry_def RestoreReservations_lookup split: option.splits)

end
