(* ===== verification/LedgerProps.thy ===== *)
theory LedgerProps
  imports Capacity
begin

text \<open>
  The properties of the node ledger: both searches are best-fit searches whatever the iteration
  order of the maps, reservations account exactly and never over-subscribe a node, and what
  happens to reservations on release, on a rebuild and when one profile's entries are cleared.
\<close>

section \<open>Properties\<close>

lemma available_bound: "entry_ok n \<Longrightarrow> sint (available n k) \<le> 2 ^ 61"
proof -
  assume ok: "entry_ok n"
  then have "amount_ok (qget (allocatable n) k)" "amount_ok (qget (used n) k)"
    "amount_ok (qget (reserved n) k)"
    by (auto simp: entry_ok_def intro: amounts_ok_qget)
  then show ?thesis
    using sint_available [OF ok, of k] by (simp add: amount_ok_def)
qed

text \<open>With at most three demanded resources no sum of free amounts leaves the range of \<^verbatim>\<open>int64\<close>.\<close>

lemma exact_slack_bound:
  "entry_ok n \<Longrightarrow> amounts_ok d \<Longrightarrow> exact_slack n d \<le> int (length d) * 2 ^ 61"
proof (induction d)
  case Nil
  then show ?case by (simp add: exact_slack_def)
next
  case (Cons p d)
  obtain res qty where p: "p = (res, qty)" by (cases p)
  have "amounts_ok d" "amount_ok qty"
    using Cons.prems(2) by (auto simp: amounts_ok_def p wf_gmap_Cons)
  moreover have "sint (available n res) \<le> 2 ^ 61"
    using Cons.prems(1) by (rule available_bound)
  ultimately show ?case
    using Cons.IH Cons.prems(1) by (simp add: p exact_slack_def amount_ok_def)
qed

lemma slack_is_exact:
  assumes "ledger_ok l" and "amounts_ok d" and "length d \<le> 3"
    and "(name, n) \<in> set (entries_of l infl)" and "eligible n d c"
  shows "sint (slack n d) = exact_slack n d" and "slack n d \<noteq> MaxInt64"
proof -
  have ok: "entry_ok n"
    using assms(1,4) lookup_entries_of findEntry_ok by blast
  have "exact_slack n d \<le> int (length d) * 2 ^ 61"
    using ok assms(2) by (rule exact_slack_bound)
  also have "\<dots> < 2 ^ 63 - 1"
    using assms(3) by simp
  finally have small: "exact_slack n d < 2 ^ 63 - 1" .
  then show eq: "sint (slack n d) = exact_slack n d"
    using assms(5) by (intro sint_slack_exact) (auto simp: eligible_def)
  then show "slack n d \<noteq> MaxInt64"
    using small sint_MaxInt64 by auto
qed

lemma no_empty_names: "ledger_ok l \<Longrightarrow> '''' \<notin> fst ` set (entries_of l infl)"
  by (auto simp: ledger_ok_def nodes_ok_def entries_of_def list_all_iff)

text \<open>What a failed and a successful search mean over the integers.\<close>

lemma no_existing_fit:
  assumes "ledger_ok l" and "amounts_ok d" and "length d \<le> 3"
    and "FindFitExisting l d c = Inl e" and "(name, n) \<in> set (nodes l)"
  shows "\<not> eligible n d c"
  using FindFitExisting_complete [OF assms(4) _ assms(5)] no_empty_names [OF assms(1), of False]
    slack_is_exact(2) [OF assms(1-3), where infl = False and name = name and n = n and c = c] assms(5)
  by (auto simp: entries_of_def)

lemma best_existing_fit:
  assumes "ledger_ok l" and "amounts_ok d" and "length d \<le> 3" and "FindFitExisting l d c = Inr name"
  obtains n where "(name, n) \<in> set (nodes l)" and "eligible n d c" and "name \<noteq> ''''"
    and "\<forall>(name', n') \<in> set (nodes l). eligible n' d c \<longrightarrow> exact_slack n d \<le> exact_slack n' d"
proof -
  note exact = slack_is_exact(1) [OF assms(1-3), where infl = False, unfolded entries_of_def if_False]
  from assms(4) obtain n where n: "(name, n) \<in> set (nodes l)" "eligible n d c" "name \<noteq> ''''"
    and least: "\<And>name' n'. (name', n') \<in> set (nodes l) \<Longrightarrow> eligible n' d c
        \<Longrightarrow> sint (slack n d) \<le> sint (slack n' d)"
    by (elim FindFitExisting_sound) blast
  have "exact_slack n d \<le> exact_slack n' d"
    if "(name', n') \<in> set (nodes l)" "eligible n' d c" for name' n'
    using least [OF that] exact [OF that] exact [OF n(1,2)] by simp
  with n show thesis by (intro that) auto
qed

lemma no_fit:
  assumes "ledger_ok l" and "amounts_ok d" and "length d \<le> 3"
    and "FindFit l d c = Inl e" and "(name, n) \<in> set (entries_of l infl)"
  shows "\<not> eligible n d c"
  using FindFit_complete [OF assms(4) no_empty_names no_empty_names assms(5), OF assms(1) assms(1)]
    slack_is_exact(2) [OF assms(1-3,5)] by blast

lemma best_fit:
  assumes "ledger_ok l" and "amounts_ok d" and "length d \<le> 3" and "FindFit l d c = Inr (name, infl)"
  obtains n where "(name, n) \<in> set (entries_of l infl)" and "eligible n d c" and "name \<noteq> ''''"
    and "\<forall>infl'. \<forall>(name', n') \<in> set (entries_of l infl'). eligible n' d c \<longrightarrow>
      exact_slack n d < exact_slack n' d \<or> exact_slack n d = exact_slack n' d \<and> (infl \<longrightarrow> infl')"
proof -
  from assms(4) obtain n where n: "(name, n) \<in> set (entries_of l infl)" "eligible n d c" "name \<noteq> ''''"
    and least: "\<And>name' n' infl'. (name', n') \<in> set (entries_of l infl') \<Longrightarrow> eligible n' d c
      \<Longrightarrow> FitKey (sint (slack n d)) infl \<le> FitKey (sint (slack n' d)) infl'"
    by (elim FindFit_sound) blast
  have "exact_slack n d < exact_slack n' d \<or> exact_slack n d = exact_slack n' d \<and> (infl \<longrightarrow> infl')"
    if "(name', n') \<in> set (entries_of l infl')" "eligible n' d c" for name' n' infl'
    using least [OF that] slack_is_exact(1) [OF assms(1-3) that] slack_is_exact(1) [OF assms(1-3) n(1,2)]
    by (simp add: less_eq_fit_key_def)
  with n show thesis by (intro that) auto
qed

lemmas ledger_eval =
  New_def AddNode_def AddInflightNode_def copyMap_def copyStringMap_def copy_into_def mput_def mget_def
  ledger_ok_def nodes_ok_def entry_ok_def amounts_ok_def amount_ok_def wf_gmap_def available_def
  findEntry_def withEntry_def madj_def Reserve_def add_reserved_def eligible_def
  nodeMatchesConstraints_def room_def entries_of_def

text \<open>
  C2: best fit on existing nodes. In a well-formed ledger and for a demand of at most three
  resources, \<open>FindFitExisting\<close> fails only if no existing node is eligible (constraints satisfied
  and every demanded amount free); otherwise it names an eligible existing node whose remaining
  slack, computed over the integers, is the least among all eligible existing nodes.
\<close>

theorem FindFitExisting_best_fit:
  assumes "ledger_ok l" and "amounts_ok d" and "length d \<le> 3"
  shows "case FindFitExisting l d c of
      Inl e \<Rightarrow> \<forall>(name, n) \<in> set (nodes l). \<not> eligible n d c
    | Inr name \<Rightarrow> \<exists>n. (name, n) \<in> set (nodes l) \<and> eligible n d c \<and>
        (\<forall>(name', n') \<in> set (nodes l). eligible n' d c \<longrightarrow> exact_slack n d \<le> exact_slack n' d)"
proof (cases "FindFitExisting l d c")
  case (Inl e)
  with no_existing_fit [OF assms Inl] show ?thesis by auto
next
  case (Inr name)
  obtain n where "(name, n) \<in> set (nodes l)" "eligible n d c" "name \<noteq> ''''"
    "\<forall>(name', n') \<in> set (nodes l). eligible n' d c \<longrightarrow> exact_slack n d \<le> exact_slack n' d"
    by (rule best_existing_fit [OF assms Inr])
  with Inr show ?thesis by auto
qed

theorem FindFitExisting_best_fit_witness:
  "let l = AddNode (AddNode New ''big'' [(''cpu'', 8000)] None []) ''small'' [(''cpu'', 2000)] None [];
       d = [(''cpu'', 1500)]
   in ledger_ok l \<and> amounts_ok d \<and> length d \<le> 3 \<and> FindFitExisting l d None = Inr ''small'' \<and>
      (\<exists>n. (''small'', n) \<in> set (nodes l) \<and> eligible n d None \<and> 
         (\<forall>(name', n') \<in> set (nodes l). eligible n' d None \<longrightarrow> exact_slack n d \<le> exact_slack n' d))"
proof -
  let ?l = "AddNode (AddNode New ''big'' [(''cpu'', 8000)] None []) ''small'' [(''cpu'', 2000)] None []"
  let ?d = "[(''cpu'', 1500 :: int64)]"
  have l: "ledger_ok ?l" and d: "amounts_ok ?d" and len: "length ?d \<le> 3"
    by (simp_all add: ledger_eval)
  have r: "FindFitExisting ?l ?d None = Inr ''small''"
    by (simp add: FindFitExisting_def check_existing_def MaxInt64_def ledger_eval)
  show ?thesis
    using l d len r FindFitExisting_best_fit [OF l d len, of None] by (simp add: Let_def)
qed

text \<open>
  C4: best fit over all nodes. \<open>FindFit\<close> fails only if neither an existing nor an in-flight node is
  eligible; otherwise the node it names is eligible and least by slack, and among nodes of the same
  slack an existing node is preferred to an in-flight one.
\<close>

theorem FindFit_best_fit:
  assumes "ledger_ok l" and "amounts_ok d" and "length d \<le> 3"
  shows "case FindFit l d c of
      Inl e \<Rightarrow> \<forall>infl. \<forall>(name, n) \<in> set (entries_of l infl). \<not> eligible n d c
    | Inr (name, infl) \<Rightarrow> \<exists>n. (name, n) \<in> set (entries_of l infl) \<and> eligible n d c \<and>
        (\<forall>infl'. \<forall>(name', n') \<in> set (entries_of l infl'). eligible n' d c \<longrightarrow>
           exact_slack n d < exact_slack n' d
           \<or> exact_slack n d = exact_slack n' d \<and> (infl \<longrightarrow> infl'))"
proof (cases "FindFit l d c")
  case (Inl e)
  with no_fit [OF assms Inl] show ?thesis by auto
next
  case (Inr r)
  obtain name infl where r: "r = (name, infl)" by (cases r)
  obtain n where "(name, n) \<in> set (entries_of l infl)" "eligible n d c" "name \<noteq> ''''"
    "\<forall>infl'. \<forall>(name', n') \<in> set (entries_of l infl'). eligible n' d c \<longrightarrow>
      exact_slack n d < exact_slack n' d \<or> exact_slack n d = exact_slack n' d \<and> (infl \<longrightarrow> infl')"
    by (rule best_fit [OF assms Inr [unfolded r]])
  with Inr r show ?thesis by auto
qed

theorem FindFit_best_fit_witness:
  "let l = AddInflightNode (AddNode New ''node-1'' [(''cpu'', 2000)] None []) ''p/new'' [(''cpu'', 2000)] None [];
       d = [(''cpu'', 1500)]
   in ledger_ok l \<and> amounts_ok d \<and> length d \<le> 3 \<and> FindFit l d None = Inr (''node-1'', False) \<and>
      (\<exists>n. (''node-1'', n) \<in> set (entries_of l False) \<and> eligible n d None \<and>
        (\<forall>infl'. \<forall>(name', n') \<in> set (entries_of l infl'). eligible n' d None \<longrightarrow>
           exact_slack n d < exact_slack n' d
           \<or> exact_slack n d = exact_slack n' d \<and> (False \<longrightarrow> infl')))"
proof -
  let ?l = "AddInflightNode (AddNode New ''node-1'' [(''cpu'', 2000)] None []) ''p/new'' [(''cpu'', 2000)] None []"
  let ?d = "[(''cpu'', 1500 :: int64)]"
  have l: "ledger_ok ?l" and d: "amounts_ok ?d" and len: "length ?d \<le> 3"
    by (simp_all add: ledger_eval)
  have r: "FindFit ?l ?d None = Inr (''node-1'', False)"
    by (simp add: FindFit_def check_fit_def MaxInt64_def ledger_eval)
  show ?thesis
    using l d len r FindFit_best_fit [OF l d len, of None] by (simp add: Let_def)
qed

text \<open>
  C33: the iteration order of Go maps decides at most between equals. Two visits of the same
  ledger and the same demand in any two orders both fail, or both succeed with nodes of the same
  slack and the same kind.
\<close>

theorem FindFit_order_independent:
  assumes "set (nodes l) = set (nodes l')" and "set (inflight l) = set (inflight l')"
    and "mset d = mset d'" and "ledger_ok l"
  shows "(\<exists>name infl n name' n'. FindFit l d c = Inr (name, infl) \<and> FindFit l' d' c = Inr (name', infl)
            \<and> (name, n) \<in> set (entries_of l infl) \<and> (name', n') \<in> set (entries_of l infl)
            \<and> slack n d = slack n' d)
         \<or> FindFit l d c = Inl errNoFit \<and> FindFit l' d' c = Inl errNoFit"
proof -
  have cand: "fit_cand d c = fit_cand d' c"
    using assms(3) by (intro ext)
      (simp add: fit_cand_def eligible_def demand_fits_order [of d d'] slack_order [of d d'] split: prod.split)
  let ?r = "scan_min (fit_cand d c) best_key (tagged l) ('''', MaxInt64, False)"
  let ?r' = "scan_min (fit_cand d c) best_key (tagged l') ('''', MaxInt64, False)"
  have same: "set (tagged l) = set (tagged l')"
    using assms(1,2) by (simp add: tagged_def)
  have key: "best_key ?r = best_key ?r'"
    using same by (rule scan_min_key_order)
  have cases: "r = ('''', MaxInt64, False) \<or>
      fst r \<noteq> '''' \<and> best_key r < best_key ('''', MaxInt64, False) \<and>
      (\<exists>n. (fst r, n) \<in> set (entries_of l (snd (snd r))) \<and> r = (fst r, slack n d, snd (snd r)))"
    if "r = scan_min (fit_cand d c) best_key xs ('''', MaxInt64, False)"
      and "set xs = set (tagged l)" for r xs
    using scan_min_cases [of "fit_cand d c" best_key xs "('''', MaxInt64, False)"]
      fit_cand_SomeD [of d c _ r] no_empty_names [OF assms(4)] that
    by (force simp: in_tagged)
  show ?thesis
    using cases [OF refl refl] cases [OF refl same [symmetric]] key
    unfolding FindFit_scan cand [symmetric]
    by (elim disjE) (auto simp: best_key_def sint_eq_iff split: prod.splits, metis+)
qed

theorem FindFit_order_independent_witness:
  "let a = \<lparr>allocatable = [(''cpu'', 2000)], used = [], reserved = [], ne_labels = None, ne_taints = []\<rparr>;
       l = \<lparr>nodes = [(''a'', a), (''b'', a)], inflight = []\<rparr>;
       l' = \<lparr>nodes = [(''b'', a), (''a'', a)], inflight = []\<rparr>; d = [(''cpu'', 1000)]
   in FindFit l d None = Inr (''a'', False) \<and> FindFit l' d None = Inr (''b'', False) \<and>
      (\<exists>n n'. (''a'', n) \<in> set (entries_of l False) \<and> (''b'', n') \<in> set (entries_of l False)
         \<and> slack n d = slack n' d)"
proof -
  let ?a = "\<lparr>allocatable = [(''cpu'', 2000)], used = [], reserved = [], ne_labels = None, ne_taints = []\<rparr>"
  let ?l = "\<lparr>nodes = [(''a'', ?a), (''b'', ?a)], inflight = []\<rparr>"
  let ?l' = "\<lparr>nodes = [(''b'', ?a), (''a'', ?a)], inflight = []\<rparr>"
  let ?d = "[(''cpu'', 1000 :: int64)]"
  have "set (nodes ?l) = set (nodes ?l')" "set (inflight ?l) = set (inflight ?l')"
    and ok: "ledger_ok ?l"
    by (auto simp: ledger_eval)
  moreover have "FindFit ?l ?d None = Inr (''a'', False)" "FindFit ?l' ?d None = Inr (''b'', False)"
    by (simp_all add: FindFit_def check_fit_def MaxInt64_def ledger_eval)
  ultimately show ?thesis
    using FindFit_order_independent [of ?l ?l' ?d ?d None] unfolding Let_def by fastforce
qed

text \<open>
  A successful reservation takes exactly the demand from the named node's free amounts, leaves
  every other node as it was, never makes a non-negative free amount negative, and keeps the
  ledger well formed.
\<close>

theorem Reserve_exact:
  assumes "ledger_ok l" and "amounts_ok d" and "Reserve l name d = Inr l'"
  shows "ledger_ok l' \<and>
    (\<forall>res. room l' name res = room l name res - sint (qget d res)) \<and>
    (\<forall>res. 0 \<le> room l name res \<longrightarrow> 0 \<le> room l' name res) \<and>
    (\<forall>name'. name' \<noteq> name \<longrightarrow> findEntry l' name' = findEntry l name')"
  using Reserve_ok [OF assms] Reserve_room [OF assms]
    existing.book_free_nonneg [of l d name l' name] assms
  by (auto simp: Reserve_Inr_iff findEntry_withEntry)

theorem Reserve_exact_witness:
  "let l = AddNode New ''node-1'' [(''cpu'', 4000)] None []; d = [(''cpu'', 3000)] in
   \<exists>l'. Reserve l ''node-1'' d = Inr l' \<and> ledger_ok l \<and> amounts_ok d \<and>
     room l' ''node-1'' ''cpu'' = room l ''node-1'' ''cpu'' - 3000 \<and> Reserve l' ''node-1'' d = Inl errNoFit"
proof -
  let ?l = "AddNode New ''node-1'' [(''cpu'', 4000)] None []"
  let ?d = "[(''cpu'', 3000 :: int64)]"
  have ok: "ledger_ok ?l" "amounts_ok ?d"
    by (simp_all add: ledger_eval)
  obtain l' where l': "Reserve ?l ''node-1'' ?d = Inr l'" and again: "Reserve l' ''node-1'' ?d = Inl errNoFit"
    by (simp add: ledger_eval)
  have "room l' ''node-1'' ''cpu'' = room ?l ''node-1'' ''cpu'' - sint (qget ?d ''cpu'')"
    using Reserve_exact [OF ok l'] by blast
  then show ?thesis
    using ok l' again by (simp add: Let_def mget_def)
qed

text \<open>
  C3: no over-subscription. However many demands are placed one after the other, each by
  \<open>FindFitExisting\<close> and then \<open>Reserve\<close>, the sum of what is booked on a node never exceeds
  what was free on it, and the free amount left is the difference.
\<close>

theorem no_oversubscription:
  assumes "ledger_ok l" and "list_all (\<lambda>(d, c). amounts_ok d) ps" and "0 \<le> room l name res"
  shows "case place_all (\<lambda>l d c. ok_opt (FindFitExisting l d c)) (\<lambda>l n d. ok_opt (Reserve l n d)) l ps of
    (l', as) \<Rightarrow> booked as name res \<le> room l name res \<and> room l' name res = room l name res - booked as name res"
proof (cases "place_all (\<lambda>l d c. ok_opt (FindFitExisting l d c)) (\<lambda>l n d. ok_opt (Reserve l n d)) l ps")
  case (Pair l' as)
  show ?thesis
    using existing.place_all_account [OF assms(1,2) Pair, of name res]
      existing.place_all_no_oversubscription [OF assms(1,2) Pair assms(3)]
    by (simp add: Pair)
qed

theorem no_oversubscription_witness:
  "let l = AddNode New ''node-1'' [(''cpu'', 4000)] None [];
       ps = [([(''cpu'', 3000)], None), ([(''cpu'', 3000)], None), ([(''cpu'', 1000)], None)]
   in case place_all (\<lambda>l d c. ok_opt (FindFitExisting l d c)) (\<lambda>l n d. ok_opt (Reserve l n d)) l ps of
        (l', as) \<Rightarrow> as = [(''node-1'', [(''cpu'', 3000)]), (''node-1'', [(''cpu'', 1000)])]
          \<and> booked as ''node-1'' ''cpu'' \<le> room l ''node-1'' ''cpu''"
proof -
  let ?l = "AddNode New ''node-1'' [(''cpu'', 4000)] None []"
  let ?ps = "[([(''cpu'', 3000 :: int64)], None :: PodSchedulingConstraints option),
     ([(''cpu'', 3000)], None), ([(''cpu'', 1000)], None)]"
  have h: "ledger_ok ?l" "list_all (\<lambda>(d, c). amounts_ok d) ?ps" "0 \<le> room ?l ''node-1'' ''cpu''"
    by (simp_all add: ledger_eval)
  have run: "snd (place_all (\<lambda>l d c. ok_opt (FindFitExisting l d c)) (\<lambda>l n d. ok_opt (Reserve l n d)) ?l ?ps)
      = [(''node-1'', [(''cpu'', 3000)]), (''node-1'', [(''cpu'', 1000)])]"
    by (simp add: FindFitExisting_def check_existing_def MaxInt64_def ledger_eval)
  show ?thesis
    using no_oversubscription [OF h] run unfolding Let_def by (auto split: prod.splits)
qed

text \<open>
  Every ledger that the operations of the package can produce, called with amounts in range and
  with in-flight names apart from node names, is well formed; in particular the capacity
  arithmetic on it never wraps.
\<close>

theorem reachable_ledgers_ok:
  assumes "ledger_reach l"
  shows "ledger_ok l \<and>
    (\<forall>name n res. findEntry l name = Some n \<longrightarrow>
       sint (available n res) =
         sint (qget (allocatable n) res) - sint (qget (used n) res) - sint (qget (reserved n) res))"
  using ledger_reach_ok [OF assms] findEntry_ok sint_available by blast

theorem reachable_ledgers_ok_witness:
  "let l = AddNode New ''node-1'' [(''cpu'', 4000)] None [] in
   ledger_reach l \<and> ledger_ok l"
proof -
  have "ledger_reach (AddNode New ''node-1'' [(''cpu'', 4000)] None [])"
    by (rule reach_add [OF reach_new]) (simp_all add: ledger_eval)
  then show ?thesis
    using reachable_ledgers_ok by (simp add: Let_def)
qed

text \<open>
  Releasing what was reserved gives every free amount back: \<open>ReleaseReservation\<close> undoes
  \<open>Reserve\<close>.
\<close>

theorem release_undoes_reserve:
  assumes "ledger_ok l" and "amounts_ok d" and "Reserve l name d = Inr l'"
  shows "room (ReleaseReservation l' name d) name' res = room l name' res"
proof -
  from assms(3) obtain n where n: "findEntry l name = Some n" and fits: "demand_fits n d"
    and l': "l' = withEntry l name (\<lambda>n. n\<lparr>reserved := add_reserved d (reserved n)\<rparr>)"
    by (auto simp: Reserve_Inr_iff)
  have wf: "wf_gmap d" and ok: "entry_ok n"
    using assms(1,2) n findEntry_ok by (auto simp: amounts_ok_def)
  have "qget (sub_reserved d (add_reserved d (reserved n))) res = qget (reserved n) res"
  proof (cases "map_of d res")
    case None
    then show ?thesis
      using map_of_sub_reserved [OF wf, of "add_reserved d (reserved n)" res]
        map_of_add_reserved [OF wf, of "reserved n" res] by (simp add: mget_def)
  next
    case (Some q)
    have "amount_ok (qget (reserved n) res)"
      using ok by (auto simp: entry_ok_def intro: amounts_ok_qget)
    then show ?thesis
      using map_of_sub_reserved [OF wf, of "add_reserved d (reserved n)" res] Some
      by (simp add: mget_Some qget_add_reserved [OF wf] amount_ok_def)
  qed
  then show ?thesis
    using n by (simp add: l' ReleaseReservation_def findEntry_withEntry room_def available_def)
qed

theorem release_undoes_reserve_witness:
  "let l = AddNode New ''node-1'' [(''cpu'', 4000)] None []; d = [(''cpu'', 3000)] in
   \<exists>l'. Reserve l ''node-1'' d = Inr l' \<and>
     room (ReleaseReservation l' ''node-1'' d) ''node-1'' ''cpu'' = room l ''node-1'' ''cpu''"
proof -
  let ?l = "AddNode New ''node-1'' [(''cpu'', 4000)] None []"
  let ?d = "[(''cpu'', 3000 :: int64)]"
  have ok: "ledger_ok ?l" "amounts_ok ?d"
    by (simp_all add: ledger_eval)
  obtain l' where l': "Reserve ?l ''node-1'' ?d = Inr l'"
    by (simp add: ledger_eval)
  show ?thesis
    using l' release_undoes_reserve [OF ok l'] by (auto simp: Let_def)
qed

text \<open>
  Reservations survive a rebuild. If a node is in the old ledger and again in the new one
  (freshly added, so with nothing reserved), then after \<open>RestoreReservations\<close> of the snapshot the
  new entry holds exactly the old reservations; a reservation of a node that is gone is dropped.
\<close>

theorem reservations_survive_rebuild:
  assumes "ledger_ok old" and "findEntry new name = Some n'" and "reserved n' = []"
  shows "findEntry (RestoreReservations new (SnapshotReservations old)) name =
    Some (case findEntry old name of None \<Rightarrow> n' | Some n \<Rightarrow> n'\<lparr>reserved := reserved n\<rparr>)"
proof -
  have look: "findEntry (RestoreReservations new (SnapshotReservations old)) name =
      Some (with_reserved (map_of (SnapshotReservations old) name) n')"
    using assms(2) by (simp add: findEntry_RestoreReservations wf_SnapshotReservations)
  show ?thesis
  proof (cases "findEntry old name")
    case None
    then show ?thesis
      using look by (simp add: map_of_SnapshotReservations [OF assms(1)] with_reserved_def)
  next
    case (Some n)
    have "copyMap (reserved n) = reserved n"
      using findEntry_ok [OF assms(1) Some] by (simp add: copyMap_def entry_ok_def amounts_ok_def)
    moreover have "n'\<lparr>reserved := []\<rparr> = n'"
      using assms(3) by (metis nodeEntry.surjective nodeEntry.update_convs(3))
    ultimately show ?thesis
      using look Some by (auto simp: map_of_SnapshotReservations [OF assms(1)] with_reserved_def)
  qed
qed

theorem reservations_survive_rebuild_witness:
  "let old = AddNode New ''node-1'' [(''cpu'', 4000)] None [];
       new = AddNode (ClearNodes old) ''node-1'' [(''cpu'', 6000)] None []
   in \<exists>booked n. Reserve old ''node-1'' [(''cpu'', 3000)] = Inr booked \<and>
        findEntry (RestoreReservations new (SnapshotReservations booked)) ''node-1'' = Some n \<and>
        reserved n = [(''cpu'', 3000)] \<and> allocatable n = [(''cpu'', 6000)]"
proof -
  let ?old = "AddNode New ''node-1'' [(''cpu'', 4000)] None []"
  let ?new = "AddNode (ClearNodes ?old) ''node-1'' [(''cpu'', 6000)] None []"
  let ?d = "[(''cpu'', 3000 :: int64)]"
  obtain booked where b: "Reserve ?old ''node-1'' ?d = Inr booked"
    and look: "\<exists>n. findEntry booked ''node-1'' = Some n \<and> reserved n = ?d"
    by (simp add: ledger_eval)
  have ok: "ledger_ok booked"
    using Reserve_ok [OF _ _ b] by (simp add: ledger_eval)
  obtain n' where n': "findEntry ?new ''node-1'' = Some n'" "reserved n' = []"
    "allocatable n' = [(''cpu'', 6000)]"
    by (simp add: ledger_eval ClearNodes_def)
  show ?thesis
    using b look n' reservations_survive_rebuild [OF ok n'(1,2)] by (auto simp: Let_def)
qed

text \<open>
  Per-profile isolation of the in-flight entries. Clearing the prefix of one profile removes
  exactly the entries registered under that profile's name and leaves those of every other
  profile, and all existing nodes, in place (profile names contain no slash).
\<close>

theorem clear_prefix_isolates:
  assumes "CHR ''/'' \<notin> set p" and "CHR ''/'' \<notin> set q"
  shows "map_of (inflight (ClearInflightByPrefix l (p @ ''/''))) (q @ ''/'' @ name) =
      (if q = p then None else map_of (inflight l) (q @ ''/'' @ name)) \<and>
    nodes (ClearInflightByPrefix l (p @ ''/'')) = nodes l"
proof -
  have "HasPrefix (q @ ''/'' @ name) (p @ ''/'') \<longleftrightarrow> q = p"
  proof
    assume "HasPrefix (q @ ''/'' @ name) (p @ ''/'')"
    then show "q = p"
      using prefix_sep_unique [OF assms, of name] by simp
  next
    assume "q = p"
    then show "HasPrefix (q @ ''/'' @ name) (p @ ''/'')"
      using HasPrefix_append [of "p @ ''/''" name] by simp
  qed
  then show ?thesis by (simp add: map_of_ClearInflightByPrefix)
qed

theorem clear_prefix_isolates_witness:
  "let l = AddInflightNode (AddInflightNode New ''gpu/n'' [] None []) ''gpu-2/n'' [] None []
   in map_of (inflight (ClearInflightByPrefix l (''gpu'' @ ''/''))) (''gpu-2'' @ ''/'' @ ''n'')
        = map_of (inflight l) ''gpu-2/n''
      \<and> map_of (inflight (ClearInflightByPrefix l (''gpu'' @ ''/''))) (''gpu'' @ ''/'' @ ''n'') = None
      \<and> map_of (inflight l) ''gpu-2/n'' \<noteq> None"
proof -
  let ?l = "AddInflightNode (AddInflightNode New ''gpu/n'' [] None []) ''gpu-2/n'' [] None []"
  have "map_of (inflight ?l) ''gpu-2/n'' \<noteq> None"
    by (simp add: ledger_eval)
  then show ?thesis
    using clear_prefix_isolates [of "''gpu''" "''gpu-2''" ?l "''n''"]
      clear_prefix_isolates [of "''gpu''" "''gpu''" ?l "''n''"]
    by (simp add: Let_def)
qed

end
