(* ===== verification/Rules.thy ===== *)
theory Rules
  imports LedgerProps
begin

text \<open>
  The rule plugins (\<^verbatim>\<open>src/internal/rules\<close>): how a pod's demand is read (\<^verbatim>\<open>demand.go\<close>), the rule
  interface and its registry (\<^verbatim>\<open>rule.go\<close>), and the two rules, \<^verbatim>\<open>WaitForWorkloadPacking\<close>
  (\<^verbatim>\<open>binpack.go\<close>) and \<^verbatim>\<open>WaitForNodeReady\<close> (\<^verbatim>\<open>scaleup.go\<close>). A rule's \<^verbatim>\<open>Evaluate\<close> is a function
  from the pod, the ledger and the profile to a verdict (release, node name, error) and the ledger
  it leaves behind. \<^verbatim>\<open>Quantity.MilliValue\<close> is the argument \<open>milli\<close>.

  The interface is the locale \<open>rule_contract\<close>: what every rule may do to the ledger. Both rules are
  interpreted in it, and \<open>rule_registry\<close> lifts it to whatever a registry can hand out.
\<close>

section \<open>Model\<close>

subsection \<open>Demand\<close>

definition extractConstraints :: "'q Pod \<Rightarrow> PodSchedulingConstraints option" where
  "extractConstraints pod =
     Some \<lparr>con_Tolerations = Tolerations pod, con_NodeSelector = NodeSelector pod\<rparr>"

definition add_request ::
  "('q \<Rightarrow> int64) \<Rightarrow> (string, 'q) gmap \<Rightarrow> string \<Rightarrow> resources \<Rightarrow> resources" where
  "add_request milli requests res demand =
     (case map_of requests res of
        None \<Rightarrow> demand
      | Some qty \<Rightarrow> mput res (qget demand res + milli qty) demand)"

definition extractFromRequests :: "('q \<Rightarrow> int64) \<Rightarrow> 'q Pod \<Rightarrow> string list \<Rightarrow> resources" where
  "extractFromRequests milli pod resources =
     fold (\<lambda>container. fold (add_request milli (Requests container)) resources) (Containers pod) []"

definition extractFromAnnotation :: "'q Pod \<Rightarrow> string \<Rightarrow> resources" where
  "extractFromAnnotation pod annotation =
     (case map_of (entries (pod_Annotations pod)) annotation of
        None \<Rightarrow> []
      | Some val \<Rightarrow>
          (case ParseInt val of
             (qty, Some err) \<Rightarrow> []
           | (qty, None) \<Rightarrow> [(annotation, qty)]))"

definition ExtractDemand :: "('q \<Rightarrow> int64) \<Rightarrow> 'q Pod \<Rightarrow> DemandSource \<Rightarrow> resources" where
  "ExtractDemand milli pod source =
     (if ds_Type source = ''ResourceRequest'' then
        (if 0 < length (ds_Resources source) then extractFromRequests milli pod (ds_Resources source)
         else extractFromRequests milli pod ([''cpu'', ''memory''] @ AdditionalResources source))
      else if ds_Type source = ''Annotation'' then extractFromAnnotation pod (ds_Annotation source)
      else [])"

abbreviation demand_of :: "('q \<Rightarrow> int64) \<Rightarrow> 'q Pod \<Rightarrow> PackingProfile \<Rightarrow> resources" where
  "demand_of milli pod profile \<equiv> ExtractDemand milli pod (sp_DemandSource (pp_Spec profile))"

subsection \<open>The rule interface and its registry\<close>

record verdict =
  release :: bool
  nodeName :: string
  err :: "string option"

type_synonym 'q evaluator = "'q Pod \<Rightarrow> NodeLedger \<Rightarrow> PackingProfile \<Rightarrow> verdict \<times> NodeLedger"

record 'q Rule =
  Name :: string
  Evaluate :: "'q evaluator"

definition Register :: "'q Rule \<Rightarrow> (string, 'q Rule) gmap \<Rightarrow> (string, 'q Rule) gmap" where
  "Register r reg = mput (Name r) r reg"

subsection \<open>The rules\<close>

definition WaitForWorkloadPacking_Evaluate :: "('q \<Rightarrow> int64) \<Rightarrow> 'q evaluator" where
  "WaitForWorkloadPacking_Evaluate milli pod l profile =
     (let demand = ExtractDemand milli pod (sp_DemandSource (pp_Spec profile)) in
      if length demand = 0 then (\<lparr>release = True, nodeName = '''', err = None\<rparr>, l)
      else
        let constraints = extractConstraints pod in
        case FindFitExisting l demand constraints of
          Inl _ \<Rightarrow> (\<lparr>release = False, nodeName = '''', err = None\<rparr>, l)
        | Inr node \<Rightarrow>
            (case Reserve l node demand of
               Inl _ \<Rightarrow> (\<lparr>release = False, nodeName = '''', err = None\<rparr>, l)
             | Inr l' \<Rightarrow> (\<lparr>release = True, nodeName = node, err = None\<rparr>, l')))"

definition WaitForNodeReady_Evaluate :: "('q \<Rightarrow> int64) \<Rightarrow> 'q evaluator" where
  "WaitForNodeReady_Evaluate milli pod l profile =
     (let demand = ExtractDemand milli pod (sp_DemandSource (pp_Spec profile)) in
      if length demand = 0 then (\<lparr>release = True, nodeName = '''', err = None\<rparr>, l)
      else
        let constraints = extractConstraints pod in
        case FindFit l demand constraints of
          Inl _ \<Rightarrow>
            if HasInflightSignal l (pp_Name profile @ ''/'')
            then (\<lparr>release = False, nodeName = '''', err = None\<rparr>, l)
            else (\<lparr>release = True, nodeName = '''', err = None\<rparr>, l)
        | Inr (node, isInflight) \<Rightarrow>
            if isInflight then
              (case Reserve l node demand of
                 Inl _ \<Rightarrow> (\<lparr>release = True, nodeName = '''', err = None\<rparr>, l)
               | Inr l' \<Rightarrow> (\<lparr>release = False, nodeName = '''', err = None\<rparr>, l'))
            else
              (case Reserve l node demand of
                 Inl _ \<Rightarrow> (\<lparr>release = False, nodeName = '''', err = None\<rparr>, l)
               | Inr l' \<Rightarrow> (\<lparr>release = True, nodeName = node, err = None\<rparr>, l')))"

definition WaitForWorkloadPacking :: "('q \<Rightarrow> int64) \<Rightarrow> 'q Rule" where
  "WaitForWorkloadPacking milli =
     \<lparr>Name = ''WaitForWorkloadPacking'', Evaluate = WaitForWorkloadPacking_Evaluate milli\<rparr>"

definition WaitForNodeReady :: "('q \<Rightarrow> int64) \<Rightarrow> 'q Rule" where
  "WaitForNodeReady milli =
     \<lparr>Name = ''WaitForNodeReady'', Evaluate = WaitForNodeReady_Evaluate milli\<rparr>"

text \<open>The registry after the package's \<^verbatim>\<open>init\<close> functions have run.\<close>

definition Registry :: "('q \<Rightarrow> int64) \<Rightarrow> (string, 'q Rule) gmap" where
  "Registry milli = Register (WaitForNodeReady milli) (Register (WaitForWorkloadPacking milli) [])"

lemma Registry_lookup:
  "map_of (Registry milli) name =
     (if name = ''WaitForNodeReady'' then Some (WaitForNodeReady milli)
      else if name = ''WaitForWorkloadPacking'' then Some (WaitForWorkloadPacking milli) else None)"
  by (simp add: Registry_def Register_def map_of_mput WaitForNodeReady_def WaitForWorkloadPacking_def)

section \<open>Demand lemmas\<close>

definition requested :: "('q \<Rightarrow> int64) \<Rightarrow> (string, 'q) gmap \<Rightarrow> string \<Rightarrow> int64" where
  "requested milli reqs res = (case map_of reqs res of None \<Rightarrow> 0 | Some q \<Rightarrow> milli q)"

lemma wf_extractFromRequests [simp]: "wf_gmap (extractFromRequests milli pod rs)"
  unfolding extractFromRequests_def
  by (intro wf_gmap_fold) (simp_all add: add_request_def split: option.split)

lemma wf_ExtractDemand [simp]: "wf_gmap (ExtractDemand milli pod ds)"
  by (auto simp: ExtractDemand_def extractFromAnnotation_def wf_gmap_Cons
      split: option.split prod.split)

lemma qget_add_request:
  "qget (add_request milli reqs res d) k = qget d k + (if k = res then requested milli reqs k else 0)"
  by (simp add: add_request_def requested_def split: option.split)

lemma qget_fold_add_request:
  "qget (fold (add_request milli reqs) rs d) k =
     qget d k + of_nat (count_list rs k) * requested milli reqs k"
  by (induction rs arbitrary: d) (simp_all add: qget_add_request algebra_simps)

lemma qget_fold_containers:
  "qget (fold (\<lambda>c. fold (add_request milli (Requests c)) rs) cs d) k =
     qget d k + of_nat (count_list rs k) * (\<Sum>c\<leftarrow>cs. requested milli (Requests c) k)"
  by (induction cs arbitrary: d) (simp_all add: qget_fold_add_request algebra_simps)

lemma keys_fold_add_request:
  "fst ` set (fold (add_request milli reqs) rs d) = fst ` set d \<union> (set rs \<inter> fst ` set reqs)"
proof (induction rs arbitrary: d)
  case (Cons r rs)
  have "fst ` set (add_request milli reqs r d) = fst ` set d \<union> ({r} \<inter> fst ` set reqs)"
    by (auto simp: add_request_def fst_set_mput map_of_eq_None_iff split: option.split
        dest: map_of_SomeD intro: rev_image_eqI)
  then show ?case by (auto simp: Cons.IH)
qed simp

lemma keys_fold_containers:
  "fst ` set (fold (\<lambda>c. fold (add_request milli (Requests c)) rs) cs d) =
     fst ` set d \<union> {r \<in> set rs. \<exists>c \<in> set cs. r \<in> fst ` set (Requests c)}"
  by (induction cs arbitrary: d) (auto simp: keys_fold_add_request)


section \<open>What every rule promises\<close>

text \<open>
  The contract of a rule towards the ledger and its caller. A rule never reports an error. If it
  names a node it releases the pod, the node is an existing one the pod is eligible for, and the
  demand has been reserved there. If it names none, the ledger is as before, or the pod is held with
  its demand reserved on an in-flight node it is eligible for.
\<close>

locale rule_contract =
  fixes demand :: "'q Pod \<Rightarrow> PackingProfile \<Rightarrow> resources"
    and evaluate :: "'q evaluator"
  assumes no_error: "evaluate pod l p = (v, l') \<Longrightarrow> err v = None"
    and placed: "ledger_ok l \<Longrightarrow> evaluate pod l p = (v, l') \<Longrightarrow> nodeName v \<noteq> '''' \<Longrightarrow>
      release v \<and> Reserve l (nodeName v) (demand pod p) = Inr l' \<and>
      (\<exists>n. (nodeName v, n) \<in> set (nodes l) \<and> eligible n (demand pod p) (extractConstraints pod))"
    and unplaced: "ledger_ok l \<Longrightarrow> evaluate pod l p = (v, l') \<Longrightarrow> nodeName v = '''' \<Longrightarrow>
      l' = l \<or> \<not> release v \<and> (\<exists>name n. (name, n) \<in> set (inflight l) \<and>
        eligible n (demand pod p) (extractConstraints pod) \<and> Reserve l name (demand pod p) = Inr l')"
begin

lemma step_cases:
  assumes "ledger_ok l" and "evaluate pod l p = (v, l')"
  obtains (same) "l' = l" "nodeName v = ''''"
    | (place) "release v" "nodeName v \<noteq> ''''" "Reserve l (nodeName v) (demand pod p) = Inr l'"
        "map_of (nodes l) (nodeName v) \<noteq> None"
    | (hold) name where "\<not> release v" "nodeName v = ''''" "Reserve l name (demand pod p) = Inr l'"
  using placed [OF assms] unplaced [OF assms] assms(1)
  by (cases "nodeName v = ''''") (force simp: ledger_ok_iff nodes_ok_iff wf_gmap_lookup)+

text \<open>The invariant of the ledger is kept, and the free amount of a node is never driven below zero.\<close>

lemma evaluate_ok:
  assumes "ledger_ok l" and "amounts_ok (demand pod p)" and "evaluate pod l p = (v, l')"
  shows "ledger_ok l'"
  using assms(1,3)
  by (cases rule: step_cases) (use assms(1,2) in \<open>auto intro: Reserve_ok\<close>)

lemma evaluate_room:
  assumes "ledger_ok l" and "amounts_ok (demand pod p)" and "evaluate pod l p = (v, l')"
    and "0 \<le> room l n k"
  shows "0 \<le> room l' n k \<and>
    room l' n k + (if nodeName v = n \<and> n \<noteq> '''' then sint (qget (demand pod p) k) else 0) \<le> room l n k"
proof -
  have q: "0 \<le> sint (qget (demand pod p) k)"
    using amounts_ok_qget [OF assms(2), of k] by (simp add: amount_ok_def)
  have step: ?thesis if "Reserve l name (demand pod p) = Inr l'"
    and "nodeName v = '''' \<or> nodeName v = name" for name
    using Reserve_room [OF assms(1,2) that(1), of n k] that(2) q assms(4)
      existing.book_free_nonneg [of l "demand pod p" name l' n k] assms(1,2) that(1)
    by auto
  from assms(1,3) show ?thesis
    by (cases rule: step_cases) (use assms(4) step in auto)
qed

end

lemma verdict_eq [simp]: "\<lparr>release = r, nodeName = n, err = e\<rparr> = v \<longleftrightarrow>
    release v = r \<and> nodeName v = n \<and> err v = e"
  by (cases v) auto

lemma WaitForWorkloadPacking_cases:
  assumes "ledger_ok l"
  obtains (empty) "demand_of milli pod p = []"
      "WaitForWorkloadPacking_Evaluate milli pod l p = (\<lparr>release = True, nodeName = '''', err = None\<rparr>, l)"
    | (hold) e where "demand_of milli pod p \<noteq> []"
      "FindFitExisting l (demand_of milli pod p) (extractConstraints pod) = Inl e"
      "WaitForWorkloadPacking_Evaluate milli pod l p = (\<lparr>release = False, nodeName = '''', err = None\<rparr>, l)"
    | (place) node l' n where "demand_of milli pod p \<noteq> []"
      "FindFitExisting l (demand_of milli pod p) (extractConstraints pod) = Inr node"
      "(node, n) \<in> set (nodes l)" "eligible n (demand_of milli pod p) (extractConstraints pod)" "node \<noteq> ''''"
      "Reserve l node (demand_of milli pod p) = Inr l'"
      "WaitForWorkloadPacking_Evaluate milli pod l p = (\<lparr>release = True, nodeName = node, err = None\<rparr>, l')"
proof (cases "demand_of milli pod p = []")
  case True
  then show thesis by (intro empty) (simp_all add: WaitForWorkloadPacking_Evaluate_def)
next
  case False
  show thesis
  proof (cases "FindFitExisting l (demand_of milli pod p) (extractConstraints pod)")
    case (Inl e)
    with False show thesis by (intro hold) (simp_all add: WaitForWorkloadPacking_Evaluate_def)
  next
    case (Inr node)
    then obtain n where n: "(node, n) \<in> set (nodes l)" "node \<noteq> ''''"
      "eligible n (demand_of milli pod p) (extractConstraints pod)"
      by (elim FindFitExisting_sound) blast
    moreover obtain l' where "Reserve l node (demand_of milli pod p) = Inr l'"
      using Reserve_succeeds lookup_existing [OF assms n(1)] n(3) by blast
    ultimately show thesis
      using Inr False by (intro place) (simp_all add: WaitForWorkloadPacking_Evaluate_def)
  qed
qed

lemma WaitForNodeReady_cases:
  assumes "ledger_ok l"
  obtains (empty) "demand_of milli pod p = []"
      "WaitForNodeReady_Evaluate milli pod l p = (\<lparr>release = True, nodeName = '''', err = None\<rparr>, l)"
    | (nofit) e where "demand_of milli pod p \<noteq> []"
      "FindFit l (demand_of milli pod p) (extractConstraints pod) = Inl e"
      "WaitForNodeReady_Evaluate milli pod l p =
         (\<lparr>release = \<not> HasInflightSignal l (pp_Name p @ ''/''), nodeName = '''', err = None\<rparr>, l)"
    | (fit) node infl l' n where "demand_of milli pod p \<noteq> []"
      "FindFit l (demand_of milli pod p) (extractConstraints pod) = Inr (node, infl)"
      "(node, n) \<in> set (entries_of l infl)" "eligible n (demand_of milli pod p) (extractConstraints pod)"
      "node \<noteq> ''''" "Reserve l node (demand_of milli pod p) = Inr l'"
      "WaitForNodeReady_Evaluate milli pod l p =
         (\<lparr>release = \<not> infl, nodeName = (if infl then '''' else node), err = None\<rparr>, l')"
proof (cases "demand_of milli pod p = []")
  case True
  then show thesis by (intro empty) (simp_all add: WaitForNodeReady_Evaluate_def)
next
  case False
  show thesis
  proof (cases "FindFit l (demand_of milli pod p) (extractConstraints pod)")
    case (Inl e)
    with False show thesis by (intro nofit) (simp_all add: WaitForNodeReady_Evaluate_def)
  next
    case (Inr r)
    obtain node infl where r: "r = (node, infl)" by (cases r)
    from Inr r obtain n where n: "(node, n) \<in> set (entries_of l infl)" "node \<noteq> ''''"
      "eligible n (demand_of milli pod p) (extractConstraints pod)"
      by simp (elim FindFit_sound, blast)
    moreover obtain l' where "Reserve l node (demand_of milli pod p) = Inr l'"
      using Reserve_succeeds lookup_entries_of [OF assms n(1)] n(3) by blast
    ultimately show thesis
      using Inr r False by (intro fit) (auto simp: WaitForNodeReady_Evaluate_def)
  qed
qed

lemma WaitForWorkloadPacking_no_error:
  "err (fst (WaitForWorkloadPacking_Evaluate milli pod l p)) = None"
  by (simp add: WaitForWorkloadPacking_Evaluate_def Let_def split: sum.split)

lemma WaitForNodeReady_no_error: "err (fst (WaitForNodeReady_Evaluate milli pod l p)) = None"
  by (simp add: WaitForNodeReady_Evaluate_def Let_def split: sum.split prod.split)

interpretation packing: rule_contract "demand_of milli" "WaitForWorkloadPacking_Evaluate milli"
proof unfold_locales
  fix pod :: "'a Pod" and l p v l'
  assume ev: "WaitForWorkloadPacking_Evaluate milli pod l p = (v, l')"
  show "err v = None"
    using WaitForWorkloadPacking_no_error [of milli pod l p] by (simp add: ev)
  assume "ledger_ok l"
  then show "nodeName v \<noteq> '''' \<Longrightarrow> release v \<and> Reserve l (nodeName v) (demand_of milli pod p) = Inr l' \<and>
      (\<exists>n. (nodeName v, n) \<in> set (nodes l) \<and> eligible n (demand_of milli pod p) (extractConstraints pod))"
    and "nodeName v = '''' \<Longrightarrow> l' = l \<or> \<not> release v \<and> (\<exists>name n. (name, n) \<in> set (inflight l) \<and>
        eligible n (demand_of milli pod p) (extractConstraints pod) \<and>
        Reserve l name (demand_of milli pod p) = Inr l')"
    using ev by (cases rule: WaitForWorkloadPacking_cases [where milli = milli and pod = pod and p = p]; force)+
qed

interpretation ready: rule_contract "demand_of milli" "WaitForNodeReady_Evaluate milli"
proof unfold_locales
  fix pod :: "'a Pod" and l p v l'
  assume ev: "WaitForNodeReady_Evaluate milli pod l p = (v, l')"
  show "err v = None"
    using WaitForNodeReady_no_error [of milli pod l p] by (simp add: ev)
  assume "ledger_ok l"
  then show "nodeName v \<noteq> '''' \<Longrightarrow> release v \<and> Reserve l (nodeName v) (demand_of milli pod p) = Inr l' \<and>
      (\<exists>n. (nodeName v, n) \<in> set (nodes l) \<and> eligible n (demand_of milli pod p) (extractConstraints pod))"
    and "nodeName v = '''' \<Longrightarrow> l' = l \<or> \<not> release v \<and> (\<exists>name n. (name, n) \<in> set (inflight l) \<and>
        eligible n (demand_of milli pod p) (extractConstraints pod) \<and>
        Reserve l name (demand_of milli pod p) = Inr l')"
    using ev by (cases rule: WaitForNodeReady_cases [where milli = milli and pod = pod and p = p];
        force simp: entries_of_def split: if_splits)+
qed


text \<open>A registry all of whose rules keep the contract; several evaluations one after the other.\<close>

fun run_rules ::
  "(string \<Rightarrow> 'q Rule option) \<Rightarrow> ('q Pod \<Rightarrow> PackingProfile \<Rightarrow> resources) \<Rightarrow> NodeLedger
   \<Rightarrow> (string \<times> 'q Pod \<times> PackingProfile) list \<Rightarrow> NodeLedger \<times> (string \<times> resources) list" where
  "run_rules reg demand l [] = (l, [])"
| "run_rules reg demand l ((name, pod, p) # es) =
     (case reg name of
        None \<Rightarrow> run_rules reg demand l es
      | Some r \<Rightarrow>
          (case Evaluate r pod l p of
             (v, l') \<Rightarrow> apsnd (if nodeName v = '''' then id else Cons (nodeName v, demand pod p))
                          (run_rules reg demand l' es)))"

locale rule_registry =
  fixes reg :: "string \<Rightarrow> 'q Rule option"
    and demand :: "'q Pod \<Rightarrow> PackingProfile \<Rightarrow> resources"
  assumes contract: "reg name = Some r \<Longrightarrow> rule_contract demand (Evaluate r)"
begin

lemmas reg_no_error = rule_contract.no_error [OF contract]
lemmas reg_placed = rule_contract.placed [OF contract]
lemmas reg_unplaced = rule_contract.unplaced [OF contract]
lemmas reg_ok = rule_contract.evaluate_ok [OF contract]
lemmas reg_room = rule_contract.evaluate_room [OF contract]

lemma run_rules_account:
  "ledger_ok l \<Longrightarrow> list_all (\<lambda>(_, pod, p). amounts_ok (demand pod p)) es \<Longrightarrow>
   run_rules reg demand l es = (l', ps) \<Longrightarrow> 0 \<le> room l n k \<Longrightarrow> n \<noteq> '''' \<Longrightarrow>
   ledger_ok l' \<and> 0 \<le> room l' n k \<and> booked ps n k + room l' n k \<le> room l n k"
proof (induction es arbitrary: l l' ps)
  case Nil
  then show ?case by (simp add: booked_def)
next
  case (Cons e es)
  obtain name pod p where e: "e = (name, pod, p)" by (cases e)
  show ?case
  proof (cases "reg name")
    case None
    show ?thesis
      by (rule Cons.IH [OF Cons.prems(1) _ _ Cons.prems(4,5)]) (use Cons.prems(2,3) in \<open>simp_all add: e None\<close>)
  next
    case (Some r)
    obtain v l1 where ev: "Evaluate r pod l p = (v, l1)" by (cases "Evaluate r pod l p")
    obtain l2 qs where rest: "run_rules reg demand l1 es = (l2, qs)"
      by (cases "run_rules reg demand l1 es")
    have d: "amounts_ok (demand pod p)"
      using Cons.prems(2) by (simp add: e)
    have ok1: "ledger_ok l1"
      using reg_ok [OF Some Cons.prems(1) d ev] .
    have room1: "0 \<le> room l1 n k \<and>
        room l1 n k + (if nodeName v = n \<and> n \<noteq> '''' then sint (qget (demand pod p) k) else 0) \<le> room l n k"
      using reg_room [OF Some Cons.prems(1) d ev Cons.prems(4)] .
    have ih: "ledger_ok l2 \<and> 0 \<le> room l2 n k \<and> booked qs n k + room l2 n k \<le> room l1 n k"
      by (rule Cons.IH [OF ok1 _ rest _ Cons.prems(5)]) (use Cons.prems(2) room1 in \<open>simp_all add: e\<close>)
    have run: "l' = l2" "ps = (if nodeName v = '''' then qs else (nodeName v, demand pod p) # qs)"
      using Cons.prems(3) by (auto simp: e Some ev rest)
    have "booked ps n k = booked qs n k + (if nodeName v = n then sint (qget (demand pod p) k) else 0)"
      using Cons.prems(5) by (simp add: run(2) booked_def)
    then show ?thesis
      using ih room1 Cons.prems(5) by (simp only: run(1)) auto
  qed
qed

end

interpretation std: rule_registry "map_of (Registry milli)" "demand_of milli"
proof (rule rule_registry.intro)
  fix name r
  assume "map_of (Registry milli) name = Some r"
  then have "Evaluate r = WaitForNodeReady_Evaluate milli \<or> Evaluate r = WaitForWorkloadPacking_Evaluate milli"
    by (auto simp: Registry_lookup WaitForNodeReady_def WaitForWorkloadPacking_def split: if_splits)
  then show "rule_contract (demand_of milli) (Evaluate r)"
    using ready.rule_contract_axioms packing.rule_contract_axioms by (elim disjE) (simp_all only:)
qed

section \<open>A pod that is held on an in-flight node\<close>

text \<open>One in-flight node, no existing node, a pod that wants \<open>q\<close> of one resource.\<close>

definition lone_inflight ::
  "NodeLedger \<Rightarrow> string \<Rightarrow> PodSchedulingConstraints option \<Rightarrow> string \<Rightarrow> int \<Rightarrow> bool" where
  "lone_inflight l name c res a \<longleftrightarrow> ledger_ok l \<and> nodes l = [] \<and>
     (\<exists>n. inflight l = [(name, n)] \<and> nodeMatchesConstraints n c \<and> allocatable n \<noteq> [] \<and>
          sint (available n res) = a)"

lemma lone_inflight_entry:
  assumes "lone_inflight l name c res a"
  obtains n where "findEntry l name = Some n" "inflight l = [(name, n)]" "nodes l = []"
    "nodeMatchesConstraints n c" "allocatable n \<noteq> []" "sint (available n res) = a" "ledger_ok l"
  using assms by (auto simp: lone_inflight_def findEntry_def)

lemma nodeMatches_reserved [simp]:
  "nodeMatchesConstraints (n\<lparr>reserved := r\<rparr>) c = nodeMatchesConstraints n c"
  by (simp add: nodeMatchesConstraints_def split: option.split)

lemma lone_inflight_facts:
  assumes "lone_inflight l name (extractConstraints pod) res a" and "demand_of milli pod p = [(res, q)]" and "amount_ok q"
  obtains n where "findEntry l name = Some n" "inflight l = [(name, n)]" "nodes l = []"
    "nodeMatchesConstraints n (extractConstraints pod)" "sint (available n res) = a" "ledger_ok l" "amounts_ok [(res, q)]"
    "eligible n [(res, q)] (extractConstraints pod) \<longleftrightarrow> sint q \<le> a" "\<And>pre. \<not> HasInflightSignal l pre"
proof -
  from assms(1) obtain n where n: "findEntry l name = Some n" "inflight l = [(name, n)]" "nodes l = []"
    "nodeMatchesConstraints n (extractConstraints pod)" "allocatable n \<noteq> []" "sint (available n res) = a" "ledger_ok l"
    by (rule lone_inflight_entry)
  have "amounts_ok [(res, q)]" using assms(3) by (simp add: amounts_ok_def wf_gmap_def)
  moreover have "eligible n [(res, q)] (extractConstraints pod) \<longleftrightarrow> sint q \<le> a"
    using n(4,6) by (auto simp: eligible_def)
  moreover have "\<not> HasInflightSignal l pre" for pre using n(2,5) by (simp add: HasInflightSignal_iff)
  ultimately show thesis using that n by blast
qed

lemma lone_inflight_full:
  assumes lone: "lone_inflight l name (extractConstraints pod) res a" and d: "demand_of milli pod p = [(res, q)]"
    and q: "amount_ok q" and full: "a < sint q"
  shows "WaitForNodeReady_Evaluate milli pod l p = (\<lparr>release = True, nodeName = '''', err = None\<rparr>, l)"
proof -
  from lone d q obtain n where n: "inflight l = [(name, n)]" "nodes l = []" "ledger_ok l"
    "eligible n [(res, q)] (extractConstraints pod) \<longleftrightarrow> sint q \<le> a" "\<And>pre. \<not> HasInflightSignal l pre"
    by (rule lone_inflight_facts) blast
  from n(3) show ?thesis
    by (cases rule: WaitForNodeReady_cases [where milli = milli and pod = pod and p = p])
      (use full n in \<open>auto simp: d entries_of_def split: if_splits\<close>)
qed

lemma lone_inflight_room:
  assumes lone: "lone_inflight l name (extractConstraints pod) res a" and d: "demand_of milli pod p = [(res, q)]"
    and q: "amount_ok q" and fits: "sint q \<le> a"
  shows "\<exists>l'. WaitForNodeReady_Evaluate milli pod l p = (\<lparr>release = False, nodeName = '''', err = None\<rparr>, l')
    \<and> lone_inflight l' name (extractConstraints pod) res (a - sint q)"
proof -
  from lone d q obtain n where n: "findEntry l name = Some n" "inflight l = [(name, n)]" "nodes l = []"
    "nodeMatchesConstraints n (extractConstraints pod)" "sint (available n res) = a" "ledger_ok l" and dok: "amounts_ok [(res, q)]"
    and el: "eligible n [(res, q)] (extractConstraints pod) \<longleftrightarrow> sint q \<le> a"
    by (rule lone_inflight_facts) blast
  from n(6) show ?thesis
  proof (cases rule: WaitForNodeReady_cases [where milli = milli and pod = pod and p = p])
    case (nofit e)
    have "\<not> eligible n [(res, q)] (extractConstraints pod)"
      by (rule no_fit [where l = l and e = e and name = name and infl = True])
        (use nofit n dok in \<open>simp_all add: d entries_of_def\<close>)
    with el fits show ?thesis by simp
  next
    case (fit node infl l' n')
    then have node: "node = name" "infl" using n(2,3) by (auto simp: entries_of_def split: if_splits)
    have res: "Reserve l name [(res, q)] = Inr l'" using fit(6) by (simp add: d node)
    then have l': "l' = withEntry l name (\<lambda>n. n\<lparr>reserved := add_reserved [(res, q)] (reserved n)\<rparr>)"
      by (auto simp: Reserve_Inr_iff)
    have "room l' name res = a - sint q"
      using Reserve_room [OF n(6) dok res, of name res] n(1,5) by (simp add: room_def mget_Cons)
    moreover have "ledger_ok l'" by (rule Reserve_ok [OF n(6) dok res])
    ultimately have "lone_inflight l' name (extractConstraints pod) res (a - sint q)"
      using lone n unfolding lone_inflight_def l' by (simp add: withEntry_def madj_def room_def findEntry_def)
    then show ?thesis using fit(7) node by simp
  qed (simp add: d)
qed

definition reevaluate :: "('q \<Rightarrow> int64) \<Rightarrow> 'q Pod \<Rightarrow> PackingProfile \<Rightarrow> NodeLedger \<Rightarrow> NodeLedger" where
  "reevaluate milli pod p l = snd (WaitForNodeReady_Evaluate milli pod l p)"

lemma lone_inflight_iterate:
  assumes "lone_inflight l name (extractConstraints pod) res a"
    and "demand_of milli pod p = [(res, q)]" and "amount_ok q" and "int i * sint q \<le> a"
  shows "lone_inflight ((reevaluate milli pod p ^^ i) l) name (extractConstraints pod) res (a - int i * sint q)"
  using assms(4)
proof (induction i)
  case 0
  then show ?case using assms(1) by simp
next
  case (Suc i)
  have "0 \<le> sint q"
    using assms(3) by (simp add: amount_ok_def)
  then have "lone_inflight ((reevaluate milli pod p ^^ i) l) name (extractConstraints pod) res (a - int i * sint q)"
    and "sint q \<le> a - int i * sint q"
    using Suc by (simp_all add: algebra_simps)
  from lone_inflight_room [OF this(1) assms(2,3) this(2)] show ?case
    by (auto simp: reevaluate_def [of _ _ _ "(_ ^^ _) _"] algebra_simps)
qed


text \<open>Sample objects, with quantities that are their own milli-value, for the instances below.\<close>

definition sample_pod :: "resources \<Rightarrow> int64 Pod" where
  "sample_pod reqs =
     \<lparr>pod_Name = ''web-0'', pod_Namespace = ''default'', pod_Labels = Some [(LabelProfile, ''gpu'')],
      pod_Annotations = None, pod_CreationTimestamp = 1, SchedulingGates = [''kompakt.io/binpack''],
      NodeSelector = [], Tolerations = [], pod_Affinity = None, pod_NodeName = '''', pod_Phase = ''Pending'',
      Containers = [\<lparr>Requests = reqs\<rparr>]\<rparr>"

definition sample_profile :: "string list \<Rightarrow> PackingProfile" where
  "sample_profile rules =
     \<lparr>pp_Name = ''gpu'',
      pp_Spec =
        \<lparr>sp_DemandSource = \<lparr>ds_Type = ''ResourceRequest'', ds_Resources = [''cpu''], AdditionalResources = [],
           ds_Annotation = '''', ds_Unit = ''''\<rparr>,
         sp_CapacitySource = \<lparr>cs_Type = ''NodeAllocatable'', cs_Resources = [], cs_Label = '''',
           PerDeviceCount = None, NodeGroupTemplates = []\<rparr>,
         sp_ReadinessSignal = \<lparr>rs_NodeConditions = [], RequiredLabels = []\<rparr>,
         sp_Rules = map (\<lambda>r. \<lparr>rule_Name = r\<rparr>) rules, ReservationTimeout = ''3m''\<rparr>,
      pp_Status = \<lparr>ActiveGates = 0, InflightNodes = 0, st_ActiveDetectors = [], st_Conditions = []\<rparr>\<rparr>"

lemma sample_demand: "demand_of id (sample_pod [(''cpu'', q)]) (sample_profile rs) = [(''cpu'', q)]"
  by (simp add: ExtractDemand_def extractFromRequests_def add_request_def sample_pod_def sample_profile_def mput_def)

lemma sample_constraints:
  "extractConstraints (sample_pod reqs) = Some \<lparr>con_Tolerations = [], con_NodeSelector = []\<rparr>"
  by (simp add: extractConstraints_def sample_pod_def)

section \<open>Properties\<close>

text \<open>
  The demand of a pod. For every resource, the demand read from the container requests is the
  sum of the containers' milli-values, counted once per occurrence of the resource in the list,
  and a resource is part of the demand exactly if it is listed and some container requests it.
\<close>

theorem demand_is_sum_of_requests:
  "qget (extractFromRequests milli pod rs) k =
     of_nat (count_list rs k) * (\<Sum>c\<leftarrow>Containers pod. requested milli (Requests c) k) \<and>
   (map_of (extractFromRequests milli pod rs) k \<noteq> None \<longleftrightarrow>
     k \<in> set rs \<and> (\<exists>c \<in> set (Containers pod). map_of (Requests c) k \<noteq> None))"
proof -
  have keys: "fst ` set (extractFromRequests milli pod rs) =
      {r \<in> set rs. \<exists>c \<in> set (Containers pod). r \<in> fst ` set (Requests c)}"
    unfolding extractFromRequests_def by (simp add: keys_fold_containers)
  show ?thesis
    unfolding map_of_eq_None_iff keys
    by (simp add: extractFromRequests_def qget_fold_containers)
qed

text \<open>
  C5: \<^verbatim>\<open>WaitForWorkloadPacking\<close>. A pod without demand is released with no target. Otherwise it is
  released exactly if some existing node is eligible for it; the target is then the eligible
  existing node of least remaining slack and the demand is reserved there. A held pod leaves the
  ledger untouched, in-flight nodes play no part, and no error is ever reported.
\<close>

theorem packing_decision:
  fixes milli :: "'q \<Rightarrow> int64"
  assumes "ledger_ok l" and "amounts_ok (demand_of milli pod p)" and "length (demand_of milli pod p) \<le> 3"
  shows "let d = demand_of milli pod p; c = extractConstraints pod in
    case WaitForWorkloadPacking_Evaluate milli pod l p of (v, l') \<Rightarrow>
      err v = None \<and>
      (if d = [] then release v \<and> nodeName v = '''' \<and> l' = l
       else if \<exists>(name, n) \<in> set (nodes l). eligible n d c
       then release v \<and> Reserve l (nodeName v) d = Inr l' \<and>
         (\<exists>n. (nodeName v, n) \<in> set (nodes l) \<and> eligible n d c \<and>
            (\<forall>(name', n') \<in> set (nodes l). eligible n' d c \<longrightarrow> exact_slack n d \<le> exact_slack n' d))
       else \<not> release v \<and> nodeName v = '''' \<and> l' = l)"
  using assms(1)
proof (cases rule: WaitForWorkloadPacking_cases [where milli = milli and pod = pod and p = p])
  case empty
  then show ?thesis by simp
next
  case (hold e)
  then show ?thesis
    using no_existing_fit [OF assms hold(2)] by (auto simp: Let_def)
next
  case (place node l' n)
  have "\<exists>n. (node, n) \<in> set (nodes l) \<and> eligible n (demand_of milli pod p) (extractConstraints pod) \<and>
      (\<forall>(name', n') \<in> set (nodes l). eligible n' (demand_of milli pod p) (extractConstraints pod) \<longrightarrow>
         exact_slack n (demand_of milli pod p) \<le> exact_slack n' (demand_of milli pod p))"
    by (rule best_existing_fit [OF assms place(2)]) blast
  with place show ?thesis
    by (simp add: Let_def) blast
qed

theorem packing_decision_witness:
  "let l = AddNode (AddNode New ''big'' [(''cpu'', 8000)] None []) ''small'' [(''cpu'', 2000)] None [];
       pod = sample_pod [(''cpu'', 1500)]; p = sample_profile [''WaitForWorkloadPacking'']
   in ledger_ok l \<and> amounts_ok (demand_of id pod p) \<and> length (demand_of id pod p) \<le> 3 \<and>
      (case WaitForWorkloadPacking_Evaluate id pod l p of (v, l') \<Rightarrow>
         release v \<and> nodeName v = ''small'' \<and> Reserve l ''small'' [(''cpu'', 1500)] = Inr l')"
proof -
  let ?l = "AddNode (AddNode New ''big'' [(''cpu'', 8000)] None []) ''small'' [(''cpu'', 2000)] None []"
  let ?pod = "sample_pod [(''cpu'', 1500)]" and ?p = "sample_profile [''WaitForWorkloadPacking'']"
  have l: "ledger_ok ?l" and d: "amounts_ok (demand_of id ?pod ?p)" and len: "length (demand_of id ?pod ?p) \<le> 3"
    by (simp_all add: ledger_eval sample_demand)
  have some: "\<exists>(name, n) \<in> set (nodes ?l). eligible n [(''cpu'', 1500)] (extractConstraints ?pod)"
    by (simp add: ledger_eval sample_constraints)
  have "nodeName (fst (WaitForWorkloadPacking_Evaluate id ?pod ?l ?p)) = ''small''"
    unfolding WaitForWorkloadPacking_Evaluate_def sample_demand sample_constraints
    by (simp add: FindFitExisting_def check_existing_def MaxInt64_def ledger_eval)
  then show ?thesis
    using packing_decision [OF l d len] some l d len
    by (auto simp: Let_def sample_demand split: prod.splits)
qed

text \<open>
  A node is best for a demand if it is eligible and no eligible node has less slack, an existing node
  going before an in-flight one of the same slack.
\<close>

definition best_node ::
  "NodeLedger \<Rightarrow> resources \<Rightarrow> PodSchedulingConstraints option \<Rightarrow> bool \<Rightarrow> string \<Rightarrow> bool" where
  "best_node l d c infl name \<longleftrightarrow>
     (\<exists>n. (name, n) \<in> set (entries_of l infl) \<and> eligible n d c \<and>
        (\<forall>infl'. \<forall>(name', n') \<in> set (entries_of l infl'). eligible n' d c \<longrightarrow>
           exact_slack n d < exact_slack n' d \<or> exact_slack n d = exact_slack n' d \<and> (infl \<longrightarrow> infl')))"

text \<open>
  C6: \<^verbatim>\<open>WaitForNodeReady\<close> takes its three-state decision. If no node at all is eligible, the pod
  passes through to the autoscaler, unless an in-flight node of this profile with unknown capacity
  makes it wait. If the best eligible node is in flight the pod waits with its demand reserved
  there; if it is an existing node the pod is released onto it with its demand reserved. The
  branches for a failed reservation are never taken.
\<close>

theorem node_ready_decision:
  fixes milli :: "'q \<Rightarrow> int64"
  assumes "ledger_ok l" and "amounts_ok (demand_of milli pod p)" and "length (demand_of milli pod p) \<le> 3"
    and "demand_of milli pod p \<noteq> []"
  shows "let d = demand_of milli pod p; c = extractConstraints pod in
    case WaitForNodeReady_Evaluate milli pod l p of (v, l') \<Rightarrow>
      err v = None \<and>
      (if \<exists>infl. \<exists>(name, n) \<in> set (entries_of l infl). eligible n d c
       then \<exists>infl name. best_node l d c infl name \<and> Reserve l name d = Inr l' \<and>
              release v = (\<not> infl) \<and> nodeName v = (if infl then '''' else name)
       else release v = (\<not> HasInflightSignal l (pp_Name p @ ''/'')) \<and> nodeName v = '''' \<and> l' = l)"
  using assms(1)
proof (cases rule: WaitForNodeReady_cases [where milli = milli and pod = pod and p = p])
  case empty
  with assms(4) show ?thesis by simp
next
  case (nofit e)
  then show ?thesis
    using no_fit [OF assms(1-3) nofit(2)] by (auto simp: Let_def)
next
  case (fit node infl l' n)
  have "best_node l (demand_of milli pod p) (extractConstraints pod) infl node"
    by (rule best_fit [OF assms(1-3) fit(2)]) (auto simp: best_node_def)
  moreover have "\<exists>infl. \<exists>(name, n) \<in> set (entries_of l infl). eligible n (demand_of milli pod p) (extractConstraints pod)"
    using fit(3,4) by blast
  ultimately show ?thesis
    using fit(5-7) by (simp only: Let_def prod.case if_True) auto
qed

theorem node_ready_decision_witness:
  "let l = AddInflightNode New ''gpu/new'' [(''cpu'', 2000)] None [];
       pod = sample_pod [(''cpu'', 1500)]; p = sample_profile [''WaitForNodeReady'']
   in ledger_ok l \<and> amounts_ok (demand_of id pod p) \<and> length (demand_of id pod p) \<le> 3 \<and> demand_of id pod p \<noteq> [] \<and>
      (case WaitForNodeReady_Evaluate id pod l p of (v, l') \<Rightarrow>
         \<not> release v \<and> nodeName v = '''' \<and> Reserve l ''gpu/new'' [(''cpu'', 1500)] = Inr l')"
proof -
  let ?l = "AddInflightNode New ''gpu/new'' [(''cpu'', 2000)] None []"
  let ?pod = "sample_pod [(''cpu'', 1500)]" and ?p = "sample_profile [''WaitForNodeReady'']"
  have h: "ledger_ok ?l" "amounts_ok (demand_of id ?pod ?p)" "length (demand_of id ?pod ?p) \<le> 3"
    "demand_of id ?pod ?p \<noteq> []"
    by (simp_all add: ledger_eval sample_demand)
  have some: "\<exists>infl. \<exists>(name, n) \<in> set (entries_of ?l infl). eligible n [(''cpu'', 1500)] (extractConstraints ?pod)"
    by (rule exI [of _ True]) (simp add: ledger_eval sample_constraints)
  have only: "infl \<and> name = ''gpu/new''" if "best_node ?l d c infl name" for d c infl name
    using that by (auto simp: best_node_def ledger_eval split: if_splits)
  show ?thesis
    using node_ready_decision [OF h] some h only
    by (auto simp: Let_def sample_demand split: prod.splits)
qed

text \<open>
  Whatever rules are evaluated, for whatever pods and in whatever order, the demands of the
  pods released onto a node never add up to more than was free on it, and the ledger stays well
  formed.
\<close>

theorem rules_never_oversubscribe:
  fixes milli :: "'q \<Rightarrow> int64"
  assumes "ledger_ok l" and "list_all (\<lambda>(_, pod, p). amounts_ok (demand_of milli pod p)) es"
    and "0 \<le> room l n k" and "n \<noteq> ''''"
  shows "case run_rules (map_of (Registry milli)) (demand_of milli) l es of (l', ps) \<Rightarrow>
    ledger_ok l' \<and> 0 \<le> room l' n k \<and> booked ps n k + room l' n k \<le> room l n k"
proof (cases "run_rules (map_of (Registry milli)) (demand_of milli) l es")
  case (Pair l' ps)
  show ?thesis
    using std.run_rules_account [OF assms(1,2) Pair assms(3,4)] by (simp add: Pair)
qed

theorem rules_never_oversubscribe_witness:
  "let l = AddNode New ''node-1'' [(''cpu'', 4000)] None [];
       e = (''WaitForWorkloadPacking'', sample_pod [(''cpu'', 3000)], sample_profile [''WaitForWorkloadPacking'']);
       e' = (''WaitForNodeReady'', sample_pod [(''cpu'', 1000)], sample_profile [''WaitForNodeReady''])
   in ledger_ok l \<and> (case run_rules (map_of (Registry id)) (demand_of id) l [e, e, e'] of (l', ps) \<Rightarrow>
        ps = [(''node-1'', [(''cpu'', 3000)]), (''node-1'', [(''cpu'', 1000)])] \<and>
        booked ps ''node-1'' ''cpu'' + room l' ''node-1'' ''cpu'' \<le> room l ''node-1'' ''cpu'')"
proof -
  let ?l = "AddNode New ''node-1'' [(''cpu'', 4000)] None []"
  let ?e = "(''WaitForWorkloadPacking'', sample_pod [(''cpu'', 3000)], sample_profile [''WaitForWorkloadPacking''])"
  let ?e' = "(''WaitForNodeReady'', sample_pod [(''cpu'', 1000)], sample_profile [''WaitForNodeReady''])"
  have h: "ledger_ok ?l" "list_all (\<lambda>(_, pod, p). amounts_ok (demand_of id pod p)) [?e, ?e, ?e']"
    "0 \<le> room ?l ''node-1'' ''cpu''" "''node-1'' \<noteq> ''''"
    by (simp_all add: ledger_eval sample_demand)
  have "snd (run_rules (map_of (Registry id)) (demand_of id) ?l [?e, ?e, ?e']) =
      [(''node-1'', [(''cpu'', 3000)]), (''node-1'', [(''cpu'', 1000)])]"
    by (simp add: Registry_lookup WaitForWorkloadPacking_def WaitForNodeReady_def WaitForWorkloadPacking_Evaluate_def
        WaitForNodeReady_Evaluate_def sample_demand sample_constraints FindFitExisting_def check_existing_def
        FindFit_def check_fit_def MaxInt64_def ledger_eval)
  then show ?thesis
    using rules_never_oversubscribe [OF h] h(1) by (auto simp: Let_def split: prod.splits)
qed

text \<open>
  C34: a held pod reserves again each time it is evaluated. With a single in-flight node that has
  \<open>a\<close> free of the one resource the pod wants \<open>q\<close> of, the first \<open>a div q\<close> evaluations of
  \<^verbatim>\<open>WaitForNodeReady\<close> hold the pod and each takes \<open>q\<close> more; the next one finds no room and
  releases the pod with no target although the node could take it.
\<close>

theorem held_pod_is_released_by_its_own_reservations:
  fixes milli :: "'q \<Rightarrow> int64"
  assumes "lone_inflight l name (extractConstraints pod) res a" and "demand_of milli pod p = [(res, q)]"
    and "amount_ok q" and "0 < sint q" and "0 \<le> a"
  shows "\<forall>i \<le> nat (a div sint q).
    fst (WaitForNodeReady_Evaluate milli pod ((reevaluate milli pod p ^^ i) l) p) =
      \<lparr>release = (i = nat (a div sint q)), nodeName = '''', err = None\<rparr>"
proof (intro allI impI)
  fix i
  assume i: "i \<le> nat (a div sint q)"
  then have "int i * sint q \<le> (a div sint q) * sint q"
    using assms(4,5) i by (intro mult_right_mono) (simp_all add: pos_imp_zdiv_nonneg_iff le_nat_iff)
  also have down: "\<dots> \<le> a"
    using div_mult_mod_eq [of a "sint q"] pos_mod_sign [OF assms(4), of a] by linarith
  finally have le: "int i * sint q \<le> a" .
  have lone: "lone_inflight ((reevaluate milli pod p ^^ i) l) name (extractConstraints pod) res (a - int i * sint q)"
    using assms(1-3) le by (rule lone_inflight_iterate)
  have "a - int i * sint q < sint q \<longleftrightarrow> i = nat (a div sint q)"
  proof
    assume "i = nat (a div sint q)"
    then have "int i * sint q = a - a mod sint q"
      using assms(4,5) by (simp add: pos_imp_zdiv_nonneg_iff minus_mod_eq_div_mult)
    then show "a - int i * sint q < sint q"
      using assms(4) by simp
  next
    assume "a - int i * sint q < sint q"
    then have "(a div sint q) * sint q < (int i + 1) * sint q"
      using down by (simp add: algebra_simps)
    then have "a div sint q < int i + 1"
      using assms(4) by (simp add: mult_less_cancel_right)
    with i show "i = nat (a div sint q)" by linarith
  qed
  then show "fst (WaitForNodeReady_Evaluate milli pod ((reevaluate milli pod p ^^ i) l) p) =
      \<lparr>release = (i = nat (a div sint q)), nodeName = '''', err = None\<rparr>"
    using lone_inflight_full [OF lone assms(2,3)] lone_inflight_room [OF lone assms(2,3)] by (cases "a - int i * sint q < sint q") auto
qed

theorem held_pod_is_released_by_its_own_reservations_witness:
  "let l = AddInflightNode New ''gpu/new'' [(''cpu'', 4000)] None [];
       pod = sample_pod [(''cpu'', 1500)]; p = sample_profile [''WaitForNodeReady'']
   in \<not> release (fst (WaitForNodeReady_Evaluate id pod l p)) \<and>
      \<not> release (fst (WaitForNodeReady_Evaluate id pod ((reevaluate id pod p ^^ 1) l) p)) \<and>
      release (fst (WaitForNodeReady_Evaluate id pod ((reevaluate id pod p ^^ 2) l) p))"
proof -
  let ?l = "AddInflightNode New ''gpu/new'' [(''cpu'', 4000)] None []"
  let ?pod = "sample_pod [(''cpu'', 1500)]" and ?p = "sample_profile [''WaitForNodeReady'']"
  have h: "lone_inflight ?l ''gpu/new'' (extractConstraints ?pod) ''cpu'' 4000"
    "demand_of id ?pod ?p = [(''cpu'', 1500)]" "amount_ok (1500 :: int64)" "0 < sint (1500 :: int64)"
    "(0 :: int) \<le> 4000"
    by (simp_all add: lone_inflight_def ledger_eval sample_demand sample_constraints)
  note all = held_pod_is_released_by_its_own_reservations [OF h, rule_format]
  show ?thesis
    using all [of 0] all [of 1] all [of 2] by (simp add: Let_def)
qed

lemma available_bounds:
  assumes "entry_ok e"
  shows "sint (available e k) \<le> 2 ^ 61" and "- (2 ^ 62) \<le> sint (available e k)"
  using sint_available [OF assms, of k] assms amounts_ok_qget [of "allocatable e" k] amounts_ok_qget [of "used e" k]
    amounts_ok_qget [of "reserved e" k]
  by (auto simp: entry_ok_def amount_ok_def)

lemma available_minus_negative:
  assumes "entry_ok e" and "- (2 ^ 61) \<le> sint q" and "sint q < 0"
  shows "sint (available e k - q) = sint (available e k) - sint q"
  using available_bounds [OF assms(1), of k] assms(2,3) by (intro sint_diff_exact) (simp add: in_int64_def)

text \<open>
  C40: a negative demand creates capacity. A demand annotation is accepted with a sign. A pod that is annotated with a
  negative number is released by \<^verbatim>\<open>WaitForWorkloadPacking\<close> as soon as some existing node admits it and is not overbooked, even
  a node that has nothing of the resource, and the reservation made for it raises the free amount of the node it is
  released onto by the number: a later pod is admitted there that asks for more than was free.
\<close>

theorem negative_demand_adds_capacity:
  fixes milli :: "'q \<Rightarrow> int64"
  assumes "ds_Type (sp_DemandSource (pp_Spec p)) = ''Annotation''" and "ds_Annotation (sp_DemandSource (pp_Spec p)) = k"
    and "map_of (entries (pod_Annotations pod)) k = Some val" and "ParseInt val = (q, None)"
    and "- (2 ^ 61) \<le> sint q" and "sint q < 0"
    and "ledger_ok l" and "(n0, e0) \<in> set (nodes l)" and "nodeMatchesConstraints e0 (extractConstraints pod)"
    and "0 \<le> sint (available e0 k)"
  shows "\<exists>n l' e e'. WaitForWorkloadPacking_Evaluate milli pod l p = (\<lparr>release = True, nodeName = n, err = None\<rparr>, l') \<and>
    findEntry l n = Some e \<and> findEntry l' n = Some e' \<and> allocatable e' = allocatable e \<and>
    sint (available e' k) = sint (available e k) - sint q \<and>
    (\<forall>x c. nodeMatchesConstraints e c \<longrightarrow> sint x \<le> sint (available e k) - sint q \<longrightarrow> eligible e' [(k, x)] c)"
proof -
  have d: "demand_of milli pod p = [(k, q)]"
    using assms(1-4) by (simp add: ExtractDemand_def extractFromAnnotation_def)
  note exact = available_minus_negative [OF _ assms(5,6)]
  have e0: "entry_ok e0" using lookup_existing [OF assms(7,8)] findEntry_ok [OF assms(7)] by blast
  have el: "eligible e0 [(k, q)] (extractConstraints pod)"
    using assms(6,9,10) by (simp add: eligible_def demand_fits_iff)
  have slack0: "slack e0 [(k, q)] \<noteq> MaxInt64"
  proof -
    have "sint (slack e0 [(k, q)]) < 2 ^ 63 - 1"
      using exact [OF e0] available_bounds(1) [OF e0, of k] assms(5) by (simp add: slack_def)
    then show ?thesis by (auto simp: sint_MaxInt64)
  qed
  from assms(7) show ?thesis
  proof (cases rule: WaitForWorkloadPacking_cases [where milli = milli and pod = pod and p = p])
    case (hold x)
    from FindFitExisting_complete [OF hold(2) _ assms(8)] el slack0 no_empty_names [OF assms(7), of False]
    show ?thesis by (simp add: d entries_of_def)
  next
    case (place n l' e)
    have e: "findEntry l n = Some e" "entry_ok e"
      using lookup_existing [OF assms(7) place(3)] findEntry_ok [OF assms(7)] by blast+
    let ?e' = "e\<lparr>reserved := add_reserved [(k, q)] (reserved e)\<rparr>"
    have l': "findEntry l' n = Some ?e'"
      using place(6) e(1) by (auto simp: d Reserve_Inr_iff findEntry_withEntry)
    have "available ?e' k = available e k - q"
      by (simp add: available_reserved_update wf_gmap_def mget_Cons)
    then have free: "sint (available ?e' k) = sint (available e k) - sint q" using exact [OF e(2)] by simp
    have "nodeMatchesConstraints ?e' c = nodeMatchesConstraints e c" for c by (simp add: nodeMatchesConstraints_def split: option.split)
    then show ?thesis
      using place(7) e(1) l' free by (intro exI [of _ n] exI [of _ l'] exI [of _ e] exI [of _ ?e']) (simp add: eligible_def demand_fits_iff)
  qed (simp add: d)
qed

definition annotated_profile :: PackingProfile where
  "annotated_profile = (sample_profile [''WaitForWorkloadPacking''])\<lparr>pp_Spec := (pp_Spec (sample_profile [''WaitForWorkloadPacking'']))
     \<lparr>sp_DemandSource := \<lparr>ds_Type = ''Annotation'', ds_Resources = [], AdditionalResources = [], ds_Annotation = ''slots'', ds_Unit = ''''\<rparr>\<rparr>\<rparr>"

theorem negative_demand_adds_capacity_witness:
  "let l = AddNode New ''node-1'' [(''cpu'', 4000)] None []; pod = (sample_pod [])\<lparr>pod_Annotations := Some [(''slots'', ''-5'')]\<rparr>
   in \<exists>n l' e'. WaitForWorkloadPacking_Evaluate id pod l annotated_profile = (\<lparr>release = True, nodeName = n, err = None\<rparr>, l') \<and>
        findEntry l' n = Some e' \<and> sint (available e' ''slots'') = 5"
proof -
  let ?l = "AddNode New ''node-1'' [(''cpu'', 4000)] None []" and ?pod = "(sample_pod [])\<lparr>pod_Annotations := Some [(''slots'', ''-5'')]\<rparr>"
  let ?e = "\<lparr>allocatable = [(''cpu'', 4000)], used = [], reserved = [], ne_labels = None, ne_taints = []\<rparr>"
  have h: "ds_Type (sp_DemandSource (pp_Spec annotated_profile)) = ''Annotation''"
    "ds_Annotation (sp_DemandSource (pp_Spec annotated_profile)) = ''slots''"
    "map_of (entries (pod_Annotations ?pod)) ''slots'' = Some ''-5''" "ParseInt ''-5'' = (- 5, None)"
    "- (2 ^ 61) \<le> sint (- 5 :: int64)" "sint (- 5 :: int64) < 0" "ledger_ok ?l"
    by (simp_all add: annotated_profile_def ParseInt_def ParseUint_def is_digit_def digit_val_def ledger_eval)
  have n: "(''node-1'', ?e) \<in> set (nodes ?l)" "nodeMatchesConstraints ?e (extractConstraints ?pod)" "0 \<le> sint (available ?e ''slots'')"
    by (simp_all add: ledger_eval sample_pod_def extractConstraints_def)
  have only: "findEntry ?l m = Some e \<Longrightarrow> e = ?e" for m e
    by (auto simp: ledger_eval findEntry_def split: if_splits)
  show ?thesis
    using negative_demand_adds_capacity [OF h n, of id] only unfolding Let_def by (fastforce simp: available_def mget_def)
qed

end
