(* ===== verification/Inflight.thy ===== *)
theory Inflight
  imports Rules
begin

text \<open>
  The in-flight node detectors (\<^verbatim>\<open>src/internal/inflight\<close>): the cluster-autoscaler status parser
  (\<^verbatim>\<open>detector.go\<close>), the GOATScaler event reader (\<^verbatim>\<open>goatscaler.go\<close>) and the not-ready-node fallback
  (\<^verbatim>\<open>notready.go\<close>). The API server is the argument \<open>rd :: 'q Reader\<close>, whose fields are the three
  reads the detectors make; the current time is the argument \<open>now\<close>. The Go interface
  \<^verbatim>\<open>Detector\<close> has three implementations, which are the constructors of \<open>Detector\<close>; \<^verbatim>\<open>Detect\<close>
  returns the nodes or an error and the detector as it leaves it (GOATScaler keeps a flag).

  The regular expression of \<^verbatim>\<open>goatscaler.go\<close> is a list of literals and greedy character-class
  groups; \<open>match_here\<close> and \<open>find_match\<close> give it the leftmost-first semantics of Go's \<^verbatim>\<open>regexp\<close>. A
  byte of a multi-byte character is neither a blank nor a newline, so matching bytes and matching
  characters agree for these classes.
\<close>

section \<open>Model\<close>

record InflightNode =
  in_Name :: string
  in_Allocatable :: resources
  in_Labels :: "smap option"
  in_InstanceType :: string
  in_DetectedAt :: time

record 'q Reader =
  get_ca_status :: "api_error + smap option"
  list_events :: "string option \<Rightarrow> api_error + Event list"
  list_nodes :: "api_error + 'q Node list"

subsection \<open>Cluster autoscaler\<close>

definition extractValue :: "string \<Rightarrow> string \<Rightarrow> string" where
  "extractValue s pre =
     (case Index s pre of
        None \<Rightarrow> ''''
      | Some idx \<Rightarrow> TrimSpace (drop (idx + length pre) s))"

fun parse_health_parts :: "string list \<Rightarrow> int64 \<times> int64 \<Rightarrow> int64 \<times> int64" where
  "parse_health_parts [] (ready, target) = (ready, target)"
| "parse_health_parts (p # parts) (ready, target) =
     (let p' = TrimSpace p;
          ready' = (if Contains p' ''ready='' then Atoi (extractValue p' ''ready='') else ready);
          target' = (if Contains p' ''cloudProviderTarget=''
                     then Atoi (extractValue p' ''cloudProviderTarget='') else target)
      in parse_health_parts parts (ready', target'))"

definition parseHealthLine :: "string \<Rightarrow> int64 \<times> int64" where
  "parseHealthLine line = parse_health_parts (Split line CHR '','') (0, 0)"

definition pending_node :: "string \<Rightarrow> nat \<Rightarrow> InflightNode" where
  "pending_node currentGroup i =
     \<lparr>in_Name = currentGroup @ ''-pending-'' @ Itoa i, in_Allocatable = [], in_Labels = None,
      in_InstanceType = '''', in_DetectedAt = 0\<rparr>"

fun parse_ca_lines :: "string list \<Rightarrow> string \<Rightarrow> InflightNode list \<Rightarrow> InflightNode list" where
  "parse_ca_lines [] currentGroup ns = ns"
| "parse_ca_lines (l # ls) currentGroup ns =
     (let line = TrimSpace l in
      if HasPrefix line ''Name:''
      then parse_ca_lines ls (TrimSpace (TrimPrefix line ''Name:'')) ns
      else if HasPrefix line ''Health:'' \<and> currentGroup \<noteq> '''' then
        (let (ready, target) = parseHealthLine line;
             pending = target - ready
         in parse_ca_lines ls '''' (ns @ map (pending_node currentGroup) [0..<nat (sint pending)]))
      else parse_ca_lines ls currentGroup ns)"

definition parseCAStatus :: "string \<Rightarrow> InflightNode list" where
  "parseCAStatus status = parse_ca_lines (Split status CHR 0x0A) '''' []"

definition ClusterAutoscaler_Detect :: "'q Reader \<Rightarrow> string + InflightNode list" where
  "ClusterAutoscaler_Detect rd =
     (case get_ca_status rd of
        Inl _ \<Rightarrow> Inr []
      | Inr data \<Rightarrow>
          (case map_of (entries data) ''status'' of
             None \<Rightarrow> Inr []
           | Some status \<Rightarrow> Inr (parseCAStatus status)))"

subsection \<open>GOATScaler\<close>

datatype pat = PLit string | PPlus "char \<Rightarrow> bool"

primrec first_some :: "('a \<Rightarrow> 'b option) \<Rightarrow> 'a list \<Rightarrow> 'b option" where
  "first_some f [] = None"
| "first_some f (x # xs) = (case f x of Some y \<Rightarrow> Some y | None \<Rightarrow> first_some f xs)"

primrec match_here :: "pat list \<Rightarrow> string \<Rightarrow> string list option" where
  "match_here [] = (\<lambda>s. Some [])"
| "match_here (p # ps) = (\<lambda>s.
     case p of
       PLit l \<Rightarrow> if HasPrefix s l then match_here ps (drop (length l) s) else None
     | PPlus c \<Rightarrow>
         first_some (\<lambda>n. map_option (Cons (take n s)) (match_here ps (drop n s)))
           (rev [1..<Suc (length (takeWhile c s))]))"

fun find_match :: "pat list \<Rightarrow> string \<Rightarrow> string list option" where
  "find_match ps s =
     (case match_here ps s of
        Some m \<Rightarrow> Some m
      | None \<Rightarrow> (case s of [] \<Rightarrow> None | _ # s' \<Rightarrow> find_match ps s'))"

declare find_match.simps [simp del]

definition non_space :: "char \<Rightarrow> bool" where
  "non_space c \<longleftrightarrow> c \<notin> set [CHR 0x09, CHR 0x0A, CHR 0x0C, CHR 0x0D, CHR '' '']"

definition provisionNodeRegex :: "pat list" where
  "provisionNodeRegex =
     [PLit ''Provision node '', PPlus non_space, PLit '' in Zone: '', PPlus non_space,
      PLit '' with InstanceType: '', PPlus non_space, PLit '', Triggered time '', PPlus (\<lambda>c. c \<noteq> CHR 0x0A)]"

text \<open>The submatches of the groups; the whole match, which Go puts first, is not read.\<close>

definition parseProvisionNodeMessage :: "string \<Rightarrow> (string \<times> string \<times> string) option" where
  "parseProvisionNodeMessage msg =
     (case find_match provisionNodeRegex msg of
        Some (node # zone # instanceType # _) \<Rightarrow> Some (node, zone, instanceType)
      | _ \<Rightarrow> None)"

definition goatscalerComponent :: string where "goatscalerComponent = ''GOATScaler''"
definition provisionNodeReason :: string where "provisionNodeReason = ''ProvisionNode''"
definition notTriggerScaleUpReason :: string where "notTriggerScaleUpReason = ''NotTriggerScaleUp''"
definition noStockSignal :: string where "noStockSignal = ''NodePool NoStock''"
definition DefaultEventMaxAge :: duration where "DefaultEventMaxAge = 15 * Minute"

record GOATScalerDetector =
  EventMaxAge :: duration
  NoStockDetected :: bool

definition event_time :: "Event \<Rightarrow> time" where
  "event_time ev = (if IsZero (ev_LastTimestamp ev) then ev_CreationTimestamp ev else ev_LastTimestamp ev)"

definition goat_event ::
  "time \<Rightarrow> Event \<Rightarrow> InflightNode list \<times> (string, bool) gmap \<times> bool
   \<Rightarrow> InflightNode list \<times> (string, bool) gmap \<times> bool" where
  "goat_event cutoff ev st =
     (case st of (ns, seen, noStock) \<Rightarrow>
        if ev_Component ev \<noteq> goatscalerComponent then st
        else
          let evTime = event_time ev in
          if evTime < cutoff then st
          else if ev_Reason ev = notTriggerScaleUpReason \<and> Contains (ev_Message ev) noStockSignal
          then (ns, seen, True)
          else if ev_Reason ev \<noteq> provisionNodeReason then st
          else
            (case parseProvisionNodeMessage (ev_Message ev) of
               None \<Rightarrow> st
             | Some (node, _, instanceType) \<Rightarrow>
                 if mget False seen node then st
                 else (ns @ [\<lparr>in_Name = node, in_Allocatable = [], in_Labels = None,
                              in_InstanceType = instanceType, in_DetectedAt = evTime\<rparr>],
                       mput node True seen, noStock)))"

definition goat_events :: "'q Reader \<Rightarrow> Event list option" where
  "goat_events rd =
     (case list_events rd (Some provisionNodeReason) of
        Inr evs \<Rightarrow> Some evs
      | Inl _ \<Rightarrow> (case list_events rd None of Inr evs \<Rightarrow> Some evs | Inl _ \<Rightarrow> None))"

definition GOATScaler_Detect ::
  "time \<Rightarrow> GOATScalerDetector \<Rightarrow> 'q Reader \<Rightarrow> (string + InflightNode list) \<times> GOATScalerDetector" where
  "GOATScaler_Detect now d rd =
     (case goat_events rd of
        None \<Rightarrow> (Inr [], d)
      | Some evs \<Rightarrow>
          let maxAge = (if EventMaxAge d = 0 then DefaultEventMaxAge else EventMaxAge d);
              cutoff = Add now (- maxAge);
              (ns, _, noStock) = fold (goat_event cutoff) evs ([], [], False)
          in (Inr ns, d\<lparr>NoStockDetected := noStock\<rparr>))"

subsection \<open>Nodes that have never been ready\<close>

definition neverReadyThreshold :: duration where "neverReadyThreshold = 10 * Second"
definition maxNotReadyAge :: duration where "maxNotReadyAge = 15 * Minute"
definition instanceTypeLabel :: string where "instanceTypeLabel = ''node.kubernetes.io/instance-type''"

fun never_ready_loop :: "time \<Rightarrow> NodeCondition list \<Rightarrow> bool" where
  "never_ready_loop created [] = True"
| "never_ready_loop created (c # cs) =
     (if nc_Type c \<noteq> ''Ready'' then never_ready_loop created cs
      else if nc_Status c = ''True'' then False
      else
        let delta = Sub (nc_LastTransitionTime c) created;
            delta' = (if sint delta < 0 then - delta else delta)
        in sint delta' \<le> sint neverReadyThreshold)"

definition isNeverReady :: "'q Node \<Rightarrow> bool" where
  "isNeverReady node = never_ready_loop (node_CreationTimestamp node) (node_Conditions node)"

definition milli_values :: "('q \<Rightarrow> int64) \<Rightarrow> (string, 'q) gmap \<Rightarrow> resources" where
  "milli_values milli m = fold (\<lambda>(res, qty) alloc. mput res (milli qty) alloc) m []"

definition not_ready_inflight :: "('q \<Rightarrow> int64) \<Rightarrow> 'q Node \<Rightarrow> InflightNode" where
  "not_ready_inflight milli node =
     \<lparr>in_Name = node_Name node, in_Allocatable = milli_values milli (node_Allocatable node),
      in_Labels = Some (copy_into (entries (node_Labels node)) []),
      in_InstanceType = (case node_Labels node of None \<Rightarrow> '''' | Some m \<Rightarrow> mget '''' m instanceTypeLabel),
      in_DetectedAt = node_CreationTimestamp node\<rparr>"

fun not_ready_loop :: "('q \<Rightarrow> int64) \<Rightarrow> time \<Rightarrow> 'q Node list \<Rightarrow> InflightNode list \<Rightarrow> InflightNode list" where
  "not_ready_loop milli now [] ns = ns"
| "not_ready_loop milli now (node # items) ns =
     (if \<not> isNeverReady node then not_ready_loop milli now items ns
      else if sint maxNotReadyAge < sint (Since now (node_CreationTimestamp node))
      then not_ready_loop milli now items ns
      else not_ready_loop milli now items (ns @ [not_ready_inflight milli node]))"

definition NotReadyNode_Detect ::
  "('q \<Rightarrow> int64) \<Rightarrow> time \<Rightarrow> 'q Reader \<Rightarrow> string + InflightNode list" where
  "NotReadyNode_Detect milli now rd =
     (case list_nodes rd of
        Inl _ \<Rightarrow> Inr []
      | Inr items \<Rightarrow> Inr (not_ready_loop milli now items []))"

subsection \<open>The detector interface\<close>

datatype Detector = ClusterAutoscaler | GOATScaler GOATScalerDetector | NotReadyNodes

primrec detector_Name :: "Detector \<Rightarrow> string" where
  "detector_Name ClusterAutoscaler = ''cluster-autoscaler''"
| "detector_Name (GOATScaler _) = ''goatscaler''"
| "detector_Name NotReadyNodes = ''not-ready-nodes''"

primrec Detect ::
  "('q \<Rightarrow> int64) \<Rightarrow> time \<Rightarrow> 'q Reader \<Rightarrow> Detector \<Rightarrow> (string + InflightNode list) \<times> Detector" where
  "Detect milli now rd ClusterAutoscaler = (ClusterAutoscaler_Detect rd, ClusterAutoscaler)"
| "Detect milli now rd (GOATScaler d) =
     (case GOATScaler_Detect now d rd of (r, d') \<Rightarrow> (r, GOATScaler d'))"
| "Detect milli now rd NotReadyNodes = (NotReadyNode_Detect milli now rd, NotReadyNodes)"


section \<open>Lemmas\<close>

subsection \<open>Status lines\<close>

lemma extractValue_number:
  "Index s pre = Some i \<Longrightarrow> length s = i + length pre \<Longrightarrow> extractValue (s @ Itoa n) pre = Itoa n"
  by (simp add: extractValue_def Index_append)

lemma Contains_number: "Contains (s @ Itoa n) (p @ ''='') \<longleftrightarrow> Contains s (p @ ''='')"
  by (intro Contains_append_other) (simp_all add: Itoa_no_other)

lemma TrimSpace_number:
  "s \<noteq> [] \<Longrightarrow> plain_char (hd s) \<Longrightarrow> TrimSpace (s @ Itoa n) = s @ Itoa n"
  using Itoa_digits [of "last (Itoa n)" n] by (intro TrimSpace_plain) (simp_all add: plain_char_digit)

definition health_line :: "nat \<Rightarrow> nat \<Rightarrow> string" where
  "health_line r t = ''Health: ready='' @ Itoa r @ '', cloudProviderTarget='' @ Itoa t"

lemma parseHealthLine_health_line: "parseHealthLine (health_line r t) = (Atoi (Itoa r), Atoi (Itoa t))"
proof -
  let ?p = "''Health: ready='' @ Itoa r" and ?q = "''cloudProviderTarget='' @ Itoa t"
  have split: "Split (health_line r t) CHR '','' = [?p, CHR '' '' # ?q]"
    using Split_append_sep [of "CHR '',''" ?p "CHR '' '' # ?q"] Split_no_sep [of "CHR '',''" "CHR '' '' # ?q"]
    by (simp add: health_line_def Itoa_no_other)
  have trim: "TrimSpace ?p = ?p" "TrimSpace (CHR '' '' # ?q) = ?q"
    using TrimSpace_number [of "''Health: ready=''" r] TrimSpace_number [of "''cloudProviderTarget=''" t]
    by (simp_all add: TrimSpace_blank plain_char_def)
  have "Contains ?p ''ready=''" "\<not> Contains ?p ''cloudProviderTarget=''"
    "\<not> Contains ?q ''ready=''" "Contains ?q ''cloudProviderTarget=''"
    using Contains_number [of "''Health: ready=''" r "''ready''"]
      Contains_number [of "''Health: ready=''" r "''cloudProviderTarget''"]
      Contains_number [of "''cloudProviderTarget=''" t "''ready''"]
      Contains_number [of "''cloudProviderTarget=''" t "''cloudProviderTarget''"]
    by (simp_all add: Contains_def Index.simps HasPrefix_def)
  moreover have "extractValue ?p ''ready='' = Itoa r" "extractValue ?q ''cloudProviderTarget='' = Itoa t"
    using extractValue_number [of "''Health: ready=''" "''ready=''" 8 r]
      extractValue_number [of "''cloudProviderTarget=''" "''cloudProviderTarget=''" 0 t]
    by (simp_all add: Index.simps HasPrefix_def)
  ultimately show ?thesis
    unfolding parseHealthLine_def split by (simp only: parse_health_parts.simps trim Let_def if_True if_False)
qed


text \<open>The status text of a list of node groups \<open>(name, ready, target)\<close>, indented by \<open>k\<close> blanks.\<close>

definition group_lines :: "nat \<Rightarrow> string \<times> nat \<times> nat \<Rightarrow> string list" where
  "group_lines k g = (case g of (name, r, t) \<Rightarrow>
     [replicate k CHR '' '' @ ''Name: '' @ name, replicate k CHR '' '' @ health_line r t])"

definition render_status :: "nat \<Rightarrow> (string \<times> nat \<times> nat) list \<Rightarrow> string" where
  "render_status k gs = Join (concat (map (group_lines k) gs)) [CHR 0x0A]"

definition valid_group :: "string \<times> nat \<times> nat \<Rightarrow> bool" where
  "valid_group g \<longleftrightarrow> (case g of (name, r, t) \<Rightarrow>
     name \<noteq> [] \<and> plain_char (hd name) \<and> plain_char (last name) \<and> CHR 0x0A \<notin> set name \<and>
     r < 2 ^ 63 \<and> t < 2 ^ 63)"

definition pending_nodes :: "string \<times> nat \<times> nat \<Rightarrow> InflightNode list" where
  "pending_nodes g = (case g of (name, r, t) \<Rightarrow> map (pending_node name) [0..<t - r])"

lemma TrimSpace_indent: "TrimSpace (replicate k CHR '' '' @ s) = TrimSpace s"
  by (induction k) (simp_all add: TrimSpace_blank)

lemma sint_pending:
  assumes "r < 2 ^ 63" and "t < 2 ^ 63"
  shows "nat (sint (Atoi (Itoa t) - Atoi (Itoa r))) = t - r"
proof -
  have "sint (Atoi (Itoa t) - Atoi (Itoa r)) = int t - int r"
    using assms by (subst sint_diff_exact) (simp_all add: Atoi_Itoa in_int64_def)
  then show ?thesis by simp
qed

lemma parse_group_lines:
  assumes "valid_group g"
  shows "parse_ca_lines (group_lines k g @ ls) cur ns = parse_ca_lines ls '''' (ns @ pending_nodes g)"
proof -
  obtain name r t where g: "g = (name, r, t)" by (cases g)
  from assms have v: "name \<noteq> []" "plain_char (hd name)" "plain_char (last name)" "r < 2 ^ 63" "t < 2 ^ 63"
    by (simp_all add: valid_group_def g)
  have name: "TrimSpace (''Name: '' @ name) = ''Name: '' @ name" "TrimSpace (CHR '' '' # name) = name"
    using v by (simp_all add: TrimSpace_plain TrimSpace_blank plain_char_def [of "CHR ''N''"])
  have health: "TrimSpace (health_line r t) = health_line r t"
    using TrimSpace_number [of "''Health: ready='' @ Itoa r @ '', cloudProviderTarget=''" t]
    by (simp add: health_line_def plain_char_def)
  have pre: "HasPrefix (''Name: '' @ name) ''Name:''" "TrimPrefix (''Name: '' @ name) ''Name:'' = CHR '' '' # name"
    "\<not> HasPrefix (health_line r t) ''Name:''" "HasPrefix (health_line r t) ''Health:''"
    by (simp_all add: HasPrefix_def TrimPrefix_def health_line_def)
  have "group_lines k g @ ls =
      (replicate k CHR '' '' @ ''Name: '' @ name) # (replicate k CHR '' '' @ health_line r t) # ls"
    by (simp add: g group_lines_def)
  then show ?thesis
    by (simp only: parse_ca_lines.simps TrimSpace_indent name health Let_def pre if_True if_False v(1) simp_thms
        parseHealthLine_health_line prod.case sint_pending [OF v(4,5)] pending_nodes_def g)
qed

lemma parse_groups:
  "list_all valid_group gs \<Longrightarrow>
   parse_ca_lines (concat (map (group_lines k) gs)) '''' ns = ns @ concat (map pending_nodes gs)"
  by (induction gs arbitrary: ns) (simp_all add: parse_group_lines)

subsection \<open>The provision message\<close>

text \<open>The text a list of patterns stands for, given the text of its groups.\<close>

fun fill :: "pat list \<Rightarrow> string list \<Rightarrow> string" where
  "fill [] ms = []"
| "fill (PLit l # ps) ms = l @ fill ps ms"
| "fill (PPlus c # ps) [] = []"
| "fill (PPlus c # ps) (m # ms) = m @ fill ps ms"

fun groups_ok :: "pat list \<Rightarrow> string list \<Rightarrow> bool" where
  "groups_ok [] ms \<longleftrightarrow> ms = []"
| "groups_ok (PLit l # ps) ms \<longleftrightarrow> groups_ok ps ms"
| "groups_ok (PPlus c # ps) [] \<longleftrightarrow> False"
| "groups_ok (PPlus c # ps) (m # ms) \<longleftrightarrow> m \<noteq> [] \<and> list_all c m \<and> groups_ok ps ms"

lemma first_some_SomeD: "first_some f xs = Some y \<Longrightarrow> \<exists>x \<in> set xs. f x = Some y"
  by (induction xs) (auto split: option.splits)

lemma list_all_take_takeWhile: "n \<le> length (takeWhile c s) \<Longrightarrow> list_all c (take n s)"
  by (induction s arbitrary: n) (auto simp: take_Cons split: nat.splits if_splits)

lemma first_some_top: "1 \<le> k \<Longrightarrow> f k = Some y \<Longrightarrow> first_some f (rev [1..<Suc k]) = Some y"
  by simp

lemma first_some_next:
  "1 \<le> k \<Longrightarrow> f (Suc k) = None \<Longrightarrow> f k = Some y \<Longrightarrow> first_some f (rev [1..<Suc (Suc k)]) = Some y"
  by simp

lemma match_here_sound:
  "match_here ps s = Some ms \<Longrightarrow> groups_ok ps ms \<and> (\<exists>rest. s = fill ps ms @ rest)"
proof (induction ps arbitrary: s ms)
  case Nil
  then show ?case by simp
next
  case (Cons p ps)
  show ?case
  proof (cases p)
    case (PLit l)
    with Cons.prems have "HasPrefix s l" "match_here ps (drop (length l) s) = Some ms"
      by (simp_all split: if_splits)
    with Cons.IH [of "drop (length l) s" ms] PLit show ?thesis
      by (auto simp: HasPrefix_iff)
  next
    case (PPlus c)
    with Cons.prems obtain n ms' where n: "1 \<le> n" "n \<le> length (takeWhile c s)"
      and m: "match_here ps (drop n s) = Some ms'" "ms = take n s # ms'"
      by (auto dest!: first_some_SomeD)
    have ne: "take n s \<noteq> []"
      using n length_takeWhile_le [of c s] by auto
    from Cons.IH [OF m(1)] obtain rest where ih: "groups_ok ps ms'" "drop n s = fill ps ms' @ rest"
      by blast
    then have "s = (take n s @ fill ps ms') @ rest"
      using append_take_drop_id [of n s] by simp
    with ih(1) ne list_all_take_takeWhile [OF n(2)] show ?thesis
      unfolding PPlus m(2) fill.simps groups_ok.simps by blast
  qed
qed

lemma find_match_sound:
  "find_match ps s = Some ms \<Longrightarrow> groups_ok ps ms \<and> (\<exists>pre rest. s = pre @ fill ps ms @ rest)"
proof (induction s)
  case Nil
  then show ?case
    by (auto simp: find_match.simps [of ps "[]"] dest!: match_here_sound split: option.splits)
next
  case (Cons a s)
  show ?case
  proof (cases "match_here ps (a # s)")
    case None
    with Cons.prems have "find_match ps s = Some ms"
      by (simp add: find_match.simps [of ps "a # s"])
    from Cons.IH [OF this] show ?thesis
      by (metis append_Cons)
  next
    case (Some ms')
    with Cons.prems have "match_here ps (a # s) = Some ms"
      by (simp add: find_match.simps [of ps "a # s"])
    from match_here_sound [OF this] show ?thesis
      by (metis append_Nil)
  qed
qed

text \<open>A group that is followed by a literal which starts with a character outside the class takes
  the whole run; with one class character in front of that it gives this character back.\<close>

lemma match_group_lit:
  assumes "match_here ps rest = Some ms" and "w \<noteq> []" and "list_all c w" and "\<not> c b"
  shows "match_here (PPlus c # PLit (b # l) # ps) (w @ (b # l) @ rest) = Some (w # ms)"
proof -
  have run: "takeWhile c (w @ (b # l) @ rest) = w"
    using assms(3,4) by (induction w) simp_all
  have "1 \<le> length w" using assms(2) by (cases w) auto
  then show ?thesis
    unfolding match_here.simps pat.case run
    by (rule first_some_top) (use assms(1) in \<open>simp add: HasPrefix_def\<close>)
qed

lemma match_group_back:
  assumes "match_here ps rest = Some ms" and "w \<noteq> []" and "list_all c w" and "c a" and "\<not> c b" and "a \<noteq> b"
  shows "match_here (PPlus c # PLit (a # b # l) # ps) (w @ (a # b # l) @ rest) = Some (w # ms)"
proof -
  have run: "length (takeWhile c (w @ (a # b # l) @ rest)) = Suc (length w)"
    using assms(3-5) by (induction w) simp_all
  have "1 \<le> length w" using assms(2) by (cases w) auto
  then show ?thesis
    unfolding match_here.simps pat.case run
    by (rule first_some_next) (use assms(1,6) in \<open>simp_all add: HasPrefix_def\<close>)
qed

lemma match_lit: "match_here ps rest = r \<Longrightarrow> match_here (PLit l # ps) (l @ rest) = r"
  by (simp add: HasPrefix_def)

lemma match_last_group:
  assumes "s \<noteq> []" and "c (hd s)"
  shows "match_here [PPlus c] s = Some [takeWhile c s]"
proof -
  have "1 \<le> length (takeWhile c s)"
    using assms by (cases s) simp_all
  then show ?thesis
    unfolding match_here.simps pat.case
    by (rule first_some_top) (simp add: takeWhile_eq_take [symmetric])
qed


subsection \<open>GOATScaler events\<close>

text \<open>What a single event contributes: a stock shortage, a node, or nothing.\<close>

definition relevant :: "time \<Rightarrow> Event \<Rightarrow> bool" where
  "relevant cutoff ev \<longleftrightarrow> ev_Component ev = goatscalerComponent \<and> cutoff \<le> event_time ev"

definition stock_event :: "time \<Rightarrow> Event \<Rightarrow> bool" where
  "stock_event cutoff ev \<longleftrightarrow> relevant cutoff ev \<and> ev_Reason ev = notTriggerScaleUpReason \<and>
     Contains (ev_Message ev) noStockSignal"

definition provision_event :: "time \<Rightarrow> Event \<Rightarrow> InflightNode option" where
  "provision_event cutoff ev =
     (if relevant cutoff ev \<and> ev_Reason ev = provisionNodeReason then
        map_option (\<lambda>(node, _, itype). \<lparr>in_Name = node, in_Allocatable = [], in_Labels = None,
            in_InstanceType = itype, in_DetectedAt = event_time ev\<rparr>)
          (parseProvisionNodeMessage (ev_Message ev))
      else None)"

lemma goat_event_eq:
  "goat_event cutoff ev (ns, seen, b) =
     (if stock_event cutoff ev then (ns, seen, True)
      else case provision_event cutoff ev of
             None \<Rightarrow> (ns, seen, b)
           | Some n \<Rightarrow> if mget False seen (in_Name n) then (ns, seen, b)
                       else (ns @ [n], mput (in_Name n) True seen, b))"
  by (auto simp: goat_event_def stock_event_def provision_event_def relevant_def Let_def
      notTriggerScaleUpReason_def provisionNodeReason_def split: option.splits)

lemma stock_no_provision: "stock_event cutoff ev \<Longrightarrow> provision_event cutoff ev = None"
  by (simp add: stock_event_def provision_event_def notTriggerScaleUpReason_def provisionNodeReason_def)

text \<open>The first node of every name, in the order of the events.\<close>

fun first_per_name :: "string set \<Rightarrow> InflightNode list \<Rightarrow> InflightNode list" where
  "first_per_name S [] = []"
| "first_per_name S (n # ns) =
     (if in_Name n \<in> S then first_per_name S ns else n # first_per_name (insert (in_Name n) S) ns)"

lemma in_first_per_name:
  "n \<in> set (first_per_name S ns) \<longleftrightarrow>
     in_Name n \<notin> S \<and> List.find (\<lambda>m. in_Name m = in_Name n) ns = Some n"
  by (induction ns arbitrary: S) (auto split: if_splits)

lemma first_per_name_subset: "n \<in> set (first_per_name S ns) \<Longrightarrow> n \<in> set ns"
  by (auto simp: in_first_per_name find_Some_iff)

lemma in_map_filter: "y \<in> set (List.map_filter f xs) \<longleftrightarrow> (\<exists>x \<in> set xs. f x = Some y)"
  by (induction xs) (auto simp: List.map_filter_simps split: option.splits)

lemma distinct_first_per_name: "distinct (map in_Name (first_per_name S ns))"
  by (induction ns arbitrary: S) (auto simp: in_first_per_name)

lemma fold_goat_event:
  "fst (fold (goat_event cutoff) evs (ns, seen, b)) =
     ns @ first_per_name {k. mget False seen k} (List.map_filter (provision_event cutoff) evs)"
  "snd (snd (fold (goat_event cutoff) evs (ns, seen, b))) \<longleftrightarrow> b \<or> (\<exists>ev \<in> set evs. stock_event cutoff ev)"
proof (induction evs arbitrary: ns seen b)
  case Nil
  {
    case 1
    then show ?case by (simp add: List.map_filter_def)
  next
    case 2
    then show ?case by simp
  }
next
  case (Cons ev evs)
  have ins: "Collect (mget False (mput j True seen)) = insert j (Collect (mget False seen))"
    for j and seen :: "(string, bool) gmap"
    by auto
  {
    case 1
    show ?case
      using stock_no_provision [of cutoff ev]
      by (cases "provision_event cutoff ev")
         (auto simp: goat_event_eq Cons.IH(1) ins List.map_filter_simps simp del: mget_mput)
  next
    case 2
    show ?case
      by (cases "provision_event cutoff ev") (auto simp: goat_event_eq Cons.IH(2))
  }
qed

definition goat_cutoff :: "time \<Rightarrow> GOATScalerDetector \<Rightarrow> time" where
  "goat_cutoff now d = Add now (- (if EventMaxAge d = 0 then DefaultEventMaxAge else EventMaxAge d))"

lemma GOATScaler_Detect_eq:
  "GOATScaler_Detect now d rd =
     (case goat_events rd of
        None \<Rightarrow> (Inr [], d)
      | Some evs \<Rightarrow>
          (Inr (first_per_name {} (List.map_filter (provision_event (goat_cutoff now d)) evs)),
           d\<lparr>NoStockDetected := (\<exists>ev \<in> set evs. stock_event (goat_cutoff now d) ev)\<rparr>))"
proof (cases "goat_events rd")
  case None
  then show ?thesis by (simp add: GOATScaler_Detect_def)
next
  case (Some evs)
  obtain ns seen b where run: "fold (goat_event (goat_cutoff now d)) evs ([], [], False) = (ns, seen, b)"
    by (cases "fold (goat_event (goat_cutoff now d)) evs ([], [], False)")
  have "ns = first_per_name {} (List.map_filter (provision_event (goat_cutoff now d)) evs)"
    and "b \<longleftrightarrow> (\<exists>ev \<in> set evs. stock_event (goat_cutoff now d) ev)"
    using fold_goat_event [of "goat_cutoff now d" evs "[]" "[]" False] by (simp_all add: run)
  with Some run show ?thesis
    by (simp add: GOATScaler_Detect_def Let_def goat_cutoff_def)
qed

subsection \<open>Nodes that are not ready\<close>

lemma not_ready_loop_eq:
  "not_ready_loop milli now items ns = ns @ map (not_ready_inflight milli)
     (filter (\<lambda>n. isNeverReady n \<and> sint (Since now (node_CreationTimestamp n)) \<le> sint maxNotReadyAge) items)"
  by (induction milli now items ns rule: not_ready_loop.induct) auto

lemma sint_neverReadyThreshold: "sint neverReadyThreshold = 10 * 10 ^ 9"
  by (simp add: neverReadyThreshold_def Second_def)

lemma sint_maxNotReadyAge: "sint maxNotReadyAge = 15 * 60 * 10 ^ 9"
  by (simp add: maxNotReadyAge_def Minute_def)

text \<open>The first \<^verbatim>\<open>Ready\<close> condition decides.\<close>

definition ready_condition :: "'q Node \<Rightarrow> NodeCondition option" where
  "ready_condition node = List.find (\<lambda>c. nc_Type c = ''Ready'') (node_Conditions node)"

lemma isNeverReady_eq:
  "isNeverReady node \<longleftrightarrow>
     (case ready_condition node of
        None \<Rightarrow> True
      | Some c \<Rightarrow> nc_Status c \<noteq> ''True'' \<and>
          (let delta = Sub (nc_LastTransitionTime c) (node_CreationTimestamp node)
           in sint (if sint delta < 0 then - delta else delta) \<le> sint neverReadyThreshold))"
proof -
  have "never_ready_loop created cs \<longleftrightarrow>
     (case List.find (\<lambda>c. nc_Type c = ''Ready'') cs of
        None \<Rightarrow> True
      | Some c \<Rightarrow> nc_Status c \<noteq> ''True'' \<and>
          (let delta = Sub (nc_LastTransitionTime c) created
           in sint (if sint delta < 0 then - delta else delta) \<le> sint neverReadyThreshold))" for created cs
    by (induction cs) (simp_all add: Let_def)
  then show ?thesis
    by (simp add: isNeverReady_def ready_condition_def)
qed

lemma sint_abs_Sub:
  assumes "- (2 ^ 63) < t - u"
  shows "sint (if sint (Sub t u) < 0 then - Sub t u else Sub t u) = min \<bar>t - u\<bar> (2 ^ 63 - 1)"
proof (cases "t < u")
  case True
  then have s: "sint (Sub t u) = t - u"
    using assms by (simp add: sint_Sub)
  have "sint (0 - Sub t u) = 0 - sint (Sub t u)"
    using assms True s sint_diff_exact [of 0 "Sub t u"] by (simp add: in_int64_def)
  with s True assms show ?thesis by simp
next
  case False
  then have "\<not> sint (Sub t u) < 0"
    by (simp add: sint_Sub)
  with False show ?thesis by (simp add: sint_Sub min.commute)
qed

subsection \<open>What every detector promises\<close>

text \<open>
  The contract the controller relies on: detection never fails (an unreachable API yields no nodes)
  and, when the quantities read are in range, so are the amounts of every node it reports.
\<close>

definition reader_ok :: "('q \<Rightarrow> int64) \<Rightarrow> 'q Reader \<Rightarrow> bool" where
  "reader_ok milli rd \<longleftrightarrow>
     (case list_nodes rd of
        Inl _ \<Rightarrow> True
      | Inr items \<Rightarrow> list_all (\<lambda>n. list_all (\<lambda>(_, q). amount_ok (milli q)) (node_Allocatable n)) items)"

locale detector_contract =
  fixes detect :: "'r \<Rightarrow> 'd \<Rightarrow> (string + InflightNode list) \<times> 'd"
    and input_ok :: "'r \<Rightarrow> bool"
  assumes detect_total: "\<exists>ns d'. detect rd d = (Inr ns, d')"
    and detect_amounts: "input_ok rd \<Longrightarrow> detect rd d = (Inr ns, d') \<Longrightarrow> n \<in> set ns \<Longrightarrow> amounts_ok (in_Allocatable n)"
begin

lemma detect_no_error: "fst (detect rd d) \<noteq> Inl e"
  using detect_total [of rd d] by auto

end

lemma amounts_ok_milli_values:
  "list_all (\<lambda>(_, q). amount_ok (milli q)) m \<Longrightarrow> amounts_ok (milli_values milli m)"
proof -
  have put: "amounts_ok (mput k v a)" if "amounts_ok a" "amount_ok v" for k v a
    using that by (simp add: amounts_ok_iff map_of_mput)
  have "amounts_ok a \<Longrightarrow> list_all (\<lambda>(_, q). amount_ok (milli q)) m \<Longrightarrow>
      amounts_ok (fold (\<lambda>(res, qty) alloc. mput res (milli qty) alloc) m a)" for a
    by (induction m arbitrary: a) (simp_all add: put split: prod.splits)
  then show "list_all (\<lambda>(_, q). amount_ok (milli q)) m \<Longrightarrow> amounts_ok (milli_values milli m)"
    by (simp add: milli_values_def)
qed

lemma pending_no_capacity:
  "\<forall>n \<in> set ns. in_Allocatable n = [] \<Longrightarrow> \<forall>n \<in> set (parse_ca_lines ls g ns). in_Allocatable n = []"
proof (induction ls arbitrary: g ns)
  case Nil
  then show ?case by simp
next
  case (Cons l ls)
  have more: "\<forall>n \<in> set (ns @ map (pending_node g) [0..<k]). in_Allocatable n = []" for k
    using Cons.prems by (auto simp: pending_node_def)
  obtain r t where "parseHealthLine (TrimSpace l) = (r, t)" by (cases "parseHealthLine (TrimSpace l)")
  with Cons.IH [OF Cons.prems] Cons.IH [OF more] show ?case
    by (simp add: Let_def del: set_append set_map)
qed

lemma provision_no_capacity: "provision_event cutoff ev = Some n \<Longrightarrow> in_Allocatable n = []"
  by (auto simp: provision_event_def split: if_splits)

interpretation detectors: detector_contract "Detect milli now" "reader_ok milli"
proof
  fix rd d
  show "\<exists>ns d'. Detect milli now rd d = (Inr ns, d')"
    by (cases d) (auto simp: ClusterAutoscaler_Detect_def GOATScaler_Detect_eq NotReadyNode_Detect_def
        split: sum.split option.split)
next
  fix rd d ns d' n
  assume ok: "reader_ok milli rd" and det: "Detect milli now rd d = (Inr ns, d')" and n: "n \<in> set ns"
  show "amounts_ok (in_Allocatable n)"
  proof (cases d)
    case ClusterAutoscaler
    with det n have "in_Allocatable n = []"
      using pending_no_capacity [of "[]"]
      by (auto simp: ClusterAutoscaler_Detect_def parseCAStatus_def split: sum.splits option.splits)
    then show ?thesis by simp
  next
    case (GOATScaler g)
    with det n have "in_Allocatable n = []"
      by (auto simp: GOATScaler_Detect_eq in_map_filter dest!: first_per_name_subset provision_no_capacity
          split: option.splits)
    then show ?thesis by simp
  next
    case NotReadyNodes
    with det n ok show ?thesis
      by (auto simp: NotReadyNode_Detect_def not_ready_loop_eq not_ready_inflight_def reader_ok_def
          list_all_iff intro!: amounts_ok_milli_values split: sum.splits)
  qed
qed

text \<open>A sample node for the instances in the theories below.\<close>

definition sample_node :: "string \<Rightarrow> resources \<Rightarrow> time \<Rightarrow> NodeCondition list \<Rightarrow> int64 Node" where
  "sample_node name alloc created conds =
     \<lparr>node_Name = name, node_Labels = None, node_CreationTimestamp = created, node_DeletionTimestamp = None,
      node_Taints = [], node_Allocatable = alloc, node_Conditions = conds\<rparr>"

end
