(* ===== verification/InflightProps.thy ===== *)
theory InflightProps
  imports Inflight
begin

text \<open>
  The properties of the in-flight detectors: the cluster-autoscaler status and the GOATScaler
  message are read back, what each detector reports, and two places where a detector reports less
  or more than it means to.
\<close>

section \<open>Properties\<close>

text \<open>
  C22: the status text of the cluster autoscaler is read back. For node groups with printable names
  and counts in range, parsing the text of the groups, at any indentation, yields for every group
  exactly \<open>target - ready\<close> pending nodes (none if the target is not above), numbered from 0.
\<close>

theorem ca_status_roundtrip:
  assumes "list_all valid_group gs"
  shows "parseCAStatus (render_status k gs) = concat (map pending_nodes gs)"
proof (cases "gs = []")
  case True
  then show ?thesis
    by (simp add: parseCAStatus_def render_status_def HasPrefix_def)
next
  case False
  have "CHR 0x0A \<notin> set w" if "g \<in> set gs" "w \<in> set (group_lines k g)" for g w
    using that assms
    by (auto simp: group_lines_def health_line_def valid_group_def list_all_iff Itoa_no_other split: prod.splits)
  moreover have "concat (map (group_lines k) gs) \<noteq> []"
    using False by (cases gs) (auto simp: group_lines_def split: prod.splits)
  ultimately have "Split (render_status k gs) CHR 0x0A = concat (map (group_lines k) gs)"
    unfolding render_status_def by (intro Split_Join) auto
  then show ?thesis
    using parse_groups [OF assms, of k "[]"] by (simp add: parseCAStatus_def)
qed

theorem ca_status_roundtrip_witness:
  "list_all valid_group [(''pool-a'', 0, 2), (''pool-b'', 3, 3)] \<and>
   map in_Name (parseCAStatus (render_status 2 [(''pool-a'', 0, 2), (''pool-b'', 3, 3)])) =
     [''pool-a-pending-0'', ''pool-a-pending-1'']"
proof -
  have v: "list_all valid_group [(''pool-a'', 0, 2), (''pool-b'', 3, 3)]"
    by (simp add: valid_group_def plain_char_def)
  have "[0..<2] = [0, 1 :: nat]" and "Itoa 0 = ''0''" and "Itoa 1 = ''1''"
    by code_simp+
  then show ?thesis
    using v ca_status_roundtrip [OF v, of 2]
    by (simp add: pending_nodes_def pending_node_def)
qed

definition provision_message :: "string \<Rightarrow> string \<Rightarrow> string \<Rightarrow> string \<Rightarrow> string" where
  "provision_message node zone itype trig =
     ''Provision node '' @ node @ '' in Zone: '' @ zone @ '' with InstanceType: '' @ itype
       @ '', Triggered time '' @ trig"

definition word_ok :: "string \<Rightarrow> bool" where
  "word_ok w \<longleftrightarrow> w \<noteq> [] \<and> list_all non_space w"

text \<open>
  C25: the provision message of GOATScaler is read back: node, zone and instance type without white
  space, and any text after the trigger keyword.
\<close>

theorem provision_message_roundtrip:
  assumes "word_ok node" and "word_ok zone" and "word_ok itype" and "trig \<noteq> []" and "hd trig \<noteq> CHR 0x0A"
  shows "parseProvisionNodeMessage (provision_message node zone itype trig) = Some (node, zone, itype)"
proof -
  let ?tail = "[PPlus (\<lambda>c. c \<noteq> CHR 0x0A)]" and ?last = "takeWhile (\<lambda>c. c \<noteq> CHR 0x0A) trig"
  have ns: "non_space CHR '',''" "\<not> non_space CHR '' ''"
    by (simp_all add: non_space_def)
  have w: "node \<noteq> []" "list_all non_space node" "zone \<noteq> []" "list_all non_space zone"
    "itype \<noteq> []" "list_all non_space itype"
    using assms(1-3) by (simp_all add: word_ok_def)
  have m0: "match_here ?tail trig = Some [?last]"
    using assms(4,5) by (rule match_last_group)
  have m1: "match_here (PPlus non_space # PLit '', Triggered time '' # ?tail) (itype @ '', Triggered time '' @ trig)
      = Some [itype, ?last]"
    by (rule match_group_back [OF m0 w(5,6) ns]) simp
  have m2: "match_here (PPlus non_space # PLit '' with InstanceType: '' # PPlus non_space # PLit '', Triggered time '' # ?tail)
      (zone @ '' with InstanceType: '' @ itype @ '', Triggered time '' @ trig) = Some [zone, itype, ?last]"
    by (rule match_group_lit [OF m1 w(3,4) ns(2)])
  have "match_here (PPlus non_space # PLit '' in Zone: '' # PPlus non_space # PLit '' with InstanceType: ''
        # PPlus non_space # PLit '', Triggered time '' # ?tail)
      (node @ '' in Zone: '' @ zone @ '' with InstanceType: '' @ itype @ '', Triggered time '' @ trig)
      = Some [node, zone, itype, ?last]"
    by (rule match_group_lit [OF m2 w(1,2) ns(2)])
  then have "match_here provisionNodeRegex (provision_message node zone itype trig) = Some [node, zone, itype, ?last]"
    unfolding provisionNodeRegex_def provision_message_def by (rule match_lit)
  then show ?thesis
    by (simp add: parseProvisionNodeMessage_def find_match.simps)
qed

theorem provision_message_roundtrip_witness:
  "parseProvisionNodeMessage (provision_message ''task-1'' ''cn-1a'' ''ecs.gn7i'' ''2024-05-01 10:00:00'')
     = Some (''task-1'', ''cn-1a'', ''ecs.gn7i'')"
  by (rule provision_message_roundtrip) (simp_all add: word_ok_def non_space_def)

text \<open>
  Conversely, a message is only accepted if it contains the text of a provision message for
  exactly the node, zone and instance type that are returned, none of them empty or with blanks.
\<close>

theorem provision_message_sound:
  assumes "parseProvisionNodeMessage msg = Some (node, zone, itype)"
  shows "word_ok node \<and> word_ok zone \<and> word_ok itype \<and>
    (\<exists>pre trig rest. trig \<noteq> [] \<and> msg = pre @ provision_message node zone itype trig @ rest)"
proof -
  from assms obtain ms where m: "find_match provisionNodeRegex msg = Some (node # zone # itype # ms)"
    by (auto simp: parseProvisionNodeMessage_def split: option.splits list.splits)
  from find_match_sound [OF m] have g: "groups_ok provisionNodeRegex (node # zone # itype # ms)"
    and "\<exists>pre rest. msg = pre @ fill provisionNodeRegex (node # zone # itype # ms) @ rest"
    by blast+
  moreover from g obtain trig where "ms = [trig]" "trig \<noteq> []"
    by (cases ms) (auto simp: provisionNodeRegex_def)
  ultimately show ?thesis
    by (auto simp: provisionNodeRegex_def provision_message_def word_ok_def)
qed

theorem provision_message_sound_witness:
  "\<exists>pre trig rest. trig \<noteq> [] \<and>
     ''x Provision node task-1 in Zone: cn-1a with InstanceType: ecs.gn7i, Triggered time now'' =
       pre @ provision_message ''task-1'' ''cn-1a'' ''ecs.gn7i'' trig @ rest"
proof -
  have "parseProvisionNodeMessage
      ''x Provision node task-1 in Zone: cn-1a with InstanceType: ecs.gn7i, Triggered time now''
      = Some (''task-1'', ''cn-1a'', ''ecs.gn7i'')"
    by (simp add: parseProvisionNodeMessage_def provisionNodeRegex_def find_match.simps HasPrefix_def non_space_def)
  then show ?thesis
    using provision_message_sound by blast
qed

text \<open>
  C23: what GOATScaler detection reports. When the events can be listed, by the filtered request or by
  the fallback, the nodes are, in the order of the events, the first node per name among the
  recent GOATScaler provision events whose message parses; no name occurs twice. The stock flag is
  set exactly if a recent event reports a node pool without stock.
\<close>

theorem goat_detect_spec:
  assumes "goat_events rd = Some evs"
  shows "case GOATScaler_Detect now d rd of
    (Inl e, d') \<Rightarrow> False
  | (Inr ns, d') \<Rightarrow>
      distinct (map in_Name ns) \<and>
      (\<forall>n. n \<in> set ns \<longleftrightarrow>
         List.find (\<lambda>m. in_Name m = in_Name n) (List.map_filter (provision_event (goat_cutoff now d)) evs) = Some n) \<and>
      (NoStockDetected d' \<longleftrightarrow> (\<exists>ev \<in> set evs. stock_event (goat_cutoff now d) ev)) \<and>
      EventMaxAge d' = EventMaxAge d"
  using assms by (simp add: GOATScaler_Detect_eq in_first_per_name distinct_first_per_name)

theorem goat_detect_spec_witness:
  "let ev = \<lparr>ev_Component = ''GOATScaler'', ev_Reason = ''ProvisionNode'',
         ev_Message = ''Provision node task-1 in Zone: cn-1a with InstanceType: ecs.gn7i, Triggered time now'',
         ev_LastTimestamp = 10 ^ 18, ev_CreationTimestamp = 0\<rparr>;
       rd = \<lparr>get_ca_status = Inl (NotFound ''not found''), list_events = (\<lambda>_. Inr [ev, ev]), list_nodes = Inl (NotFound ''not found'')\<rparr> :: int64 Reader;
       d = \<lparr>EventMaxAge = 0, NoStockDetected = True\<rparr>
   in case GOATScaler_Detect (10 ^ 18 + 1) d rd of
        (Inl e, d') \<Rightarrow> False
      | (Inr ns, d') \<Rightarrow> distinct (map in_Name ns) \<and> in_Name ` set ns = {''task-1''} \<and> \<not> NoStockDetected d'"
proof -
  let ?ev = "\<lparr>ev_Component = ''GOATScaler'', ev_Reason = ''ProvisionNode'',
      ev_Message = ''Provision node task-1 in Zone: cn-1a with InstanceType: ecs.gn7i, Triggered time now'',
      ev_LastTimestamp = 10 ^ 18, ev_CreationTimestamp = 0\<rparr>"
  let ?rd = "\<lparr>get_ca_status = Inl (NotFound ''not found''), list_events = (\<lambda>_. Inr [?ev, ?ev]), list_nodes = Inl (NotFound ''not found'')\<rparr> :: int64 Reader"
  let ?d = "\<lparr>EventMaxAge = 0, NoStockDetected = True\<rparr>"
  let ?n = "\<lparr>in_Name = ''task-1'', in_Allocatable = [], in_Labels = None, in_InstanceType = ''ecs.gn7i'',
      in_DetectedAt = 10 ^ 18\<rparr>"
  have evs: "goat_events ?rd = Some [?ev, ?ev]"
    by (simp add: goat_events_def)
  have time: "event_time ?ev = 10 ^ 18" and rel: "relevant (goat_cutoff (10 ^ 18 + 1) ?d) ?ev"
    by (simp_all add: relevant_def goat_cutoff_def event_time_def IsZero_def Add_def DefaultEventMaxAge_def Minute_def
        goatscalerComponent_def)
  have msg: "parseProvisionNodeMessage (ev_Message ?ev) = Some (''task-1'', ''cn-1a'', ''ecs.gn7i'')"
    by (simp add: parseProvisionNodeMessage_def provisionNodeRegex_def find_match.simps HasPrefix_def non_space_def)
  have hit: "provision_event (goat_cutoff (10 ^ 18 + 1) ?d) ?ev = Some ?n"
    unfolding provision_event_def msg time using rel by (simp add: provisionNodeReason_def)
  have none: "\<not> stock_event (goat_cutoff (10 ^ 18 + 1) ?d) ?ev"
    by (simp add: stock_event_def notTriggerScaleUpReason_def)
  have iff: "List.find (\<lambda>m. in_Name m = in_Name n)
      (List.map_filter (provision_event (goat_cutoff (10 ^ 18 + 1) ?d)) [?ev, ?ev]) = Some n \<longleftrightarrow> n = ?n" for n
    unfolding List.map_filter_simps hit by auto
  show ?thesis
    using goat_detect_spec [OF evs, of "10 ^ 18 + 1" ?d] iff none
    unfolding Let_def by (auto split: prod.splits sum.splits)
qed


text \<open>
  The stock flag is never raised by the filtered request. If the API server answers the request
  for events of reason \<^verbatim>\<open>ProvisionNode\<close>, all of which then have that reason, detection leaves
  \<^verbatim>\<open>NoStockDetected\<close> false: the shortage events it looks for have another reason.
\<close>

theorem goat_no_stock_needs_fallback:
  assumes "list_events rd (Some provisionNodeReason) = Inr evs"
    and "\<forall>ev \<in> set evs. ev_Reason ev = provisionNodeReason"
  shows "\<not> NoStockDetected (snd (GOATScaler_Detect now d rd))"
  using assms by (auto simp: GOATScaler_Detect_eq goat_events_def stock_event_def notTriggerScaleUpReason_def
      provisionNodeReason_def)

theorem goat_no_stock_needs_fallback_witness:
  "let stock = \<lparr>ev_Component = ''GOATScaler'', ev_Reason = ''NotTriggerScaleUp'', ev_Message = ''NodePool NoStock'',
         ev_LastTimestamp = 10 ^ 18, ev_CreationTimestamp = 0\<rparr>;
       rd = \<lparr>get_ca_status = Inl (NotFound ''not found''),
             list_events = (\<lambda>f. Inr (filter (\<lambda>ev. f = None \<or> f = Some (ev_Reason ev)) [stock])),
             list_nodes = Inl (NotFound ''not found'')\<rparr> :: int64 Reader;
       rd' = rd\<lparr>list_events := (\<lambda>f. if f = None then Inr [stock] else Inl (OtherError ''field label not supported''))\<rparr>;
       d = \<lparr>EventMaxAge = 0, NoStockDetected = False\<rparr>
   in \<not> NoStockDetected (snd (GOATScaler_Detect (10 ^ 18 + 1) d rd)) \<and>
      NoStockDetected (snd (GOATScaler_Detect (10 ^ 18 + 1) d rd'))"
proof -
  let ?stock = "\<lparr>ev_Component = ''GOATScaler'', ev_Reason = ''NotTriggerScaleUp'', ev_Message = ''NodePool NoStock'',
      ev_LastTimestamp = 10 ^ 18, ev_CreationTimestamp = 0\<rparr>"
  let ?rd = "\<lparr>get_ca_status = Inl (NotFound ''not found''),
      list_events = (\<lambda>f. Inr (filter (\<lambda>ev. f = None \<or> f = Some (ev_Reason ev)) [?stock])),
      list_nodes = Inl (NotFound ''not found'')\<rparr> :: int64 Reader"
  let ?rd' = "?rd\<lparr>list_events := (\<lambda>f. if f = None then Inr [?stock] else Inl (OtherError ''field label not supported''))\<rparr>"
  let ?d = "\<lparr>EventMaxAge = 0, NoStockDetected = False\<rparr>"
  have filtered: "\<not> NoStockDetected (snd (GOATScaler_Detect (10 ^ 18 + 1) ?d ?rd))"
    by (rule goat_no_stock_needs_fallback [where evs = "[]"]) (simp_all add: provisionNodeReason_def)
  have "goat_events ?rd' = Some [?stock]"
    by (simp add: goat_events_def)
  moreover have "stock_event (goat_cutoff (10 ^ 18 + 1) ?d) ?stock"
    by (simp add: stock_event_def relevant_def goat_cutoff_def event_time_def IsZero_def Add_def DefaultEventMaxAge_def
        Minute_def goatscalerComponent_def notTriggerScaleUpReason_def noStockSignal_def Contains_def Index.simps HasPrefix_def)
  ultimately have "NoStockDetected (snd (GOATScaler_Detect (10 ^ 18 + 1) ?d ?rd'))"
    by (simp add: GOATScaler_Detect_eq)
  with filtered show ?thesis unfolding Let_def by (rule conjI)
qed

text \<open>
  The heuristic for a node that has never been ready, over the integers: the node is at most 15 minutes old, and it has no
  \<^verbatim>\<open>Ready\<close> condition or one that is not true and whose last change lies within 10 seconds of the creation, or so far before it
  that the difference is the smallest duration, which is its own negation.
\<close>

definition looks_unready_since_creation :: "time \<Rightarrow> 'q Node \<Rightarrow> bool" where
  "looks_unready_since_creation now n \<longleftrightarrow> now - node_CreationTimestamp n \<le> 15 * 60 * 10 ^ 9 \<and>
     (case ready_condition n of
        None \<Rightarrow> True
      | Some c \<Rightarrow> nc_Status c \<noteq> ''True'' \<and>
          (let delta = nc_LastTransitionTime c - node_CreationTimestamp n
           in \<bar>delta\<bar> \<le> 10 * 10 ^ 9 \<or> delta \<le> - (2 ^ 63)))"

lemma isNeverReady_saturated:
  assumes "ready_condition n = Some c" and "nc_Status c \<noteq> ''True''" and "nc_LastTransitionTime c - node_CreationTimestamp n \<le> - (2 ^ 63)"
  shows "isNeverReady n"
proof -
  have s: "sint (Sub (nc_LastTransitionTime c) (node_CreationTimestamp n)) = - (2 ^ 63)"
    using assms(3) by (simp add: sint_Sub)
  then have "Sub (nc_LastTransitionTime c) (node_CreationTimestamp n) = minDuration"
    by (simp add: sint_eq_iff [symmetric] sint_minDuration)
  moreover have "sint (- minDuration) = - (2 ^ 63)"
    by (simp add: minDuration_def)
  ultimately show ?thesis
    using assms(1,2) by (simp add: isNeverReady_eq Let_def sint_minDuration sint_neverReadyThreshold)
qed

lemma looks_unready_iff:
  "isNeverReady n \<and> sint (Since now (node_CreationTimestamp n)) \<le> sint maxNotReadyAge \<longleftrightarrow> looks_unready_since_creation now n"
proof -
  have "sint (Since now (node_CreationTimestamp n)) \<le> sint maxNotReadyAge \<longleftrightarrow>
      now - node_CreationTimestamp n \<le> 15 * 60 * 10 ^ 9"
    unfolding Since_def sint_maxNotReadyAge sint_Sub by auto
  moreover have "isNeverReady n \<longleftrightarrow> (case ready_condition n of None \<Rightarrow> True
      | Some c \<Rightarrow> nc_Status c \<noteq> ''True'' \<and>
          (let delta = nc_LastTransitionTime c - node_CreationTimestamp n in \<bar>delta\<bar> \<le> 10 * 10 ^ 9 \<or> delta \<le> - (2 ^ 63)))"
  proof (cases "ready_condition n")
    case None
    then show ?thesis by (simp add: isNeverReady_eq)
  next
    case (Some c)
    show ?thesis
    proof (cases "nc_LastTransitionTime c - node_CreationTimestamp n \<le> - (2 ^ 63)")
      case True
      with Some isNeverReady_saturated [OF Some] show ?thesis by (auto simp: isNeverReady_eq Let_def)
    next
      case False
      with Some show ?thesis
        by (simp add: isNeverReady_eq Let_def sint_abs_Sub sint_neverReadyThreshold min_le_iff_disj del: if_split)
    qed
  qed
  ultimately show ?thesis
    unfolding looks_unready_since_creation_def by blast
qed

text \<open>
  C24: which nodes the not-ready detector reports. If the nodes cannot be listed it reports none. Otherwise it reports, in the order of the
  list and each with its own capacity, labels and instance type, exactly the nodes that are at most 15 minutes old and
  have no \<^verbatim>\<open>Ready\<close> condition, or one that is not true and last changed within 10 seconds of the creation or 292 years or
  more before it. This is what stands for a node that has never been ready: a node
  that was not ready all along but whose condition changed later than that is not reported.
\<close>

theorem not_ready_nodes_detected:
  "NotReadyNode_Detect milli now rd =
     Inr (case list_nodes rd of
            Inl _ \<Rightarrow> []
          | Inr items \<Rightarrow> map (not_ready_inflight milli) (filter (looks_unready_since_creation now) items))"
  by (simp add: NotReadyNode_Detect_def not_ready_loop_eq looks_unready_iff split: sum.split)

lemma late_condition_is_missed:
  "let c = \<lparr>nc_Type = ''Ready'', nc_Status = ''False'', nc_LastTransitionTime = 10 ^ 18 + 30 * 10 ^ 9\<rparr>
   in \<not> looks_unready_since_creation (10 ^ 18 + 40 * 10 ^ 9) (sample_node ''new'' [(''cpu'', 2000)] (10 ^ 18) [c])"
  by (simp add: looks_unready_since_creation_def ready_condition_def sample_node_def)

text \<open>
  A missing transition time looks like a fresh node. If the \<^verbatim>\<open>Ready\<close> condition is not true and
  carries the zero time, while the node was created in or after the year 293, the saturated difference
  is negated into itself, stays negative and passes the threshold: the node counts as never ready,
  however long it has been in use.
\<close>

theorem zero_transition_time_is_never_ready:
  assumes "ready_condition n = Some c" and "nc_Status c \<noteq> ''True''" and "IsZero (nc_LastTransitionTime c)"
    and "2 ^ 63 \<le> node_CreationTimestamp n"
  shows "isNeverReady n"
  using assms by (intro isNeverReady_saturated [of n c]) (simp_all add: IsZero_def)

theorem zero_transition_time_is_never_ready_witness:
  "isNeverReady (sample_node ''old'' [] (63 * 10 ^ 18)
     [\<lparr>nc_Type = ''Ready'', nc_Status = ''Unknown'', nc_LastTransitionTime = 0\<rparr>])"
  by (rule zero_transition_time_is_never_ready
        [where c = "\<lparr>nc_Type = ''Ready'', nc_Status = ''Unknown'', nc_LastTransitionTime = 0\<rparr>"])
     (simp_all add: ready_condition_def sample_node_def IsZero_def)

end
