(* ===== verification/Templates.thy ===== *)
theory Templates
  imports Inflight
begin

text \<open>
  Node group templates (\<^verbatim>\<open>src/internal/controller/packingprofile_controller.go\<close>): how the controller
  guesses the capacity, labels and taints of a node that does not exist yet, by the node's own
  identity first and by the needs of the waiting pod otherwise.
\<close>

section \<open>Model\<close>

definition templateTaintsToCoreTaints :: "NodeGroupTaint list \<Rightarrow> Taint list" where
  "templateTaintsToCoreTaints taints =
     (if length taints = 0 then []
      else map (\<lambda>t. \<lparr>taint_Key = ngt_Key t, taint_Value = ngt_Value t, taint_Effect = ngt_Effect t\<rparr>) taints)"

definition copyTemplateAllocatable :: "resources \<Rightarrow> resources" where
  "copyTemplateAllocatable m = copy_into m []"

fun selector_match :: "smap option \<Rightarrow> smap \<Rightarrow> bool" where
  "selector_match labels [] = True"
| "selector_match labels ((key, val) # sel) =
     (if sget labels key \<noteq> val then False else selector_match labels sel)"

fun taints_match :: "Toleration list \<Rightarrow> Taint list \<Rightarrow> bool" where
  "taints_match tols [] = True"
| "taints_match tols (taint # ts) =
     (if taint_Effect taint \<noteq> ''NoSchedule'' \<and> taint_Effect taint \<noteq> ''NoExecute'' then taints_match tols ts
      else if \<not> TolerateTaint tols taint then False
      else taints_match tols ts)"

fun findTemplateForPod :: "'q Pod \<Rightarrow> NodeGroupTemplate list \<Rightarrow> NodeGroupTemplate option" where
  "findTemplateForPod pod [] = None"
| "findTemplateForPod pod (t # ts) =
     (if \<not> selector_match (tmpl_Labels t) (NodeSelector pod) then findTemplateForPod pod ts
      else if \<not> taints_match (Tolerations pod) (templateTaintsToCoreTaints (tmpl_Taints t))
      then findTemplateForPod pod ts
      else Some t)"

fun template_by_type :: "string \<Rightarrow> NodeGroupTemplate list \<Rightarrow> NodeGroupTemplate option" where
  "template_by_type itype [] = None"
| "template_by_type itype (t # ts) =
     (if tmpl_InstanceType t \<noteq> '''' \<and> tmpl_InstanceType t = itype then Some t else template_by_type itype ts)"

fun template_by_prefix :: "string \<Rightarrow> NodeGroupTemplate list \<Rightarrow> NodeGroupTemplate option" where
  "template_by_prefix name [] = None"
| "template_by_prefix name (t # ts) =
     (if NamePrefix t \<noteq> '''' \<and> HasPrefix name (NamePrefix t) then Some t else template_by_prefix name ts)"

definition findMatchingTemplate :: "InflightNode \<Rightarrow> NodeGroupTemplate list \<Rightarrow> NodeGroupTemplate option" where
  "findMatchingTemplate node templates =
     (case (if in_InstanceType node \<noteq> '''' then template_by_type (in_InstanceType node) templates else None) of
        Some t \<Rightarrow> Some t
      | None \<Rightarrow> template_by_prefix (in_Name node) templates)"

definition templateIdentifiers :: "NodeGroupTemplate list \<Rightarrow> string list" where
  "templateIdentifiers templates =
     map (\<lambda>t. if tmpl_InstanceType t \<noteq> '''' then ''instanceType='' @ tmpl_InstanceType t
              else if NamePrefix t \<noteq> '''' then ''namePrefix='' @ NamePrefix t
              else ''<empty>'') templates"

section \<open>Lemmas\<close>

lemma selector_match_mismatch: "selector_match labels sel \<longleftrightarrow> \<not> selector_mismatch labels sel"
  by (induction labels sel rule: selector_match.induct) auto

lemma taints_match_untolerated: "taints_match tols ts \<longleftrightarrow> \<not> untolerated tols ts"
  by (induction tols ts rule: taints_match.induct) auto

lemma templateTaintsToCoreTaints_map:
  "templateTaintsToCoreTaints taints =
     map (\<lambda>t. \<lparr>taint_Key = ngt_Key t, taint_Value = ngt_Value t, taint_Effect = ngt_Effect t\<rparr>) taints"
  by (simp add: templateTaintsToCoreTaints_def)

text \<open>A template as the ledger entry it would become.\<close>

definition template_entry :: "NodeGroupTemplate \<Rightarrow> nodeEntry" where
  "template_entry t =
     \<lparr>allocatable = tmpl_Allocatable t, used = [], reserved = [], ne_labels = tmpl_Labels t,
      ne_taints = templateTaintsToCoreTaints (tmpl_Taints t)\<rparr>"

lemma findTemplateForPod_find:
  "findTemplateForPod pod ts =
     List.find (\<lambda>t. nodeMatchesConstraints (template_entry t) (extractConstraints pod)) ts"
  by (induction ts)
     (simp_all add: selector_match_mismatch taints_match_untolerated nodeMatchesConstraints_def template_entry_def
        extractConstraints_def)

lemma template_by_type_find:
  "itype \<noteq> '''' \<Longrightarrow> template_by_type itype ts = List.find (\<lambda>t. tmpl_InstanceType t = itype) ts"
  by (induction ts) auto

lemma template_by_prefix_find:
  "template_by_prefix name ts = List.find (\<lambda>t. NamePrefix t \<noteq> '''' \<and> HasPrefix name (NamePrefix t)) ts"
  by (induction ts) auto

section \<open>Properties\<close>

text \<open>
  C29: the template chosen for a pod agrees with the ledger. If a template is found, an in-flight node
  entered into the ledger with its labels and taints passes the constraint check the ledger applies
  when it searches a node for that pod; if none is found, no template would have passed.
\<close>

theorem template_for_pod_passes_constraints:
  assumes "\<forall>t \<in> set ts. wf_gmap (entries (tmpl_Labels t))"
  shows "case findTemplateForPod pod ts of
    None \<Rightarrow> \<forall>t \<in> set ts. \<not> nodeMatchesConstraints (template_entry t) (extractConstraints pod)
  | Some t \<Rightarrow> t \<in> set ts \<and>
      (\<exists>n. map_of (inflight (AddInflightNode l key alloc (tmpl_Labels t) (templateTaintsToCoreTaints (tmpl_Taints t)))) key = Some n \<and>
           nodeMatchesConstraints n (extractConstraints pod))"
proof (cases "findTemplateForPod pod ts")
  case None
  then have "\<forall>t \<in> set ts. \<not> nodeMatchesConstraints (template_entry t) (extractConstraints pod)"
    by (auto simp: findTemplateForPod_find find_None_iff)
  with None show ?thesis by simp
next
  case (Some t)
  then have t: "t \<in> set ts" "nodeMatchesConstraints (template_entry t) (extractConstraints pod)"
    by (auto simp: findTemplateForPod_find find_Some_iff)
  have "copyStringMap (tmpl_Labels t) = tmpl_Labels t"
    using assms t(1) by (auto simp: copyStringMap_def split: option.split)
  with t Some show ?thesis
    by (auto simp: AddInflightNode_def map_of_mput template_entry_def nodeMatchesConstraints_def extractConstraints_def
        split: if_splits)
qed

theorem template_for_pod_passes_constraints_witness:
  "let t = \<lparr>NamePrefix = ''gpu-'', tmpl_InstanceType = '''', tmpl_Allocatable = [(''cpu'', 8000)],
            tmpl_Labels = Some [(''pool'', ''gpu'')], tmpl_Taints = []\<rparr>;
       pod = (sample_pod [])\<lparr>NodeSelector := [(''pool'', ''gpu'')]\<rparr>
   in findTemplateForPod pod [t] = Some t \<and>
      (\<exists>n. map_of (inflight (AddInflightNode New ''gpu/x'' [] (tmpl_Labels t) [])) ''gpu/x'' = Some n \<and>
           nodeMatchesConstraints n (extractConstraints pod))"
proof -
  let ?t = "\<lparr>NamePrefix = ''gpu-'', tmpl_InstanceType = '''', tmpl_Allocatable = [(''cpu'', 8000)],
      tmpl_Labels = Some [(''pool'', ''gpu'')], tmpl_Taints = []\<rparr>"
  let ?pod = "(sample_pod [])\<lparr>NodeSelector := [(''pool'', ''gpu'')]\<rparr>"
  have wf: "\<forall>t \<in> set [?t]. wf_gmap (entries (tmpl_Labels t))"
    by (simp add: wf_gmap_def)
  have f: "findTemplateForPod ?pod [?t] = Some ?t"
    by (simp add: mget_def templateTaintsToCoreTaints_def)
  show ?thesis
    using template_for_pod_passes_constraints [OF wf, of ?pod New "''gpu/x''" "[]"] f
    unfolding Let_def by (simp add: templateTaintsToCoreTaints_def)
qed

text \<open>
  Matching a template to a node. The instance type decides if any template names it; otherwise
  the first template whose non-empty name prefix fits the node's name; an empty field never
  matches.
\<close>

theorem template_for_node:
  "findMatchingTemplate node ts =
     (case List.find (\<lambda>t. tmpl_InstanceType t \<noteq> '''' \<and> tmpl_InstanceType t = in_InstanceType node) ts of
        Some t \<Rightarrow> Some t
      | None \<Rightarrow> List.find (\<lambda>t. NamePrefix t \<noteq> '''' \<and> HasPrefix (in_Name node) (NamePrefix t)) ts)"
proof (cases "in_InstanceType node = ''''")
  case True
  then have none: "List.find (\<lambda>t. tmpl_InstanceType t \<noteq> '''' \<and> tmpl_InstanceType t = in_InstanceType node) ts = None"
    by (auto simp: find_None_iff)
  show ?thesis
    unfolding none using True by (simp add: findMatchingTemplate_def template_by_prefix_find)
next
  case False
  then have "List.find (\<lambda>t. tmpl_InstanceType t \<noteq> '''' \<and> tmpl_InstanceType t = in_InstanceType node) ts =
      List.find (\<lambda>t. tmpl_InstanceType t = in_InstanceType node) ts"
    by (intro find_cong) auto
  with False show ?thesis
    by (simp add: findMatchingTemplate_def template_by_prefix_find template_by_type_find split: option.split)
qed

end
