(* ===== verification/Gates.thy ===== *)
theory Gates
  imports Rules
begin

text \<open>
  The pod side of the controller (\<^verbatim>\<open>src/internal/controller/packingprofile_controller.go\<close>): which
  pods are gated, how a release rewrites the pod, how a held pod is annotated and when a
  pod has waited too long. The rewritten pod is what the controller hands to \<^verbatim>\<open>Patch\<close>; the patch
  itself is an effect of the reconciler.
\<close>

section \<open>Model\<close>

fun has_gate_loop :: "string list \<Rightarrow> bool" where
  "has_gate_loop [] = False"
| "has_gate_loop (gate # gates) = (if HasPrefix gate GatePrefix then True else has_gate_loop gates)"

definition hasKompaktGates :: "'q Pod \<Rightarrow> bool" where
  "hasKompaktGates pod = has_gate_loop (SchedulingGates pod)"

definition release_annotations :: "string \<Rightarrow> string \<Rightarrow> smap option \<Rightarrow> smap option" where
  "release_annotations node reason annotations =
     (let a = (case annotations of None \<Rightarrow> [] | Some m \<Rightarrow> m);
          a1 = mput AnnotationReason reason a;
          a2 = (if node \<noteq> '''' then mput AnnotationNode node a1 else a1)
      in Some (mdel AnnotationHeldBy a2))"

fun remaining_gates :: "string list \<Rightarrow> string list \<Rightarrow> string list" where
  "remaining_gates [] remaining = remaining"
| "remaining_gates (gate # gates) remaining =
     remaining_gates gates (if \<not> HasPrefix gate GatePrefix then remaining @ [gate] else remaining)"

definition hostnameReq :: "string \<Rightarrow> NodeSelectorRequirement" where
  "hostnameReq node = \<lparr>req_Key = ''kubernetes.io/hostname'', req_Operator = ''In'', req_Values = [node]\<rparr>"

definition pin_affinity :: "string \<Rightarrow> Affinity option \<Rightarrow> Affinity" where
  "pin_affinity node affinity =
     (let aff = (case affinity of None \<Rightarrow> \<lparr>aff_NodeAffinity = None\<rparr> | Some a \<Rightarrow> a);
          na = (case aff_NodeAffinity aff of None \<Rightarrow> \<lparr>RequiredDuringScheduling = None\<rparr> | Some n \<Rightarrow> n);
          existing = RequiredDuringScheduling na;
          required =
            (if existing \<noteq> None \<and> 0 < length (the existing)
             then map (\<lambda>t. t\<lparr>MatchExpressions := MatchExpressions t @ [hostnameReq node]\<rparr>) (the existing)
             else [\<lparr>MatchExpressions = [hostnameReq node], MatchFields = []\<rparr>])
      in aff\<lparr>aff_NodeAffinity := Some (na\<lparr>RequiredDuringScheduling := Some required\<rparr>)\<rparr>)"

text \<open>The pod as \<^verbatim>\<open>releaseGatesWithAffinity\<close> leaves it before the patch.\<close>

definition released_pod :: "string \<Rightarrow> string \<Rightarrow> 'q Pod \<Rightarrow> 'q Pod" where
  "released_pod node reason pod =
     (let p1 = pod\<lparr>pod_Annotations := release_annotations node reason (pod_Annotations pod)\<rparr>;
          p2 = p1\<lparr>SchedulingGates := remaining_gates (SchedulingGates pod) []\<rparr>
      in if node \<noteq> '''' then p2\<lparr>pod_Affinity := Some (pin_affinity node (pod_Affinity pod))\<rparr> else p2)"

text \<open>\<^verbatim>\<open>annotatePod\<close>: \<open>None\<close> when the annotation is already there and no patch is sent.\<close>

definition annotated_pod :: "string \<Rightarrow> string \<Rightarrow> 'q Pod \<Rightarrow> 'q Pod option" where
  "annotated_pod key val pod =
     (if pod_Annotations pod \<noteq> None \<and> sget (pod_Annotations pod) key = val then None
      else
        let a = (case pod_Annotations pod of None \<Rightarrow> [] | Some m \<Rightarrow> m)
        in Some (pod\<lparr>pod_Annotations := Some (mput key val a)\<rparr>))"

definition isTimedOut :: "time \<Rightarrow> 'q Pod \<Rightarrow> PackingProfile \<Rightarrow> bool" where
  "isTimedOut now pod profile =
     (if IsZero (pod_CreationTimestamp pod) then False
      else
        let timeout = (case ParseDuration (ReservationTimeout (pp_Spec profile)) of
                         Some t \<Rightarrow> t
                       | None \<Rightarrow> 3 * Minute)
        in sint timeout < sint (Since now (pod_CreationTimestamp pod)))"

section \<open>Lemmas\<close>

lemma hasKompaktGates_iff:
  "hasKompaktGates pod \<longleftrightarrow> (\<exists>g \<in> set (SchedulingGates pod). HasPrefix g GatePrefix)"
proof -
  have "has_gate_loop gs \<longleftrightarrow> (\<exists>g \<in> set gs. HasPrefix g GatePrefix)" for gs
    by (induction gs) auto
  then show ?thesis by (simp add: hasKompaktGates_def)
qed

lemma remaining_gates_eq: "remaining_gates gs rs = rs @ filter (\<lambda>g. \<not> HasPrefix g GatePrefix) gs"
  by (induction gs rs rule: remaining_gates.induct) auto

lemma SchedulingGates_released [simp]:
  "SchedulingGates (released_pod node reason pod) = filter (\<lambda>g. \<not> HasPrefix g GatePrefix) (SchedulingGates pod)"
  by (simp add: released_pod_def Let_def remaining_gates_eq)

lemma released_no_gates: "\<not> hasKompaktGates (released_pod node reason pod)"
  by (auto simp: hasKompaktGates_iff)

lemma pod_Annotations_released [simp]:
  "pod_Annotations (released_pod node reason pod) = release_annotations node reason (pod_Annotations pod)"
  by (simp add: released_pod_def Let_def)

lemma map_of_release_annotations:
  "map_of (entries (release_annotations node reason ann)) k =
     (if k = AnnotationHeldBy then None
      else if k = AnnotationNode \<and> node \<noteq> '''' then Some node
      else if k = AnnotationReason then Some reason
      else map_of (entries ann) k)"
proof -
  have "AnnotationNode \<noteq> AnnotationReason" "AnnotationHeldBy \<noteq> AnnotationReason" "AnnotationHeldBy \<noteq> AnnotationNode"
    using annotation_keys_distinct by auto
  then show ?thesis
    by (auto simp: release_annotations_def Let_def map_of_mdel map_of_mput entries_def split: option.split)
qed

lemma annotated_pod_gates: "annotated_pod key val pod = Some pod' \<Longrightarrow> SchedulingGates pod' = SchedulingGates pod"
  by (auto simp: annotated_pod_def Let_def split: if_splits)

lemma ParseDuration_default: "ReservationTimeout (pp_Spec p) = '''' \<Longrightarrow> isTimedOut now pod p \<longleftrightarrow>
    \<not> IsZero (pod_CreationTimestamp pod) \<and> sint (3 * Minute) < sint (Since now (pod_CreationTimestamp pod))"
  by (simp add: isTimedOut_def ParseDuration_empty)

section \<open>What a pinned affinity admits\<close>

text \<open>
  The meaning of a required node affinity, as the Kubernetes API documents it: a node is admitted if
  there is no requirement or some term matches it; a term matches if all its expressions and
  fields hold, and an empty term matches nothing. The evaluation \<open>sat\<close> of a single requirement on
  a node is a parameter.
\<close>

definition term_matches :: "(NodeSelectorRequirement \<Rightarrow> 'n \<Rightarrow> bool) \<Rightarrow> NodeSelectorTerm \<Rightarrow> 'n \<Rightarrow> bool" where
  "term_matches sat t n \<longleftrightarrow> MatchExpressions t @ MatchFields t \<noteq> [] \<and>
     (\<forall>r \<in> set (MatchExpressions t @ MatchFields t). sat r n)"

definition required_terms :: "Affinity option \<Rightarrow> NodeSelectorTerm list option" where
  "required_terms a = (case a of None \<Rightarrow> None | Some a' \<Rightarrow>
     (case aff_NodeAffinity a' of None \<Rightarrow> None | Some na \<Rightarrow> RequiredDuringScheduling na))"

definition admits :: "(NodeSelectorRequirement \<Rightarrow> 'n \<Rightarrow> bool) \<Rightarrow> Affinity option \<Rightarrow> 'n \<Rightarrow> bool" where
  "admits sat a n \<longleftrightarrow> (case required_terms a of None \<Rightarrow> True | Some ts \<Rightarrow> \<exists>t \<in> set ts. term_matches sat t n)"


lemma required_terms_pin:
  "required_terms (Some (pin_affinity node a)) =
     Some (case required_terms a of
             Some (t # ts) \<Rightarrow> map (\<lambda>t. t\<lparr>MatchExpressions := MatchExpressions t @ [hostnameReq node]\<rparr>) (t # ts)
           | _ \<Rightarrow> [\<lparr>MatchExpressions = [hostnameReq node], MatchFields = []\<rparr>])"
  by (auto simp: required_terms_def pin_affinity_def Let_def split: option.split list.split)



section \<open>Properties\<close>

text \<open>
  C16: what a release changes. The gates of this controller are removed and all others kept in
  order; the release reason and, when there is a target, the target node are recorded, the held-by
  annotation is dropped and every other annotation kept; with a target the affinity is pinned; all
  other fields of the pod are as before. The result is not a gated pod any more.
\<close>

theorem release_rewrites_pod:
  "released_pod node reason pod =
     pod\<lparr>pod_Annotations := pod_Annotations (released_pod node reason pod),
         SchedulingGates := filter (\<lambda>g. \<not> HasPrefix g GatePrefix) (SchedulingGates pod),
         pod_Affinity := (if node = '''' then pod_Affinity pod else Some (pin_affinity node (pod_Affinity pod)))\<rparr> \<and>
   \<not> hasKompaktGates (released_pod node reason pod) \<and>
   (\<forall>k. map_of (entries (pod_Annotations (released_pod node reason pod))) k =
      (if k = AnnotationHeldBy then None
       else if k = AnnotationNode \<and> node \<noteq> '''' then Some node
       else if k = AnnotationReason then Some reason
       else map_of (entries (pod_Annotations pod)) k))"
proof -
  have "released_pod node reason pod =
      pod\<lparr>pod_Annotations := pod_Annotations (released_pod node reason pod),
          SchedulingGates := filter (\<lambda>g. \<not> HasPrefix g GatePrefix) (SchedulingGates pod),
          pod_Affinity := (if node = '''' then pod_Affinity pod else Some (pin_affinity node (pod_Affinity pod)))\<rparr>"
    by (cases pod) (simp add: released_pod_def Let_def remaining_gates_eq)
  moreover have "map_of (entries (pod_Annotations (released_pod node reason pod))) k =
      (if k = AnnotationHeldBy then None
       else if k = AnnotationNode \<and> node \<noteq> '''' then Some node
       else if k = AnnotationReason then Some reason
       else map_of (entries (pod_Annotations pod)) k)" for k
    by (simp add: map_of_release_annotations)
  ultimately show ?thesis
    using released_no_gates [of node reason pod] by blast
qed



text \<open>
  An empty term is turned into a match. A required affinity whose only term is empty admits no
  node; after the release it admits the target.
\<close>

theorem pin_fills_empty_term:
  assumes "required_terms a = Some [\<lparr>MatchExpressions = [], MatchFields = []\<rparr>]"
    and "sat (hostnameReq node) n"
  shows "\<not> admits sat a n \<and> admits sat (Some (pin_affinity node a)) n"
  using assms by (simp add: admits_def required_terms_pin term_matches_def)

theorem pin_fills_empty_term_witness:
  "let sat = (\<lambda>r (n :: string). n \<in> set (req_Values r));
       a = Some \<lparr>aff_NodeAffinity = Some \<lparr>RequiredDuringScheduling = Some [\<lparr>MatchExpressions = [], MatchFields = []\<rparr>]\<rparr>\<rparr>
   in \<not> admits sat a ''node-1'' \<and> admits sat (Some (pin_affinity ''node-1'' a)) ''node-1''"
  unfolding Let_def
  by (rule pin_fills_empty_term) (simp_all add: required_terms_def hostnameReq_def)

text \<open>
  C28: the reservation timeout. A pod with a creation time is timed out exactly if more than the
  profile's timeout has passed since then; a missing or malformed timeout counts as three
  minutes. A pod without creation time never times out.
\<close>

theorem timeout_exact:
  assumes "timeout = (case ParseDuration (ReservationTimeout (pp_Spec p)) of Some t \<Rightarrow> t | None \<Rightarrow> 180 * 10 ^ 9)"
    and "timeout \<noteq> maxDuration"
  shows "isTimedOut now pod p \<longleftrightarrow>
    pod_CreationTimestamp pod \<noteq> 0 \<and> sint timeout < now - pod_CreationTimestamp pod"
proof -
  have t: "timeout = (case ParseDuration (ReservationTimeout (pp_Spec p)) of Some t \<Rightarrow> t | None \<Rightarrow> 3 * Minute)"
    using assms(1) by (simp add: Minute_def split: option.split)
  have "sint timeout \<noteq> 2 ^ 63 - 1"
    using assms(2) sint_eq_iff [of timeout maxDuration] by (simp add: sint_maxDuration)
  then have "sint timeout < 2 ^ 63 - 1"
    using sint_int64_upper [of timeout] by simp
  then have "sint timeout < sint (Since now (pod_CreationTimestamp pod)) \<longleftrightarrow> sint timeout < now - pod_CreationTimestamp pod"
    using sint_int64_lower [of timeout] unfolding Since_def sint_Sub by auto
  then show ?thesis
    unfolding isTimedOut_def Let_def t [symmetric] by (simp add: IsZero_def)
qed

theorem timeout_exact_witness:
  "let p = sample_profile [] in
   isTimedOut (1 + 181 * 10 ^ 9) (sample_pod []) p \<and> \<not> isTimedOut (1 + 180 * 10 ^ 9) (sample_pod []) p"
proof -
  have "ParseDuration (ReservationTimeout (pp_Spec (sample_profile []))) = Some 180000000000"
    by (simp add: sample_profile_def ParseDuration_3m)
  then have t: "180000000000 = (case ParseDuration (ReservationTimeout (pp_Spec (sample_profile []))) of
      Some t \<Rightarrow> t | None \<Rightarrow> 180 * 10 ^ 9)"
    by simp
  have m: "(180000000000 :: duration) \<noteq> maxDuration"
    by (simp add: maxDuration_def MaxInt64_def)
  show ?thesis
    using timeout_exact [OF t m, of _ "sample_pod []"] by (simp add: Let_def sample_pod_def)
qed

end
