(* ===== verification/Conditions.thy ===== *)
theory Conditions
  imports Gates
begin

text \<open>
  The status conditions of a profile (\<^verbatim>\<open>src/internal/controller/packingprofile_controller.go\<close>): the
  update of one condition and the four conditions the controller maintains. The clock is the
  argument \<open>now\<close>; conditions are written into the profile that is passed along.
\<close>

section \<open>Model\<close>

definition condReady :: string where "condReady = ''Ready''"
definition condProfileValid :: string where "condProfileValid = ''ProfileValid''"
definition condLedgerReady :: string where "condLedgerReady = ''LedgerReady''"
definition condInflightDetectionActive :: string where "condInflightDetectionActive = ''InflightDetectionActive''"

lemmas cond_names = condReady_def condProfileValid_def condLedgerReady_def condInflightDetectionActive_def

fun set_condition_loop ::
  "time \<Rightarrow> string \<Rightarrow> string \<Rightarrow> string \<Rightarrow> string \<Rightarrow> Condition list \<Rightarrow> Condition list" where
  "set_condition_loop now condType status reason message [] =
     [\<lparr>cond_Type = condType, cond_Status = status, cond_Reason = reason, cond_Message = message,
       cond_LastTransitionTime = now\<rparr>]"
| "set_condition_loop now condType status reason message (c # cs) =
     (if cond_Type c = condType then
        (if cond_Status c \<noteq> status \<or> cond_Reason c \<noteq> reason
         then c\<lparr>cond_Status := status, cond_Reason := reason, cond_Message := message,
                cond_LastTransitionTime := now\<rparr> # cs
         else c # cs)
      else c # set_condition_loop now condType status reason message cs)"

definition setCondition ::
  "time \<Rightarrow> string \<Rightarrow> string \<Rightarrow> string \<Rightarrow> string \<Rightarrow> PackingProfile \<Rightarrow> PackingProfile" where
  "setCondition now condType status reason message profile =
     profile\<lparr>pp_Status := (pp_Status profile)\<lparr>st_Conditions :=
       set_condition_loop now condType status reason message (st_Conditions (pp_Status profile))\<rparr>\<rparr>"

fun has_rule :: "string \<Rightarrow> RuleRef list \<Rightarrow> bool" where
  "has_rule name [] = False"
| "has_rule name (r # rs) = (if rule_Name r = name then True else has_rule name rs)"

definition profile_issues :: "PackingProfileSpec \<Rightarrow> string list" where
  "profile_issues spec =
     (let ds = sp_DemandSource spec; cs = sp_CapacitySource spec;
          i1 = (if ds_Type ds = ''ResourceRequest'' \<and> length (ds_Resources ds) = 0
                then [''demandSource.type=ResourceRequest but resources is empty''] else []);
          i2 = (if ds_Type ds = ''Annotation'' \<and> ds_Annotation ds = ''''
                then i1 @ [''demandSource.type=Annotation but annotation is empty''] else i1);
          i3 = (if cs_Type cs = ''NodeLabel'' \<and> cs_Label cs = ''''
                then i2 @ [''capacitySource.type=NodeLabel but label is empty''] else i2);
          hasScaleUp = has_rule ''WaitForNodeReady'' (sp_Rules spec)
      in if hasScaleUp \<and> length (NodeGroupTemplates cs) = 0
         then i3 @ [''WaitForNodeReady rule requires nodeGroupTemplates''] else i3)"

definition setProfileValidCondition :: "time \<Rightarrow> PackingProfile \<Rightarrow> PackingProfile" where
  "setProfileValidCondition now profile =
     (let issues = profile_issues (pp_Spec profile) in
      if 0 < length issues
      then setCondition now condProfileValid ''False'' ''ConfigurationError'' (Join issues ''; '') profile
      else setCondition now condProfileValid ''True'' ''Valid'' ''profile configuration is valid'' profile)"

definition setLedgerReadyCondition :: "time \<Rightarrow> string option \<Rightarrow> PackingProfile \<Rightarrow> PackingProfile" where
  "setLedgerReadyCondition now syncErr profile =
     (case syncErr of
        Some e \<Rightarrow> setCondition now condLedgerReady ''False'' ''SyncFailed'' e profile
      | None \<Rightarrow> setCondition now condLedgerReady ''True'' ''Synced'' ''ledger synced from cluster state'' profile)"

definition setInflightDetectionCondition ::
  "time \<Rightarrow> nat \<Rightarrow> string list \<Rightarrow> 'd list \<Rightarrow> PackingProfile \<Rightarrow> PackingProfile" where
  "setInflightDetectionCondition now inflightCount activeDetectors allDetectors profile =
     (if length allDetectors = 0
      then setCondition now condInflightDetectionActive ''False'' ''NoDetectors''
             ''no inflight detectors configured'' profile
      else if 0 < inflightCount
      then setCondition now condInflightDetectionActive ''True'' ''Detected''
             (Itoa inflightCount @ '' inflight node(s) detected by '' @ Join activeDetectors '', '') profile
      else setCondition now condInflightDetectionActive ''False'' ''NoneDetected''
             ''no inflight nodes detected'' profile)"

fun condition_true_loop :: "string \<Rightarrow> Condition list \<Rightarrow> bool" where
  "condition_true_loop condType [] = False"
| "condition_true_loop condType (c # cs) =
     (if cond_Type c = condType then cond_Status c = ''True'' else condition_true_loop condType cs)"

definition conditionIsTrue :: "PackingProfile \<Rightarrow> string \<Rightarrow> bool" where
  "conditionIsTrue profile condType = condition_true_loop condType (st_Conditions (pp_Status profile))"

definition setReadyCondition :: "time \<Rightarrow> PackingProfile \<Rightarrow> PackingProfile" where
  "setReadyCondition now profile =
     (let profileValid = conditionIsTrue profile condProfileValid;
          ledgerReady = conditionIsTrue profile condLedgerReady
      in if profileValid \<and> ledgerReady
         then setCondition now condReady ''True'' ''Ready'' ''profile is valid and ledger is synced'' profile
         else
           let r1 = (if \<not> profileValid then [''ProfileValid=False''] else []);
               reasons = (if \<not> ledgerReady then r1 @ [''LedgerReady=False''] else r1)
           in setCondition now condReady ''False'' ''NotReady'' (Join reasons '', '') profile)"

text \<open>\<^verbatim>\<open>warnProfileMisconfig\<close>: the warnings it logs, in order.\<close>

definition warnProfileMisconfig :: "PackingProfile \<Rightarrow> string list" where
  "warnProfileMisconfig profile =
     (let ds = sp_DemandSource (pp_Spec profile); cs = sp_CapacitySource (pp_Spec profile);
          hasScaleUpRule = has_rule ''WaitForNodeReady'' (sp_Rules (pp_Spec profile))
      in (if ds_Type ds = ''ResourceRequest'' \<and> length (ds_Resources ds) = 0
          then [''demandSource.type=ResourceRequest but resources list is empty, all pods will have zero demand''] else [])
       @ (if ds_Type ds = ''Annotation'' \<and> ds_Annotation ds = ''''
          then [''demandSource.type=Annotation but annotation field is empty, all pods will have zero demand''] else [])
       @ (if cs_Type cs = ''NodeLabel'' \<and> cs_Label cs = ''''
          then [''capacitySource.type=NodeLabel but label field is empty''] else [])
       @ (if hasScaleUpRule \<and> length (NodeGroupTemplates cs) = 0
          then [''WaitForNodeReady rule configured but no nodeGroupTemplates defined, inflight nodes will have unknown capacity'']
          else []))"

section \<open>Lemmas\<close>

definition condition :: "PackingProfile \<Rightarrow> string \<Rightarrow> Condition option" where
  "condition p ty = List.find (\<lambda>c. cond_Type c = ty) (st_Conditions (pp_Status p))"

text \<open>What \<^verbatim>\<open>setCondition\<close> writes, given the condition that is there.\<close>

definition next_condition :: "time \<Rightarrow> string \<Rightarrow> string \<Rightarrow> string \<Rightarrow> string \<Rightarrow> Condition option \<Rightarrow> Condition" where
  "next_condition now ty status reason message c =
     (case c of
        None \<Rightarrow> \<lparr>cond_Type = ty, cond_Status = status, cond_Reason = reason, cond_Message = message,
                 cond_LastTransitionTime = now\<rparr>
      | Some c \<Rightarrow> if cond_Status c \<noteq> status \<or> cond_Reason c \<noteq> reason
                  then c\<lparr>cond_Status := status, cond_Reason := reason, cond_Message := message,
                         cond_LastTransitionTime := now\<rparr>
                  else c)"

lemma find_set_condition_loop:
  "List.find (\<lambda>c. cond_Type c = ty') (set_condition_loop now ty s r m cs) =
     (if ty' = ty then Some (next_condition now ty s r m (List.find (\<lambda>c. cond_Type c = ty) cs))
      else List.find (\<lambda>c. cond_Type c = ty') cs)"
  by (induction cs) (auto simp: next_condition_def split: option.splits)

lemma condition_setCondition:
  "condition (setCondition now ty s r m p) ty' =
     (if ty' = ty then Some (next_condition now ty s r m (condition p ty)) else condition p ty')"
  by (simp add: condition_def setCondition_def find_set_condition_loop)

lemma conditionIsTrue_condition:
  "conditionIsTrue p ty \<longleftrightarrow> (\<exists>c. condition p ty = Some c \<and> cond_Status c = ''True'')"
proof -
  have "condition_true_loop ty cs \<longleftrightarrow>
      (\<exists>c. List.find (\<lambda>c. cond_Type c = ty) cs = Some c \<and> cond_Status c = ''True'')" for cs
    by (induction cs) auto
  then show ?thesis by (simp add: conditionIsTrue_def condition_def)
qed

lemma next_condition_status [simp]:
  "cond_Status (next_condition now ty s r m c) = s" "cond_Reason (next_condition now ty s r m c) = r"
  by (auto simp: next_condition_def split: option.split)

lemma conditionIsTrue_setCondition:
  "conditionIsTrue (setCondition now ty s r m p) ty' = (if ty' = ty then s = ''True'' else conditionIsTrue p ty')"
  by (simp add: conditionIsTrue_condition condition_setCondition)

lemma pp_Spec_setCondition [simp]: "pp_Spec (setCondition now ty s r m p) = pp_Spec p"
  by (simp add: setCondition_def)

lemma pp_Name_setCondition [simp]: "pp_Name (setCondition now ty s r m p) = pp_Name p"
  by (simp add: setCondition_def)

lemma cond_types_loop:
  "map cond_Type (set_condition_loop now ty s r m cs) =
     (if ty \<in> cond_Type ` set cs then map cond_Type cs else map cond_Type cs @ [ty])"
  by (induction cs) auto

definition one_per_type :: "PackingProfile \<Rightarrow> bool" where
  "one_per_type p \<longleftrightarrow> distinct (map cond_Type (st_Conditions (pp_Status p)))"

lemma one_per_type_setCondition: "one_per_type p \<Longrightarrow> one_per_type (setCondition now ty s r m p)"
  by (auto simp: one_per_type_def setCondition_def cond_types_loop)

lemma has_rule_iff: "has_rule name rs \<longleftrightarrow> name \<in> rule_Name ` set rs"
  by (induction rs) auto

section \<open>Writers of one condition\<close>

text \<open>
  The interface the status update relies on: an operation that writes one condition, with a status,
  reason and message read off the profile.
\<close>

locale condition_writer =
  fixes upd :: "time \<Rightarrow> PackingProfile \<Rightarrow> PackingProfile" and ty :: string
    and st rs msg :: "PackingProfile \<Rightarrow> string"
  assumes upd_eq: "upd now p = setCondition now ty (st p) (rs p) (msg p) p"
begin

lemma truth: "conditionIsTrue (upd now p) ty' = (if ty' = ty then st p = ''True'' else conditionIsTrue p ty')"
  by (simp add: upd_eq conditionIsTrue_setCondition)

lemma others_kept: "ty' \<noteq> ty \<Longrightarrow> condition (upd now p) ty' = condition p ty'"
  by (simp add: upd_eq condition_setCondition)

lemma spec_kept: "pp_Spec (upd now p) = pp_Spec p"
  by (simp add: upd_eq)

lemma name_kept: "pp_Name (upd now p) = pp_Name p"
  by (simp add: upd_eq)

lemma one_kept: "one_per_type p \<Longrightarrow> one_per_type (upd now p)"
  by (simp add: upd_eq one_per_type_setCondition)

lemma counters_kept:
  "ActiveGates (pp_Status (upd now p)) = ActiveGates (pp_Status p)"
  "InflightNodes (pp_Status (upd now p)) = InflightNodes (pp_Status p)"
  by (simp_all add: upd_eq setCondition_def)

text \<open>The transition time and the message are those of the last change of status or reason.\<close>

lemma settled:
  assumes "condition p ty = Some c" and "cond_Status c = st p" and "cond_Reason c = rs p"
  shows "condition (upd now p) ty = Some c"
  using assms by (simp add: upd_eq condition_setCondition next_condition_def)

lemma moved:
  assumes "condition p ty = Some c" and "cond_Status c \<noteq> st p \<or> cond_Reason c \<noteq> rs p"
  shows "\<exists>c'. condition (upd now p) ty = Some c' \<and> cond_LastTransitionTime c' = now \<and> cond_Message c' = msg p"
  using assms by (simp add: upd_eq condition_setCondition next_condition_def)

end

interpretation valid: condition_writer setProfileValidCondition condProfileValid
  "\<lambda>p. if profile_issues (pp_Spec p) = [] then ''True'' else ''False''"
  "\<lambda>p. if profile_issues (pp_Spec p) = [] then ''Valid'' else ''ConfigurationError''"
  "\<lambda>p. if profile_issues (pp_Spec p) = [] then ''profile configuration is valid'' else Join (profile_issues (pp_Spec p)) ''; ''"
  by unfold_locales (simp add: setProfileValidCondition_def Let_def)

interpretation ledger_ready: condition_writer "\<lambda>now. setLedgerReadyCondition now e" condLedgerReady
  "\<lambda>_. if e = None then ''True'' else ''False''" "\<lambda>_. if e = None then ''Synced'' else ''SyncFailed''"
  "\<lambda>_. case e of None \<Rightarrow> ''ledger synced from cluster state'' | Some t \<Rightarrow> t"
  by unfold_locales (simp add: setLedgerReadyCondition_def split: option.split)

interpretation detection: condition_writer "\<lambda>now. setInflightDetectionCondition now k active all" condInflightDetectionActive
  "\<lambda>_. if all \<noteq> [] \<and> 0 < k then ''True'' else ''False''"
  "\<lambda>_. if all = [] then ''NoDetectors'' else if 0 < k then ''Detected'' else ''NoneDetected''"
  "\<lambda>_. if all = [] then ''no inflight detectors configured''
       else if 0 < k then Itoa k @ '' inflight node(s) detected by '' @ Join active '', '' else ''no inflight nodes detected''"
  by unfold_locales (simp add: setInflightDetectionCondition_def)

interpretation ready_cond: condition_writer setReadyCondition condReady
  "\<lambda>p. if conditionIsTrue p condProfileValid \<and> conditionIsTrue p condLedgerReady then ''True'' else ''False''"
  "\<lambda>p. if conditionIsTrue p condProfileValid \<and> conditionIsTrue p condLedgerReady then ''Ready'' else ''NotReady''"
  "\<lambda>p. if conditionIsTrue p condProfileValid \<and> conditionIsTrue p condLedgerReady then ''profile is valid and ledger is synced''
       else Join ((if conditionIsTrue p condProfileValid then [] else [''ProfileValid=False'']) @
                  (if conditionIsTrue p condLedgerReady then [] else [''LedgerReady=False''])) '', ''"
  by unfold_locales (simp add: setReadyCondition_def Let_def)

lemmas condition_truths = valid.truth ledger_ready.truth detection.truth ready_cond.truth
lemmas condition_frames [simp] =
  valid.spec_kept ledger_ready.spec_kept detection.spec_kept ready_cond.spec_kept
  valid.name_kept ledger_ready.name_kept detection.name_kept ready_cond.name_kept
  valid.counters_kept ledger_ready.counters_kept detection.counters_kept ready_cond.counters_kept
lemmas one_per_type_setters = valid.one_kept ledger_ready.one_kept detection.one_kept ready_cond.one_kept

text \<open>
  A message can be out of date: when the number of in-flight nodes changes but stays positive, the
  condition keeps the message with the old number.
\<close>

lemma detection_message_goes_stale:
  assumes "all \<noteq> []" and "0 < k" and "0 < k'"
  shows "condition (setInflightDetectionCondition now' k' active' all (setInflightDetectionCondition now k active all p))
      condInflightDetectionActive
    = condition (setInflightDetectionCondition now k active all p) condInflightDetectionActive"
proof -
  obtain c where c: "condition (setInflightDetectionCondition now k active all p) condInflightDetectionActive = Some c"
      "cond_Status c = ''True''" "cond_Reason c = ''Detected''"
    using assms(1,2) by (simp add: detection.upd_eq condition_setCondition)
  have "condition (setInflightDetectionCondition now' k' active' all (setInflightDetectionCondition now k active all p))
      condInflightDetectionActive = Some c"
    by (rule detection.settled [OF c(1)]) (use assms c in simp_all)
  with c(1) show ?thesis by simp
qed

end
