(* ===== verification/Sync.thy ===== *)
theory Sync
  imports Templates Conditions
begin

text \<open>
  The rebuild of the ledger from cluster state (\<^verbatim>\<open>syncLedger\<close> of
  \<^verbatim>\<open>src/internal/controller/packingprofile_controller.go\<close>). The reconciler's own state is the
  record \<open>Reconciler\<close>; the Kubernetes API is the argument \<open>api\<close>, a record of the answers the
  API server gives to the requests the controller makes. Metrics, events and writes are collected
  as a list of effects; log lines are not modelled.
\<close>

section \<open>Model\<close>

record Reconciler =
  rc_Ledger :: NodeLedger
  Detectors :: "Detector list"
  activeDetectors :: "string list"

record 'q Api =
  api_get_pod :: "string \<Rightarrow> string \<Rightarrow> api_error + 'q Pod"
  api_get_profile :: "string \<Rightarrow> api_error + PackingProfile"
  api_list_nodes :: "api_error + 'q Node list"
  api_list_pods :: "api_error + 'q Pod list"
  api_list_profile_pods :: "string \<Rightarrow> api_error + 'q Pod list"
  api_patch_pod :: "'q Pod \<Rightarrow> 'q Pod \<Rightarrow> api_error option"
  api_update_status :: "PackingProfile \<Rightarrow> api_error option"
  APIReader :: "'q Reader option"
  client_reader :: "'q Reader"

datatype 'q effect =
    GateReleasesTotal string string
  | GateHoldDuration string string duration
  | RuleEvaluationDuration string
  | RuleEvaluationsTotal string string
  | LedgerNodes nat
  | LedgerAllocatableMillicores int64
  | LedgerAllocatableMemoryBytes int64
  | LedgerInflightNodes string nat
  | RecordEvent string string
  | PatchPod "'q Pod" "'q Pod"
  | UpdateStatus PackingProfile

fun missing_resource :: "resources \<Rightarrow> string list \<Rightarrow> bool" where
  "missing_resource alloc [] = False"
| "missing_resource alloc (res # rs) =
     (if res = ''cpu'' \<or> res = ''memory'' then missing_resource alloc rs
      else if map_of alloc res = None then True
      else missing_resource alloc rs)"

definition sync_node :: "('q \<Rightarrow> int64) \<Rightarrow> PackingProfile \<Rightarrow> 'q Node \<Rightarrow> NodeLedger \<Rightarrow> NodeLedger" where
  "sync_node milli profile node l =
     (if node_DeletionTimestamp node \<noteq> None then l
      else
        let alloc = milli_values milli (node_Allocatable node) in
        if ds_Type (sp_DemandSource (pp_Spec profile)) = ''ResourceRequest''
           \<and> missing_resource alloc (ds_Resources (sp_DemandSource (pp_Spec profile)))
        then l
        else
          let l1 = AddNode l (node_Name node) alloc (node_Labels node) (node_Taints node);
              taskID = sget (node_Labels node) ''goatscaler.io/provision-task-id''
          in if taskID \<noteq> '''' then RemoveInflightNode l1 (pp_Name profile @ ''/'' @ taskID) else l1)"

definition add_usage :: "('q \<Rightarrow> int64) \<Rightarrow> 'q Pod \<Rightarrow> (string, resources) gmap \<Rightarrow> (string, resources) gmap" where
  "add_usage milli p usage =
     (if pod_NodeName p = '''' then usage
      else if pod_Phase p = ''Succeeded'' \<or> pod_Phase p = ''Failed'' then usage
      else
        let usage1 = (if map_of usage (pod_NodeName p) = None then mput (pod_NodeName p) [] usage else usage)
        in fold (\<lambda>c. fold (\<lambda>(res, qty). madj (pod_NodeName p) (\<lambda>u. mput res (qget u res + milli qty) u)) (Requests c))
             (Containers p) usage1)"

definition pod_usage :: "('q \<Rightarrow> int64) \<Rightarrow> 'q Pod list \<Rightarrow> (string, resources) gmap" where
  "pod_usage milli items = fold (add_usage milli) items []"

definition apply_usage :: "(string, resources) gmap \<Rightarrow> NodeLedger \<Rightarrow> NodeLedger" where
  "apply_usage usage l = fold (\<lambda>(name, u) l. UpdateUsage l name u) usage l"

definition ledger_gauges :: "NodeLedger \<Rightarrow> 'q effect list" where
  "ledger_gauges l =
     (let snapshot = Snapshot l in
      [LedgerNodes (NodeCount snapshot),
       LedgerAllocatableMillicores (qget (TotalAllocatable snapshot) ''cpu''),
       LedgerAllocatableMemoryBytes (qget (TotalAllocatable snapshot) ''memory'')])"

text \<open>The detector chain: the first detector that finds nodes wins; a failing one is skipped.\<close>

fun detect_chain ::
  "(Detector \<Rightarrow> (string + InflightNode list) \<times> Detector) \<Rightarrow> Detector list
   \<Rightarrow> InflightNode list \<times> string \<times> Detector list \<times> 'q effect list" where
  "detect_chain detect [] = ([], '''', [], [])"
| "detect_chain detect (d # ds) =
     (case detect d of
        (Inl _, d') \<Rightarrow>
          (case detect_chain detect ds of (ns, active, ds', es) \<Rightarrow> (ns, active, d' # ds', es))
      | (Inr ns, d') \<Rightarrow>
          if 0 < length ns
          then (ns, detector_Name d', d' # ds, [LedgerInflightNodes (detector_Name d') (length ns)])
          else
            (case detect_chain detect ds of (ns', active, ds', es) \<Rightarrow>
               (ns', active, d' # ds', LedgerInflightNodes (detector_Name d') (length ns) # es)))"

definition sync_inflight :: "PackingProfile \<Rightarrow> 'q Pod \<Rightarrow> InflightNode \<Rightarrow> NodeLedger \<Rightarrow> NodeLedger" where
  "sync_inflight profile pod n l =
     (let templates = NodeGroupTemplates (sp_CapacitySource (pp_Spec profile));
          tmpl = (case findMatchingTemplate n templates of
                    Some t \<Rightarrow> Some t
                  | None \<Rightarrow> findTemplateForPod pod templates);
          (alloc, labels, taints) =
            (case tmpl of
               Some t \<Rightarrow>
                 (if length (in_Allocatable n) = 0 then copyTemplateAllocatable (tmpl_Allocatable t) else in_Allocatable n,
                  if length (entries (in_Labels n)) = 0 then tmpl_Labels t else in_Labels n,
                  templateTaintsToCoreTaints (tmpl_Taints t))
             | None \<Rightarrow> (in_Allocatable n, in_Labels n, []))
      in AddInflightNode l (pp_Name profile @ ''/'' @ in_Name n) alloc labels taints)"

definition syncLedger ::
  "('q \<Rightarrow> int64) \<Rightarrow> time \<Rightarrow> 'q Api \<Rightarrow> PackingProfile \<Rightarrow> 'q Pod \<Rightarrow> Reconciler
   \<Rightarrow> string option \<times> Reconciler \<times> 'q effect list" where
  "syncLedger milli now api profile pod r =
     (let reservations = SnapshotReservations (rc_Ledger r);
          l1 = ClearNodes (rc_Ledger r);
          l2 = ClearInflightByPrefix l1 (pp_Name profile @ ''/'')
      in case api_list_nodes api of
           Inl e \<Rightarrow> (Some (error_text e), r\<lparr>rc_Ledger := l2\<rparr>, [])
         | Inr nodeItems \<Rightarrow>
             let l3 = fold (sync_node milli profile) nodeItems l2
             in case api_list_pods api of
                  Inl e \<Rightarrow> (Some (error_text e), r\<lparr>rc_Ledger := l3\<rparr>, [])
                | Inr podItems \<Rightarrow>
                    let l4 = apply_usage (pod_usage milli podItems) l3;
                        reader = (case APIReader api of None \<Rightarrow> client_reader api | Some rd \<Rightarrow> rd);
                        (inflightNodes, activeDetector, ds, es) =
                          detect_chain (Detect milli now reader) (Detectors r);
                        active = (if activeDetector \<noteq> '''' then [activeDetector] else []);
                        l5 = fold (sync_inflight profile pod) inflightNodes l4;
                        l6 = RestoreReservations l5 reservations
                    in (None, r\<lparr>rc_Ledger := l6, Detectors := ds, activeDetectors := active\<rparr>,
                        ledger_gauges l4 @ es))"


section \<open>Nodes\<close>

definition synced :: "('q \<Rightarrow> int64) \<Rightarrow> PackingProfile \<Rightarrow> 'q Node \<Rightarrow> bool" where
  "synced milli profile node \<longleftrightarrow> node_DeletionTimestamp node = None \<and>
     \<not> (ds_Type (sp_DemandSource (pp_Spec profile)) = ''ResourceRequest'' \<and>
        missing_resource (milli_values milli (node_Allocatable node)) (ds_Resources (sp_DemandSource (pp_Spec profile))))"

definition node_entry :: "('q \<Rightarrow> int64) \<Rightarrow> 'q Node \<Rightarrow> nodeEntry" where
  "node_entry milli node =
     \<lparr>allocatable = copyMap (milli_values milli (node_Allocatable node)), used = [], reserved = [],
      ne_labels = copyStringMap (node_Labels node), ne_taints = node_Taints node\<rparr>"

lemma missing_resource_iff:
  "missing_resource alloc rs \<longleftrightarrow> (\<exists>res \<in> set rs. \<not> (res = ''cpu'' \<or> res = ''memory'') \<and> map_of alloc res = None)"
proof (induction rs)
  case Nil
  then show ?case by simp
next
  case (Cons r rs)
  show ?case
    unfolding missing_resource.simps Cons.IH by (simp only: list.set bex_simps if_bool_eq_disj) blast
qed

lemma mdel_absent: "map_of m k = None \<Longrightarrow> mdel k m = m"
  by (simp add: mdel_def map_of_eq_None_iff)

definition no_entries_of :: "PackingProfile \<Rightarrow> NodeLedger \<Rightarrow> bool" where
  "no_entries_of profile l \<longleftrightarrow> (\<forall>k. map_of (inflight l) (pp_Name profile @ ''/'' @ k) = None)"

lemma sync_node_eq:
  assumes "no_entries_of profile l"
  shows "sync_node milli profile node l =
    (if synced milli profile node then l\<lparr>nodes := mput (node_Name node) (node_entry milli node) (nodes l)\<rparr> else l)"
proof -
  have "RemoveInflightNode (AddNode l name a ls ts) (pp_Name profile @ ''/'' @ k) = AddNode l name a ls ts" for name a ls ts k
    using assms by (simp add: RemoveInflightNode_def AddNode_def no_entries_of_def mdel_absent)
  then show ?thesis
    unfolding sync_node_def synced_def Let_def by (simp add: AddNode_def node_entry_def)
qed

text \<open>The removal of in-flight entries inside the node loop never removes anything.\<close>

lemma sync_nodes_eq:
  "no_entries_of profile l \<Longrightarrow>
   fold (sync_node milli profile) items l =
     l\<lparr>nodes := fold (\<lambda>n. mput (node_Name n) (node_entry milli n)) (filter (synced milli profile) items) (nodes l)\<rparr>"
proof (induction items arbitrary: l)
  case Nil
  then show ?case by simp
next
  case (Cons n items)
  have "no_entries_of profile (sync_node milli profile n l)"
    using Cons.prems by (simp add: sync_node_eq) (simp add: no_entries_of_def)
  with Cons show ?case by (simp add: sync_node_eq)
qed

lemma map_of_fold_mput:
  "map_of (fold (\<lambda>x. mput (f x) (g x)) xs m) k =
     (case List.find (\<lambda>x. f x = k) (rev xs) of Some x \<Rightarrow> Some (g x) | None \<Rightarrow> map_of m k)"
proof (induction xs rule: rev_induct)
  case Nil
  then show ?case by simp
next
  case (snoc x xs)
  then show ?case by (simp add: map_of_mput)
qed

section \<open>Usage\<close>

definition active_on :: "string \<Rightarrow> 'q Pod \<Rightarrow> bool" where
  "active_on name p \<longleftrightarrow> pod_NodeName p = name \<and> name \<noteq> '''' \<and> pod_Phase p \<noteq> ''Succeeded'' \<and> pod_Phase p \<noteq> ''Failed''"

definition pod_requests :: "('q \<Rightarrow> int64) \<Rightarrow> 'q Pod \<Rightarrow> string \<Rightarrow> int64" where
  "pod_requests milli p res = (\<Sum>c\<leftarrow>Containers p. requested milli (Requests c) res)"

lemma wf_add_usage: "wf_gmap u \<Longrightarrow> wf_gmap (add_usage milli p u)"
  unfolding add_usage_def Let_def
  by (simp, intro impI conjI wf_gmap_fold) (auto split: prod.split)

lemma wf_pod_usage: "wf_gmap (pod_usage milli items)"
  unfolding pod_usage_def by (intro wf_gmap_fold) (simp_all add: wf_add_usage)

lemma map_of_fold_madj:
  "map_of (fold (\<lambda>x. madj k (h x)) xs u) k' = (if k' = k then map_option (fold h xs) (map_of u k) else map_of u k')"
  by (induction xs arbitrary: u) (auto simp: map_of_madj option.map_comp comp_def option.map_id0)

definition count_request :: "('q \<Rightarrow> int64) \<Rightarrow> string \<times> 'q \<Rightarrow> resources \<Rightarrow> resources" where
  "count_request milli x u = (case x of (res, qty) \<Rightarrow> mput res (qget u res + milli qty) u)"

definition count_pod :: "('q \<Rightarrow> int64) \<Rightarrow> 'q Pod \<Rightarrow> resources \<Rightarrow> resources" where
  "count_pod milli p u = fold (\<lambda>c. fold (count_request milli) (Requests c)) (Containers p) u"

lemma map_of_add_usage:
  "map_of (add_usage milli p u) k =
     (if active_on k p then Some (count_pod milli p (mget [] u k)) else map_of u k)"
proof -
  have step: "(\<lambda>(res, qty). madj n (\<lambda>u. mput res (qget u res + milli qty) u)) = (\<lambda>x. madj n (count_request milli x))" for n
    by (rule ext) (simp add: count_request_def [abs_def] split: prod.split)
  have fold2: "map_of (fold (\<lambda>c. fold (\<lambda>x. madj n (count_request milli x)) (Requests c)) cs u) k =
      (if k = n then map_option (fold (\<lambda>c. fold (count_request milli) (Requests c)) cs) (map_of u n) else map_of u k)"
    for n u and cs :: "'a Container list"
    by (induction cs arbitrary: u) (auto simp: map_of_fold_madj option.map_comp comp_def option.map_id0)
  show ?thesis
    unfolding add_usage_def step Let_def count_pod_def active_on_def
    by (cases "map_of u (pod_NodeName p)") (auto simp: fold2 map_of_mput mget_None mget_Some)
qed

lemma map_of_pod_usage:
  "map_of (pod_usage milli items) k =
     (if \<exists>p \<in> set items. active_on k p
      then Some (fold (count_pod milli) (filter (active_on k) items) []) else None)"
proof -
  have "map_of (fold (add_usage milli) items u) k =
      (if \<exists>p \<in> set items. active_on k p
       then Some (fold (count_pod milli) (filter (active_on k) items) (mget [] u k)) else map_of u k)" for u
    by (induction items arbitrary: u) (auto simp: map_of_add_usage mget_def)
  then show ?thesis by (simp add: pod_usage_def)
qed

lemma qget_count_requests:
  "wf_gmap reqs \<Longrightarrow> qget (fold (count_request milli) reqs u) res = qget u res + requested milli reqs res"
proof (induction reqs arbitrary: u)
  case Nil
  then show ?case by (simp add: requested_def)
next
  case (Cons x reqs)
  obtain k q where x: "x = (k, q)" by (cases x)
  have "map_of reqs k = None" "wf_gmap reqs"
    using Cons.prems by (auto simp: x wf_gmap_Cons map_of_eq_None_iff)
  then show ?case
    by (simp add: x Cons.IH) (simp add: count_request_def requested_def)
qed

lemma qget_count_pod:
  assumes "\<forall>c \<in> set (Containers p). wf_gmap (Requests c)"
  shows "qget (count_pod milli p u) res = qget u res + pod_requests milli p res"
proof -
  have "\<forall>c \<in> set cs. wf_gmap (Requests c) \<Longrightarrow>
      qget (fold (\<lambda>c. fold (count_request milli) (Requests c)) cs u) res =
        qget u res + (\<Sum>c\<leftarrow>cs. requested milli (Requests c) res)" for cs :: "'a Container list"
    by (induction cs arbitrary: u) (simp_all add: qget_count_requests algebra_simps)
  with assms show ?thesis by (simp add: count_pod_def pod_requests_def)
qed

definition node_usage :: "('q \<Rightarrow> int64) \<Rightarrow> 'q Pod list \<Rightarrow> string \<Rightarrow> resources" where
  "node_usage milli items name = fold (count_pod milli) (filter (active_on name) items) []"

lemma qget_node_usage:
  assumes "\<forall>p \<in> set items. \<forall>c \<in> set (Containers p). wf_gmap (Requests c)"
  shows "qget (node_usage milli items name) res =
    (\<Sum>p\<leftarrow>filter (active_on name) items. pod_requests milli p res)"
proof -
  have "\<forall>p \<in> set ps. \<forall>c \<in> set (Containers p). wf_gmap (Requests c) \<Longrightarrow>
      qget (fold (count_pod milli) ps u) res = qget u res + (\<Sum>p\<leftarrow>ps. pod_requests milli p res)" for ps u
    by (induction ps arbitrary: u) (simp_all add: qget_count_pod algebra_simps)
  moreover have "\<forall>p \<in> set (filter (active_on name) items). \<forall>c \<in> set (Containers p). wf_gmap (Requests c)"
    using assms by auto
  ultimately show ?thesis
    unfolding node_usage_def by (metis add_0 mget_Nil)
qed

lemma map_of_UpdateUsage:
  "map_of (nodes (UpdateUsage l name u)) k =
     map_option (\<lambda>n. if k = name then n\<lparr>used := copyMap u\<rparr> else n) (map_of (nodes l) k)"
  "inflight (UpdateUsage l name u) = inflight l"
proof -
  show "map_of (nodes (UpdateUsage l name u)) k =
      map_option (\<lambda>n. if k = name then n\<lparr>used := copyMap u\<rparr> else n) (map_of (nodes l) k)"
    by (cases "k = name") (auto simp: UpdateUsage_def map_of_madj option.map_ident split: option.split)
qed (simp add: UpdateUsage_def split: option.split)

lemma apply_usage_lookup:
  assumes "wf_gmap usage"
  shows "map_of (nodes (apply_usage usage l)) k =
      map_option (\<lambda>n. case map_of usage k of None \<Rightarrow> n | Some u \<Rightarrow> n\<lparr>used := copyMap u\<rparr>) (map_of (nodes l) k)"
    and "inflight (apply_usage usage l) = inflight l"
  using assms unfolding apply_usage_def
proof (induction usage arbitrary: l)
  case Nil
  {
    case 1
    then show ?case by (simp add: option.map_ident)
  next
    case 2
    then show ?case by simp
  }
next
  case (Cons x usage)
  obtain name u where x: "x = (name, u)" by (cases x)
  {
    case 1
    then have "map_of usage name = None" "wf_gmap usage"
      by (auto simp: x wf_gmap_Cons map_of_eq_None_iff)
    then show ?case
      using Cons.IH(1) [of "UpdateUsage l name u"]
      by (cases "k = name"; cases "map_of (nodes l) k")
         (simp_all add: x map_of_UpdateUsage split: option.split)
  next
    case 2
    then show ?case
      using Cons.IH(2) [of "UpdateUsage l name u"] by (simp add: x wf_gmap_Cons map_of_UpdateUsage)
  }
qed


section \<open>Detection\<close>

lemma Detect_name: "Detect milli now rd d = (r, d') \<Longrightarrow> detector_Name d' = detector_Name d"
  by (cases d) (auto split: prod.splits)

lemma detect_chain_first:
  fixes es :: "'q effect list"
  assumes "detect_chain (Detect milli now rd) ds = (ns, active, ds', es)"
  shows "(\<forall>d \<in> set ds. fst (Detect milli now rd d) = Inr []) \<and> ns = [] \<and> active = '''' \<or>
    (\<exists>pre d post. ds = pre @ d # post \<and> (\<forall>d' \<in> set pre. fst (Detect milli now rd d') = Inr []) \<and>
       fst (Detect milli now rd d) = Inr ns \<and> ns \<noteq> [] \<and> active = detector_Name d)"
  using assms
proof (induction ds arbitrary: ns active ds' es)
  case Nil
  then show ?case by simp
next
  case (Cons d ds)
  obtain ms d' where det: "Detect milli now rd d = (Inr ms, d')"
    using detectors.detect_total by blast
  note name = Detect_name [OF det]
  show ?case
  proof (cases "ms = []")
    case True
    obtain ns1 a1 ds1 and es1 :: "'q effect list"
      where rest: "detect_chain (Detect milli now rd) ds = (ns1, a1, ds1, es1)"
      by (metis prod_cases4)
    have "ns = ns1" "active = a1"
      using Cons.prems by (simp_all add: det True rest)
    from Cons.IH [OF rest] show ?thesis
    proof (elim disjE exE conjE)
      assume "\<forall>d \<in> set ds. fst (Detect milli now rd d) = Inr []" "ns1 = []" "a1 = ''''"
      then show ?thesis
        using \<open>ns = ns1\<close> \<open>active = a1\<close> by (simp add: det True)
    next
      fix pre e post
      assume "ds = pre @ e # post" "\<forall>d' \<in> set pre. fst (Detect milli now rd d') = Inr []"
        "fst (Detect milli now rd e) = Inr ns1" "ns1 \<noteq> []" "a1 = detector_Name e"
      then have "d # ds = (d # pre) @ e # post \<and> (\<forall>d' \<in> set (d # pre). fst (Detect milli now rd d') = Inr []) \<and>
          fst (Detect milli now rd e) = Inr ns \<and> ns \<noteq> [] \<and> active = detector_Name e"
        using \<open>ns = ns1\<close> \<open>active = a1\<close> by (simp add: det True)
      then show ?thesis by blast
    qed
  next
    case False
    then have "ns = ms" "active = detector_Name d"
      using Cons.prems by (simp_all add: det name)
    then have "d # ds = [] @ d # ds \<and> (\<forall>d' \<in> set []. fst (Detect milli now rd d') = Inr []) \<and>
        fst (Detect milli now rd d) = Inr ns \<and> ns \<noteq> [] \<and> active = detector_Name d"
      using False by (simp add: det)
    then show ?thesis by blast
  qed
qed

lemma detect_chain_amounts:
  assumes "detect_chain (Detect milli now rd) ds = (ns, active, ds', es)" and "reader_ok milli rd" and "n \<in> set ns"
  shows "amounts_ok (in_Allocatable n)"
proof -
  from detect_chain_first [OF assms(1)] assms(3) obtain d where "fst (Detect milli now rd d) = Inr ns"
    by auto
  then have "Detect milli now rd d = (Inr ns, snd (Detect milli now rd d))"
    by (metis prod.collapse)
  then show ?thesis
    using assms(2,3) detectors.detect_amounts by blast
qed

section \<open>In-flight entries\<close>

definition chosen_template :: "PackingProfile \<Rightarrow> 'q Pod \<Rightarrow> InflightNode \<Rightarrow> NodeGroupTemplate option" where
  "chosen_template profile pod n =
     (let ts = NodeGroupTemplates (sp_CapacitySource (pp_Spec profile)) in
      case findMatchingTemplate n ts of Some t \<Rightarrow> Some t | None \<Rightarrow> findTemplateForPod pod ts)"

definition inflight_entry :: "PackingProfile \<Rightarrow> 'q Pod \<Rightarrow> InflightNode \<Rightarrow> nodeEntry" where
  "inflight_entry profile pod n =
     (case chosen_template profile pod n of
        None \<Rightarrow> \<lparr>allocatable = copyMap (in_Allocatable n), used = [], reserved = [],
                 ne_labels = copyStringMap (in_Labels n), ne_taints = []\<rparr>
      | Some t \<Rightarrow>
          \<lparr>allocatable = copyMap (if in_Allocatable n = [] then copyTemplateAllocatable (tmpl_Allocatable t) else in_Allocatable n),
           used = [], reserved = [],
           ne_labels = copyStringMap (if entries (in_Labels n) = [] then tmpl_Labels t else in_Labels n),
           ne_taints = templateTaintsToCoreTaints (tmpl_Taints t)\<rparr>)"

lemma sync_inflight_eq:
  "sync_inflight profile pod n l =
     l\<lparr>inflight := mput (pp_Name profile @ ''/'' @ in_Name n) (inflight_entry profile pod n) (inflight l)\<rparr>"
  by (simp add: sync_inflight_def inflight_entry_def chosen_template_def Let_def AddInflightNode_def
      split: option.split)

lemma sync_inflights_eq:
  "fold (sync_inflight profile pod) ns l =
     l\<lparr>inflight := fold (\<lambda>n. mput (pp_Name profile @ ''/'' @ in_Name n) (inflight_entry profile pod n)) ns (inflight l)\<rparr>"
  by (induction ns arbitrary: l) (simp_all add: sync_inflight_eq)

lemma findMatchingTemplate_in: "findMatchingTemplate n ts = Some t \<Longrightarrow> t \<in> set ts"
proof -
  have "template_by_type x ts = Some t \<Longrightarrow> t \<in> set ts" "template_by_prefix x ts = Some t \<Longrightarrow> t \<in> set ts" for x
    by (induction ts) (auto split: if_splits)
  then show "findMatchingTemplate n ts = Some t \<Longrightarrow> t \<in> set ts"
    by (auto simp: findMatchingTemplate_def split: option.splits if_splits)
qed

lemma chosen_template_in:
  "chosen_template profile pod n = Some t \<Longrightarrow> t \<in> set (NodeGroupTemplates (sp_CapacitySource (pp_Spec profile)))"
  by (auto simp: chosen_template_def Let_def findTemplateForPod_find find_Some_iff
      dest: findMatchingTemplate_in split: option.splits)

section \<open>The invariant of the controller's ledger\<close>

text \<open>
  Node names contain no slash and in-flight keys do (they start with the profile's name and a
  slash), so the two kinds of entries never share a name.
\<close>

definition sync_inv :: "NodeLedger \<Rightarrow> bool" where
  "sync_inv l \<longleftrightarrow> ledger_ok l \<and> (\<forall>k \<in> fst ` set (nodes l). CHR ''/'' \<notin> set k) \<and>
     (\<forall>k \<in> fst ` set (inflight l). CHR ''/'' \<in> set k)"

lemma sync_inv_iff:
  "sync_inv l \<longleftrightarrow> ledger_ok l \<and> (\<forall>k. map_of (nodes l) k \<noteq> None \<longrightarrow> CHR ''/'' \<notin> set k) \<and>
     (\<forall>k. map_of (inflight l) k \<noteq> None \<longrightarrow> CHR ''/'' \<in> set k)"
  by (simp only: sync_inv_def map_of_eq_None_iff) blast

definition node_ok :: "('q \<Rightarrow> int64) \<Rightarrow> 'q Node \<Rightarrow> bool" where
  "node_ok milli n \<longleftrightarrow> node_Name n \<noteq> '''' \<and> CHR ''/'' \<notin> set (node_Name n) \<and>
     list_all (\<lambda>(_, q). amount_ok (milli q)) (node_Allocatable n)"

definition the_reader :: "'q Api \<Rightarrow> 'q Reader" where
  "the_reader api = (case APIReader api of None \<Rightarrow> client_reader api | Some rd \<Rightarrow> rd)"

text \<open>What the API answers and the profile must satisfy for the arithmetic to stay in range.\<close>

definition inputs_ok :: "('q \<Rightarrow> int64) \<Rightarrow> 'q Api \<Rightarrow> PackingProfile \<Rightarrow> bool" where
  "inputs_ok milli api profile \<longleftrightarrow>
     (case api_list_nodes api of Inl _ \<Rightarrow> True | Inr items \<Rightarrow> list_all (node_ok milli) items) \<and>
     (case api_list_pods api of Inl _ \<Rightarrow> True
      | Inr pods \<Rightarrow> list_all (\<lambda>(_, u). amounts_ok u) (pod_usage milli pods)) \<and>
     reader_ok milli (the_reader api) \<and>
     list_all (\<lambda>t. amounts_ok (tmpl_Allocatable t)) (NodeGroupTemplates (sp_CapacitySource (pp_Spec profile)))"

lemma sync_inv_clear:
  "sync_inv l \<Longrightarrow> sync_inv (ClearInflightByPrefix (ClearNodes l) pre)"
  using ClearInflightByPrefix_ok [OF ClearNodes_ok]
  by (auto simp: sync_inv_iff map_of_ClearInflightByPrefix) (auto simp: ClearNodes_def)

lemma no_entries_cleared: "no_entries_of profile (ClearInflightByPrefix l (pp_Name profile @ ''/''))"
  using HasPrefix_append [of "pp_Name profile @ ''/''"]
  by (simp add: no_entries_of_def map_of_ClearInflightByPrefix)

lemma sync_inv_add_node:
  assumes "sync_inv l" and "node_ok milli n"
  shows "sync_inv (l\<lparr>nodes := mput (node_Name n) (node_entry milli n) (nodes l)\<rparr>)"
proof -
  have "map_of (inflight l) (node_Name n) = None"
    using assms by (auto simp: sync_inv_iff node_ok_def)
  then have "ledger_ok (AddNode l (node_Name n) (milli_values milli (node_Allocatable n)) (node_Labels n) (node_Taints n))"
    using assms by (intro AddNode_ok) (auto simp: sync_inv_def node_ok_def amounts_ok_milli_values)
  then show ?thesis
    using assms by (auto simp: sync_inv_iff AddNode_def node_entry_def map_of_mput node_ok_def)
qed

lemma sync_inv_nodes:
  assumes "sync_inv l" and "list_all (node_ok milli) items" and "no_entries_of profile l"
  shows "sync_inv (fold (sync_node milli profile) items l)"
  using assms
proof (induction items arbitrary: l)
  case Nil
  then show ?case by simp
next
  case (Cons n items)
  have "sync_inv (sync_node milli profile n l)" "no_entries_of profile (sync_node milli profile n l)"
    using Cons.prems sync_inv_add_node [of l milli n] by (simp_all add: sync_node_eq) (simp_all add: no_entries_of_def)
  with Cons show ?case by simp
qed

lemma sync_inv_usage:
  assumes "sync_inv l" and "list_all (\<lambda>(_, u). amounts_ok u) usage" and "wf_gmap usage"
  shows "sync_inv (apply_usage usage l)"
proof -
  have "ledger_ok l \<Longrightarrow> list_all (\<lambda>(_, u). amounts_ok u) usage \<Longrightarrow> ledger_ok (apply_usage usage l)" for l
    unfolding apply_usage_def by (induction usage arbitrary: l) (auto simp: UpdateUsage_ok)
  then have "ledger_ok (apply_usage usage l)"
    using assms(1,2) by (simp add: sync_inv_def)
  then show ?thesis
    using assms(1,3) by (auto simp: sync_inv_iff apply_usage_lookup)
qed

lemma inflight_entry_ok:
  assumes "amounts_ok (in_Allocatable n)"
    and "list_all (\<lambda>t. amounts_ok (tmpl_Allocatable t)) (NodeGroupTemplates (sp_CapacitySource (pp_Spec profile)))"
  shows "entry_ok (inflight_entry profile pod n)"
  using assms chosen_template_in [of profile pod n]
  by (auto simp: inflight_entry_def entry_ok_def copyTemplateAllocatable_def list_all_iff copyMap_def [symmetric]
      split: option.split)

lemma sync_inv_inflights:
  assumes "sync_inv l" and "\<forall>n \<in> set ns. entry_ok (inflight_entry profile pod n)"
  shows "sync_inv (fold (sync_inflight profile pod) ns l)"
  using assms
proof (induction ns arbitrary: l)
  case Nil
  then show ?case by simp
next
  case (Cons n ns)
  have "map_of (nodes l) (pp_Name profile @ ''/'' @ in_Name n) = None"
    using Cons.prems(1) by (auto simp: sync_inv_iff)
  then have "sync_inv (sync_inflight profile pod n l)"
    using Cons.prems by (auto simp: sync_inv_iff sync_inflight_eq ledger_ok_iff map_of_mput intro!: nodes_ok_mput)
  with Cons show ?case by simp
qed

lemma sync_inv_restore:
  assumes "sync_inv l" and "ledger_ok old"
  shows "sync_inv (RestoreReservations l (SnapshotReservations old))"
  using assms RestoreReservations_ok [OF _ SnapshotReservations_ok [OF assms(2)]]
  by (auto simp: sync_inv_iff RestoreReservations_lookup wf_SnapshotReservations)


section \<open>The whole rebuild\<close>

definition cleared :: "PackingProfile \<Rightarrow> NodeLedger \<Rightarrow> NodeLedger" where
  "cleared profile l = ClearInflightByPrefix (ClearNodes l) (pp_Name profile @ ''/'')"

lemma sync_success:
  fixes api :: "'q Api"
  assumes "api_list_nodes api = Inr items" and "api_list_pods api = Inr pods"
  obtains ns active ds and es' :: "'q effect list" and es
  where "detect_chain (Detect milli now (the_reader api)) (Detectors r) = (ns, active, ds, es')"
    and "syncLedger milli now api profile pod r =
      (None, r\<lparr>rc_Ledger := RestoreReservations
                 (fold (sync_inflight profile pod) ns
                   (apply_usage (pod_usage milli pods) (fold (sync_node milli profile) items (cleared profile (rc_Ledger r)))))
                 (SnapshotReservations (rc_Ledger r)),
               Detectors := ds, activeDetectors := (if active \<noteq> '''' then [active] else [])\<rparr>, es)"
proof -
  obtain ns active ds and es' :: "'q effect list"
    where chain: "detect_chain (Detect milli now (the_reader api)) (Detectors r) = (ns, active, ds, es')"
    by (metis prod_cases4)
  show thesis
    by (rule that [OF chain]) (simp add: syncLedger_def Let_def assms cleared_def chain [unfolded the_reader_def])
qed

lemma sync_failure:
  "api_list_nodes api = Inl e \<Longrightarrow>
   syncLedger milli now api profile pod r = (Some (error_text e), r\<lparr>rc_Ledger := cleared profile (rc_Ledger r)\<rparr>, [])"
  "api_list_nodes api = Inr items \<Longrightarrow> api_list_pods api = Inl e \<Longrightarrow>
   syncLedger milli now api profile pod r =
     (Some (error_text e), r\<lparr>rc_Ledger := fold (sync_node milli profile) items (cleared profile (rc_Ledger r))\<rparr>, [])"
  by (simp_all add: syncLedger_def Let_def cleared_def)

lemma syncLedger_inv:
  assumes inv: "sync_inv (rc_Ledger r)" and ok: "inputs_ok milli api profile"
    and run: "syncLedger milli now api profile pod r = (e, r', es)"
  shows "sync_inv (rc_Ledger r')"
proof -
  let ?l0 = "cleared profile (rc_Ledger r)"
  have l0: "sync_inv ?l0" "no_entries_of profile ?l0"
    using inv by (simp_all add: cleared_def sync_inv_clear no_entries_cleared)
  show ?thesis
  proof (cases "api_list_nodes api")
    case (Inl e)
    with run l0 show ?thesis by (auto simp: sync_failure)
  next
    case nodes: (Inr items)
    have l1: "sync_inv (fold (sync_node milli profile) items ?l0)"
      using l0 ok nodes by (intro sync_inv_nodes) (auto simp: inputs_ok_def)
    show ?thesis
    proof (cases "api_list_pods api")
      case (Inl e)
      with run nodes l1 show ?thesis by (auto simp: sync_failure)
    next
      case pods: (Inr pods)
      have l2: "sync_inv (apply_usage (pod_usage milli pods) (fold (sync_node milli profile) items ?l0))"
        using l1 ok pods by (intro sync_inv_usage) (auto simp: inputs_ok_def wf_pod_usage)
      obtain ns active ds es' es'' where
        chain: "detect_chain (Detect milli now (the_reader api)) (Detectors r) = (ns, active, ds, es' :: 'a effect list)"
        and eq: "syncLedger milli now api profile pod r =
          (None, r\<lparr>rc_Ledger := RestoreReservations
                 (fold (sync_inflight profile pod) ns
                   (apply_usage (pod_usage milli pods) (fold (sync_node milli profile) items ?l0)))
                 (SnapshotReservations (rc_Ledger r)),
               Detectors := ds, activeDetectors := (if active \<noteq> '''' then [active] else [])\<rparr>, es'')"
        by (rule sync_success [OF nodes pods])
      have "\<forall>n \<in> set ns. entry_ok (inflight_entry profile pod n)"
        using ok detect_chain_amounts [OF chain] by (auto simp: inputs_ok_def intro: inflight_entry_ok)
      then have "sync_inv (fold (sync_inflight profile pod) ns
          (apply_usage (pod_usage milli pods) (fold (sync_node milli profile) items ?l0)))"
        using l2 by (intro sync_inv_inflights)
      moreover have "ledger_ok (rc_Ledger r)"
        using inv by (simp add: sync_inv_def)
      ultimately show ?thesis
        using run sync_inv_restore by (auto simp: eq)
    qed
  qed
qed

text \<open>The entries of the rebuilt ledger.\<close>

lemma reserved_restored:
  assumes "ledger_ok old" and "reserved n = []"
  shows "with_reserved (map_of (SnapshotReservations old) k) n =
    n\<lparr>reserved := (case findEntry old k of None \<Rightarrow> [] | Some m \<Rightarrow> reserved m)\<rparr>"
proof -
  have same: "n\<lparr>reserved := []\<rparr> = n"
    using assms(2) by (metis nodeEntry.surjective nodeEntry.update_convs(3))
  have "copyMap (reserved m) = reserved m" if "findEntry old k = Some m" for m
    using findEntry_ok [OF assms(1) that] by (simp add: copyMap_def entry_ok_def amounts_ok_def)
  then show ?thesis
    using same by (auto simp: with_reserved_def map_of_SnapshotReservations [OF assms(1)] split: option.split)
qed

lemma sync_nodes_lookup:
  assumes inv: "sync_inv (rc_Ledger r)" and nodes: "api_list_nodes api = Inr items" and pods: "api_list_pods api = Inr pods"
    and run: "syncLedger milli now api profile pod r = (e, r', es)"
  shows "map_of (nodes (rc_Ledger r')) name =
    map_option (\<lambda>n. (node_entry milli n)\<lparr>used := copyMap (node_usage milli pods name),
        reserved := (case findEntry (rc_Ledger r) name of None \<Rightarrow> [] | Some m \<Rightarrow> reserved m)\<rparr>)
      (List.find (\<lambda>n. node_Name n = name) (rev (filter (synced milli profile) items)))"
proof -
  let ?l0 = "cleared profile (rc_Ledger r)"
  let ?l2 = "apply_usage (pod_usage milli pods) (fold (sync_node milli profile) items ?l0)"
  obtain ns active ds es' es'' where
    eq: "syncLedger milli now api profile pod r =
      (None, r\<lparr>rc_Ledger := RestoreReservations (fold (sync_inflight profile pod) ns ?l2)
                 (SnapshotReservations (rc_Ledger r)),
               Detectors := ds, activeDetectors := (if active \<noteq> '''' then [active] else [])\<rparr>, es'')"
    by (rule sync_success [OF nodes pods])
  have empty: "nodes ?l0 = []" "no_entries_of profile ?l0"
    by (simp add: cleared_def ClearNodes_def) (simp add: cleared_def no_entries_cleared)
  have unused: "used (node_entry milli n) = []" for n
    by (simp add: node_entry_def)
  have use: "(case map_of (pod_usage milli pods) name of None \<Rightarrow> n | Some u \<Rightarrow> n\<lparr>used := copyMap u\<rparr>) =
      n\<lparr>used := copyMap (node_usage milli pods name)\<rparr>" if "used n = []" for n
  proof -
    have none: "node_usage milli pods name = []" if "\<not> (\<exists>p \<in> set pods. active_on name p)"
      using that by (simp add: node_usage_def filter_empty_conv)
    have "n\<lparr>used := []\<rparr> = n"
      using that by (metis nodeEntry.surjective nodeEntry.update_convs(2))
    then show ?thesis
      using none by (simp add: map_of_pod_usage node_usage_def [symmetric] copyMap_def copy_into_def)
  qed
  have "map_of (nodes ?l2) name =
      map_option (\<lambda>n. (node_entry milli n)\<lparr>used := copyMap (node_usage milli pods name)\<rparr>)
        (List.find (\<lambda>n. node_Name n = name) (rev (filter (synced milli profile) items)))"
    unfolding apply_usage_lookup(1) [OF wf_pod_usage] sync_nodes_eq [OF empty(2)]
    by (cases "List.find (\<lambda>n. node_Name n = name) (rev (filter (synced milli profile) items))")
       (simp_all add: empty(1) map_of_fold_mput use unused)
  then show ?thesis
    using run inv
    by (auto simp: eq RestoreReservations_lookup wf_SnapshotReservations sync_inflights_eq sync_inv_def option.map_comp
        comp_def reserved_restored node_entry_def)
qed

lemma sync_inflight_lookup:
  fixes api :: "'q Api"
  assumes inv: "sync_inv (rc_Ledger r)" and nodes: "api_list_nodes api = Inr items" and pods: "api_list_pods api = Inr pods"
    and run: "syncLedger milli now api profile pod r = (e, r', es)"
    and chain: "detect_chain (Detect milli now (the_reader api)) (Detectors r) = (ns, active, ds, es' :: 'q effect list)"
  shows "map_of (inflight (rc_Ledger r')) key =
    (case List.find (\<lambda>n. pp_Name profile @ ''/'' @ in_Name n = key) (rev ns) of
       Some n \<Rightarrow> Some ((inflight_entry profile pod n)
         \<lparr>reserved := (case findEntry (rc_Ledger r) key of None \<Rightarrow> [] | Some m \<Rightarrow> reserved m)\<rparr>)
     | None \<Rightarrow> if HasPrefix key (pp_Name profile @ ''/'') then None else map_of (inflight (rc_Ledger r)) key)"
proof -
  let ?l0 = "cleared profile (rc_Ledger r)"
  let ?l2 = "apply_usage (pod_usage milli pods) (fold (sync_node milli profile) items ?l0)"
  obtain ns' active' ds' es1 es'' where
    chain': "detect_chain (Detect milli now (the_reader api)) (Detectors r) = (ns', active', ds', es1 :: 'q effect list)" and
    eq: "syncLedger milli now api profile pod r =
      (None, r\<lparr>rc_Ledger := RestoreReservations (fold (sync_inflight profile pod) ns' ?l2)
                 (SnapshotReservations (rc_Ledger r)),
               Detectors := ds', activeDetectors := (if active' \<noteq> '''' then [active'] else [])\<rparr>, es'')"
    by (rule sync_success [OF nodes pods])
  have same: "ns' = ns"
    using chain chain' by simp
  have l2: "inflight ?l2 = inflight ?l0"
    by (simp add: apply_usage_lookup wf_pod_usage sync_nodes_eq cleared_def no_entries_cleared)
  have l0: "map_of (inflight ?l0) key = (if HasPrefix key (pp_Name profile @ ''/'') then None else map_of (inflight (rc_Ledger r)) key)"
    by (simp add: cleared_def map_of_ClearInflightByPrefix) (simp add: ClearNodes_def)
  have ok: "ledger_ok (rc_Ledger r)"
    using inv by (simp add: sync_inv_def)
  have keep: "with_reserved (map_of (SnapshotReservations (rc_Ledger r)) key) m = m"
    if "map_of (inflight (rc_Ledger r)) key = Some m" for m
  proof -
    have "map_of (nodes (rc_Ledger r)) key = None"
      using ok that by (auto simp: ledger_ok_iff)
    then have f: "findEntry (rc_Ledger r) key = Some m"
      using that by (simp add: findEntry_def)
    have "copyMap (reserved m) = reserved m"
      using findEntry_ok [OF ok f] by (simp add: copyMap_def entry_ok_def amounts_ok_def)
    then show ?thesis
      by (simp add: with_reserved_def map_of_SnapshotReservations [OF ok] f)
  qed
  have fresh: "reserved (inflight_entry profile pod n) = []" for n
    by (simp add: inflight_entry_def split: option.split)
  have r': "rc_Ledger r' = RestoreReservations (fold (sync_inflight profile pod) ns ?l2) (SnapshotReservations (rc_Ledger r))"
    using run by (auto simp: eq same)
  show ?thesis
    unfolding r' RestoreReservations_lookup(2) [OF wf_SnapshotReservations] sync_inflights_eq
    by (cases "map_of (inflight (rc_Ledger r)) key")
       (auto simp: map_of_fold_mput l2 l0 reserved_restored [OF ok fresh] keep split: option.split)
qed

end
