(* ===== verification/Reconciler.thy ===== *)
theory Reconciler
  imports Sync
begin

text \<open>
  The reconciler (\<^verbatim>\<open>src/internal/controller/packingprofile_controller.go\<close>): one call of
  \<^verbatim>\<open>Reconcile\<close> for a pod, as a function from the reconciler's state and the API's answers to the
  result, the new state and the list of effects in the order they happen. The deferred status
  update comes last. One clock reading \<open>now\<close> stands for all readings of a call; reconciles
  do not overlap (\<^verbatim>\<open>MaxConcurrentReconciles\<close> is 1), so a call is one step.
\<close>

section \<open>Model\<close>

record ctrl_Result =
  RequeueAfter :: duration

abbreviation done_result :: ctrl_Result where
  "done_result \<equiv> \<lparr>RequeueAfter = 0\<rparr>"

definition recordRelease :: "time \<Rightarrow> 'q Pod \<Rightarrow> string \<Rightarrow> string \<Rightarrow> string \<Rightarrow> 'q effect list" where
  "recordRelease now pod profileName reason targetNode =
     (let msg = ''gate released, reason='' @ reason @ '', profile='' @ profileName;
          msg' = (if targetNode \<noteq> '''' then msg @ '', targetNode='' @ targetNode else msg)
      in [GateReleasesTotal profileName reason]
         @ (if \<not> IsZero (pod_CreationTimestamp pod)
            then [GateHoldDuration profileName reason (Since now (pod_CreationTimestamp pod))] else [])
         @ [RecordEvent ''GateReleased'' msg'])"

definition recordHold :: "string \<Rightarrow> string \<Rightarrow> 'q effect list" where
  "recordHold profileName ruleName =
     [RecordEvent ''GateHeld'' (''gate held by rule '' @ ruleName @ '', profile='' @ profileName)]"

definition releaseGatesWithAffinity ::
  "'q Api \<Rightarrow> 'q Pod \<Rightarrow> string \<Rightarrow> string \<Rightarrow> api_error option \<times> 'q effect list" where
  "releaseGatesWithAffinity api pod node reason =
     (let pod' = released_pod node reason pod in (api_patch_pod api pod pod', [PatchPod pod pod']))"

definition releaseGates :: "'q Api \<Rightarrow> 'q Pod \<Rightarrow> string \<Rightarrow> api_error option \<times> 'q effect list" where
  "releaseGates api pod reason = releaseGatesWithAffinity api pod '''' reason"

definition annotatePod :: "'q Api \<Rightarrow> 'q Pod \<Rightarrow> string \<Rightarrow> string \<Rightarrow> api_error option \<times> 'q effect list" where
  "annotatePod api pod key val =
     (case annotated_pod key val pod of
        None \<Rightarrow> (None, [])
      | Some pod' \<Rightarrow> (api_patch_pod api pod pod', [PatchPod pod pod']))"

fun count_gated :: "'q Pod list \<Rightarrow> 32 word \<Rightarrow> 32 word" where
  "count_gated [] activeGates = activeGates"
| "count_gated (p # ps) activeGates =
     count_gated ps (if hasKompaktGates p then activeGates + 1 else activeGates)"

definition updateProfileStatus ::
  "time \<Rightarrow> 'q Api \<Rightarrow> Reconciler \<Rightarrow> PackingProfile \<Rightarrow> api_error option \<times> 'q effect list" where
  "updateProfileStatus now api r profile =
     (case api_list_profile_pods api (pp_Name profile) of
        Inl e \<Rightarrow> (Some e, [])
      | Inr pods \<Rightarrow>
          let inflightCount = InflightCount (Snapshot (rc_Ledger r));
              p1 = profile\<lparr>pp_Status := (pp_Status profile)
                     \<lparr>ActiveGates := count_gated pods 0, InflightNodes := word_of_nat inflightCount,
                      st_ActiveDetectors := activeDetectors r\<rparr>\<rparr>;
              p2 = setProfileValidCondition now p1;
              p3 = setInflightDetectionCondition now inflightCount (activeDetectors r) (Detectors r) p2;
              p4 = setReadyCondition now p3
          in (api_update_status api p4, [UpdateStatus p4]))"

text \<open>The rule loop of \<^verbatim>\<open>Reconcile\<close>: it ends with an error, a holding rule, or a release and the last
  node a rule has named.\<close>

datatype loop_result = RuleError | HeldBy string | AllRelease string

fun eval_rules ::
  "(string, 'q Rule) gmap \<Rightarrow> 'q Pod \<Rightarrow> PackingProfile \<Rightarrow> string \<Rightarrow> RuleRef list \<Rightarrow> string \<Rightarrow> NodeLedger
   \<Rightarrow> loop_result \<times> NodeLedger \<times> 'q effect list" where
  "eval_rules reg pod profile profileName [] targetNode l = (AllRelease targetNode, l, [])"
| "eval_rules reg pod profile profileName (ref # refs) targetNode l =
     (case map_of reg (rule_Name ref) of
        None \<Rightarrow> eval_rules reg pod profile profileName refs targetNode l
      | Some rule \<Rightarrow>
          (case Evaluate rule pod l profile of
             (v, l') \<Rightarrow>
               if err v \<noteq> None
               then (RuleError, l', [RuleEvaluationDuration (rule_Name ref), RuleEvaluationsTotal (rule_Name ref) ''error''])
               else if release v then
                 (case eval_rules reg pod profile profileName refs
                         (if nodeName v \<noteq> '''' then nodeName v else targetNode) l' of
                    (res, l'', es) \<Rightarrow>
                      (res, l'', RuleEvaluationDuration (rule_Name ref) # RuleEvaluationsTotal (rule_Name ref) ''release'' # es))
               else (HeldBy (rule_Name ref), l',
                     RuleEvaluationDuration (rule_Name ref) # RuleEvaluationsTotal (rule_Name ref) ''hold''
                     # recordHold profileName (rule_Name ref))))"

text \<open>The body of \<^verbatim>\<open>Reconcile\<close> after a successful ledger sync.\<close>

definition decide ::
  "('q \<Rightarrow> int64) \<Rightarrow> time \<Rightarrow> 'q Api \<Rightarrow> PackingProfile \<Rightarrow> string \<Rightarrow> 'q Pod \<Rightarrow> Reconciler
   \<Rightarrow> (ctrl_Result \<times> api_error option) \<times> Reconciler \<times> 'q effect list" where
  "decide milli now api profile profileName pod r =
     (if sget (pod_Annotations pod) AnnotationPriority = ''high'' then
        (case releaseGates api pod ''priority'' of
           (e, es) \<Rightarrow> ((done_result, e), r, recordRelease now pod profileName ''priority'' '''' @ es))
      else if isTimedOut now pod profile then
        (case releaseGates api pod ''timeout'' of
           (e, es) \<Rightarrow> ((done_result, e), r, recordRelease now pod profileName ''timeout'' '''' @ es))
      else
        (case eval_rules (Registry milli) pod profile profileName (sp_Rules (pp_Spec profile)) '''' (rc_Ledger r) of
           (RuleError, l', es) \<Rightarrow> ((\<lparr>RequeueAfter = Second\<rparr>, None), r\<lparr>rc_Ledger := l'\<rparr>, es)
         | (HeldBy rule, l', es) \<Rightarrow>
             (case annotatePod api pod AnnotationHeldBy rule of
                (_, es') \<Rightarrow> ((\<lparr>RequeueAfter = Second\<rparr>, None), r\<lparr>rc_Ledger := l'\<rparr>, es @ es'))
         | (AllRelease targetNode, l', es) \<Rightarrow>
             (case releaseGatesWithAffinity api pod targetNode ''capacity'' of
                (e, es') \<Rightarrow> ((done_result, e), r\<lparr>rc_Ledger := l'\<rparr>,
                            es @ recordRelease now pod profileName ''capacity'' targetNode @ es'))))"

definition Reconcile ::
  "('q \<Rightarrow> int64) \<Rightarrow> time \<Rightarrow> 'q Api \<Rightarrow> string \<Rightarrow> string \<Rightarrow> Reconciler
   \<Rightarrow> (ctrl_Result \<times> api_error option) \<times> Reconciler \<times> 'q effect list" where
  "Reconcile milli now api namespace name r =
     (case api_get_pod api namespace name of
        Inl e \<Rightarrow> ((done_result, if IsNotFound e then None else Some e), r, [])
      | Inr pod \<Rightarrow>
          if \<not> hasKompaktGates pod then ((done_result, None), r, [])
          else
            (case map_of (entries (pod_Labels pod)) LabelProfile of
               None \<Rightarrow> ((done_result, None), r, [])
             | Some profileName \<Rightarrow>
                 (case api_get_profile api profileName of
                    Inl e \<Rightarrow>
                      if IsNotFound e then
                        (case releaseGates api pod ''profile_not_found'' of
                           (pe, es) \<Rightarrow> ((done_result, pe), r,
                              recordRelease now pod profileName ''profile_not_found'' '''' @ es))
                      else ((done_result, Some e), r, [])
                  | Inr profile \<Rightarrow>
                      (case syncLedger milli now api profile pod r of
                         (syncErr, r1, es1) \<Rightarrow>
                           (case (case syncErr of
                                    Some _ \<Rightarrow> ((\<lparr>RequeueAfter = Second\<rparr>, None), r1, [])
                                  | None \<Rightarrow> decide milli now api profile profileName pod r1) of
                              (res, r2, es2) \<Rightarrow>
                                (res, r2, es1 @ es2 @
                                   snd (updateProfileStatus now api r2 (setLedgerReadyCondition now syncErr profile))))))))"

text \<open>The event filter the controller is registered with; \<open>None\<close> is an object that is not a pod.\<close>

definition event_filter :: "'q Pod option \<Rightarrow> bool" where
  "event_filter obj = (case obj of None \<Rightarrow> False | Some pod \<Rightarrow> hasKompaktGates pod)"


section \<open>The rule loop\<close>

lemma Reserve_keys:
  assumes "Reserve l name d = Inr l'"
  shows "map fst (nodes l') = map fst (nodes l)" and "map fst (inflight l') = map fst (inflight l)"
  using assms by (auto simp: Reserve_Inr_iff withEntry_def split: option.splits)

text \<open>Two ledgers with the same names, node by node and entry by entry.\<close>

definition same_names :: "NodeLedger \<Rightarrow> NodeLedger \<Rightarrow> bool" where
  "same_names l l' \<longleftrightarrow> map fst (nodes l) = map fst (nodes l') \<and> map fst (inflight l) = map fst (inflight l')"

lemma same_names_sync_inv: "sync_inv l \<Longrightarrow> same_names l l' \<Longrightarrow> ledger_ok l' \<Longrightarrow> sync_inv l'"
  by (simp add: sync_inv_def same_names_def set_map [symmetric] del: set_map)

context rule_registry
begin

lemma evaluate_names:
  assumes "reg name = Some r" and "ledger_ok l" and "Evaluate r pod l p = (v, l')"
  shows "same_names l l'"
proof (cases "nodeName v = ''''")
  case True
  then show ?thesis
    using reg_unplaced [OF assms True] Reserve_keys by (auto simp: same_names_def)
next
  case False
  then show ?thesis
    using reg_placed [OF assms False] Reserve_keys by (auto simp: same_names_def)
qed

lemma eval_rules_inv:
  assumes "map_of g = reg" and "ledger_ok l" and "amounts_ok (demand pod p)"
    and "eval_rules g pod p pn refs t0 l = (res, l', es)"
  shows "res \<noteq> RuleError \<and> ledger_ok l' \<and> same_names l l' \<and>
    (\<forall>t. res = AllRelease t \<longrightarrow> t = t0 \<or> t \<in> fst ` set (nodes l))"
  using assms(2,4)
proof (induction refs arbitrary: l t0 res l' es)
  case Nil
  then show ?case by (auto simp: same_names_def)
next
  case (Cons ref refs)
  show ?case
  proof (cases "reg (rule_Name ref)")
    case None
    with Cons assms(1) show ?thesis by simp
  next
    case (Some rule)
    obtain v l1 where ev: "Evaluate rule pod l p = (v, l1)" by (cases "Evaluate rule pod l p")
    have ok: "err v = None" "ledger_ok l1" "same_names l l1"
      using reg_no_error [OF Some ev] reg_ok [OF Some Cons.prems(1) assms(3) ev] evaluate_names [OF Some Cons.prems(1) ev]
      by simp_all
    show ?thesis
    proof (cases "release v")
      case True
      let ?t1 = "if nodeName v \<noteq> '''' then nodeName v else t0"
      obtain es1 where rest: "eval_rules g pod p pn refs ?t1 l1 = (res, l', es1)"
        using Cons.prems(2) ev ok(1) True Some assms(1) by (auto split: prod.splits)
      have t1: "?t1 = t0 \<or> ?t1 \<in> fst ` set (nodes l)"
        using reg_placed [OF Some Cons.prems(1) ev] by force
      have "set (map fst (nodes l1)) = set (map fst (nodes l))"
        using ok(3) by (simp add: same_names_def)
      then show ?thesis
        using Cons.IH [OF ok(2) rest] ok(3) t1 by (auto simp: same_names_def)
    next
      case False
      with Cons.prems(2) ev ok Some assms(1) show ?thesis by auto
    qed
  qed
qed

end

lemma eval_rules_no_patch:
  "eval_rules g pod p pn refs t l = (res, l', es) \<Longrightarrow> PatchPod a b \<notin> set es"
proof (induction refs arbitrary: t l res l' es)
  case Nil
  then show ?case by simp
next
  case (Cons ref refs)
  show ?case
  proof (cases "map_of g (rule_Name ref)")
    case None
    with Cons show ?thesis by simp
  next
    case (Some rule)
    obtain v l1 where ev: "Evaluate rule pod l p = (v, l1)" by (cases "Evaluate rule pod l p")
    obtain res1 l2 es1 where rest:
      "eval_rules g pod p pn refs (if nodeName v \<noteq> '''' then nodeName v else t) l1 = (res1, l2, es1)"
      by (rule prod_cases3)
    show ?thesis
      using Cons.prems Cons.IH [OF rest] by (auto simp: Some ev rest recordHold_def split: if_splits)
  qed
qed

section \<open>Patches\<close>

lemma recordRelease_no_patch: "PatchPod a b \<notin> set (recordRelease now pod pn reason t)"
  by (simp add: recordRelease_def Let_def)

lemma detect_chain_no_patch:
  "detect_chain detect ds = (ns, active, ds', es) \<Longrightarrow> PatchPod a b \<notin> set es"
  by (induction ds arbitrary: ns active ds' es) (auto split: prod.splits sum.splits if_splits)

lemma syncLedger_no_patch: "syncLedger milli now api profile pod r = (e, r', es) \<Longrightarrow> PatchPod a b \<notin> set es"
  by (auto simp: syncLedger_def Let_def ledger_gauges_def dest: detect_chain_no_patch split: sum.splits prod.splits)

lemma updateProfileStatus_no_patch: "PatchPod a b \<notin> set (snd (updateProfileStatus now api r p))"
  by (simp add: updateProfileStatus_def Let_def split: sum.split)

text \<open>A pod as some rule's hold leaves it; why a pod is rewritten at all.\<close>

definition holds_with :: "'q Pod \<Rightarrow> 'q Pod \<Rightarrow> bool" where
  "holds_with p p' \<longleftrightarrow> (\<exists>rule. annotated_pod AnnotationHeldBy rule p = Some p')"

lemma decide_patch:
  assumes "decide milli now api profile pn pod r = (res, r', es)" and "PatchPod p p' \<in> set es"
  shows "p = pod \<and>
    (if sget (pod_Annotations pod) AnnotationPriority = ''high'' then p' = released_pod '''' ''priority'' pod
     else if isTimedOut now pod profile then p' = released_pod '''' ''timeout'' pod
     else
       (case fst (eval_rules (Registry milli) pod profile pn (sp_Rules (pp_Spec profile)) '''' (rc_Ledger r)) of
          RuleError \<Rightarrow> False
        | HeldBy rule \<Rightarrow> annotated_pod AnnotationHeldBy rule pod = Some p' \<and> res = (\<lparr>RequeueAfter = Second\<rparr>, None)
        | AllRelease t \<Rightarrow> p' = released_pod t ''capacity'' pod))"
proof -
  obtain lr l' es1 where loop:
    "eval_rules (Registry milli) pod profile pn (sp_Rules (pp_Spec profile)) '''' (rc_Ledger r) = (lr, l', es1)"
    by (rule prod_cases3)
  note defs = decide_def releaseGates_def releaseGatesWithAffinity_def annotatePod_def Let_def
  consider "sget (pod_Annotations pod) AnnotationPriority = ''high''"
    | "sget (pod_Annotations pod) AnnotationPriority \<noteq> ''high''" "isTimedOut now pod profile"
    | "sget (pod_Annotations pod) AnnotationPriority \<noteq> ''high''" "\<not> isTimedOut now pod profile" by blast
  then show ?thesis
  proof cases
    case 3
    show ?thesis
    proof (cases lr)
      case (HeldBy rule)
      with assms 3 loop eval_rules_no_patch [OF loop] show ?thesis
        by (auto simp: defs split: option.splits)
    next
      case (AllRelease t)
      with assms 3 loop eval_rules_no_patch [OF loop] show ?thesis
        by (auto simp: defs recordRelease_no_patch)
    next
      case RuleError
      with assms 3 loop eval_rules_no_patch [OF loop] show ?thesis
        by (auto simp: defs)
    qed
  qed (use assms in \<open>auto simp: defs recordRelease_no_patch\<close>)
qed

text \<open>Where a patch comes from.\<close>

lemma Reconcile_patch_cases:
  assumes "Reconcile milli now api ns name r = (res, r', es)" and "PatchPod p p' \<in> set es"
  obtains
    (gone) pn e where "api_get_pod api ns name = Inr p" "hasKompaktGates p"
      "map_of (entries (pod_Labels p)) LabelProfile = Some pn" "api_get_profile api pn = Inl e" "IsNotFound e"
      "p' = released_pod [] ''profile_not_found'' p"
  | (decided) pn profile r1 es1 r2 es2 where "api_get_pod api ns name = Inr p" "hasKompaktGates p"
      "map_of (entries (pod_Labels p)) LabelProfile = Some pn" "api_get_profile api pn = Inr profile"
      "syncLedger milli now api profile p r = (None, r1, es1)"
      "decide milli now api profile pn p r1 = (res, r2, es2)" "PatchPod p p' \<in> set es2"
proof -
  obtain pod where pod: "api_get_pod api ns name = Inr pod" "hasKompaktGates pod"
    using assms by (auto simp: Reconcile_def split: sum.splits if_splits)
  obtain pn where pn: "map_of (entries (pod_Labels pod)) LabelProfile = Some pn"
    using assms pod by (auto simp: Reconcile_def split: option.splits)
  show thesis
  proof (cases "api_get_profile api pn")
    case (Inl e)
    with assms pod pn have "IsNotFound e" "p = pod" "p' = released_pod [] ''profile_not_found'' p"
      by (auto simp: Reconcile_def releaseGates_def releaseGatesWithAffinity_def Let_def recordRelease_no_patch split: if_splits)
    with pod pn Inl gone show thesis by blast
  next
    case (Inr profile)
    obtain se r1 es1 where sync: "syncLedger milli now api profile pod r = (se, r1, es1)"
      by (rule prod_cases3)
    have se: "se = None"
      using assms pod pn Inr sync syncLedger_no_patch [OF sync]
      by (cases se) (auto simp: Reconcile_def updateProfileStatus_no_patch)
    obtain res2 r2 es2 where dec: "decide milli now api profile pn pod r1 = (res2, r2, es2)"
      by (rule prod_cases3)
    have in2: "PatchPod p p' \<in> set es2" "res2 = res"
      using assms pod pn Inr sync se dec syncLedger_no_patch [OF sync]
      by (auto simp: Reconcile_def updateProfileStatus_no_patch)
    with decide_patch [OF dec this(1)] have "p = pod" by blast
    with pod pn Inr sync se dec in2 decided show thesis by blast
  qed
qed

section \<open>Status\<close>

lemma count_gated_eq: "count_gated ps a = a + of_nat (length (filter hasKompaktGates ps))"
  by (induction ps arbitrary: a) (simp_all add: algebra_simps)

lemma conditionIsTrue_status [simp]:
  "conditionIsTrue (p\<lparr>pp_Status := (pp_Status p)\<lparr>ActiveGates := a, InflightNodes := b, st_ActiveDetectors := c\<rparr>\<rparr>) ty
     = conditionIsTrue p ty"
  "one_per_type (p\<lparr>pp_Status := (pp_Status p)\<lparr>ActiveGates := a, InflightNodes := b, st_ActiveDetectors := c\<rparr>\<rparr>)
     = one_per_type p"
  by (simp_all add: conditionIsTrue_def one_per_type_def)

end
