(* ===== verification/SyncProps.thy ===== *)
theory SyncProps
  imports Sync
begin

text \<open>
  The properties of the ledger rebuild: the rebuilt ledger is the cluster's state plus the old
  reservations, which in-flight entries it has, and two losses: a failed rebuild forgets
  reservations, and a node that has arrived stays in flight.
\<close>

section \<open>Sample cluster\<close>

definition quiet_reader :: "int64 Reader" where
  "quiet_reader = \<lparr>get_ca_status = Inl (NotFound ''not found''), list_events = (\<lambda>_. Inr []), list_nodes = Inr []\<rparr>"

definition sample_api :: "PackingProfile \<Rightarrow> int64 Pod \<Rightarrow> int64 Node list \<Rightarrow> int64 Pod list \<Rightarrow> int64 Api" where
  "sample_api profile pod ns pods =
     \<lparr>api_get_pod = (\<lambda>_ _. Inr pod), api_get_profile = (\<lambda>_. Inr profile), api_list_nodes = Inr ns, api_list_pods = Inr pods,
      api_list_profile_pods = (\<lambda>_. Inr pods), api_patch_pod = (\<lambda>_ _. None), api_update_status = (\<lambda>_. None),
      APIReader = None, client_reader = quiet_reader\<rparr>"

definition fresh_reconciler :: "Detector list \<Rightarrow> Reconciler" where
  "fresh_reconciler ds = \<lparr>rc_Ledger = New, Detectors = ds, activeDetectors = []\<rparr>"

lemma sync_inv_New: "sync_inv New"
  by (simp add: sync_inv_def New_ok) (simp add: New_def)

lemma find_SomeD: "List.find P xs = Some x \<Longrightarrow> x \<in> set xs \<and> P x"
  by (induction xs) (auto split: if_splits)

section \<open>Properties\<close>



text \<open>
  C17: the in-flight entries after a rebuild. The first detector, in the configured order, that
  reports any node is used and the later ones are not; every node it reports becomes an entry under
  the profile's prefix, built from the matching template where the node itself says nothing, with
  its old reservations. All other entries of this profile are gone, those of other profiles
  untouched.
\<close>

theorem sync_inflight_entries:
  fixes api :: "'q Api"
  assumes "sync_inv (rc_Ledger r)" and "api_list_nodes api = Inr items" and "api_list_pods api = Inr pods"
    and "syncLedger milli now api profile pod r = (e, r', es)"
  shows "\<exists>ns.
    ((\<forall>d \<in> set (Detectors r). fst (Detect milli now (the_reader api) d) = Inr []) \<and> ns = [] \<and> activeDetectors r' = [] \<or>
     (\<exists>pre d post. Detectors r = pre @ d # post \<and>
        (\<forall>d' \<in> set pre. fst (Detect milli now (the_reader api) d') = Inr []) \<and>
        fst (Detect milli now (the_reader api) d) = Inr ns \<and> ns \<noteq> [] \<and> activeDetectors r' = [detector_Name d])) \<and>
    (\<forall>key. map_of (inflight (rc_Ledger r')) key =
       (case List.find (\<lambda>n. pp_Name profile @ ''/'' @ in_Name n = key) (rev ns) of
          Some n \<Rightarrow> Some ((inflight_entry profile pod n)
            \<lparr>reserved := (case findEntry (rc_Ledger r) key of None \<Rightarrow> [] | Some m \<Rightarrow> reserved m)\<rparr>)
        | None \<Rightarrow> if HasPrefix key (pp_Name profile @ ''/'') then None else map_of (inflight (rc_Ledger r)) key))"
proof -
  obtain ns active ds es' es'' where
    chain: "detect_chain (Detect milli now (the_reader api)) (Detectors r) = (ns, active, ds, es' :: 'q effect list)" and
    eq: "syncLedger milli now api profile pod r =
      (None, r\<lparr>rc_Ledger := RestoreReservations (fold (sync_inflight profile pod) ns
                   (apply_usage (pod_usage milli pods) (fold (sync_node milli profile) items (cleared profile (rc_Ledger r)))))
                 (SnapshotReservations (rc_Ledger r)),
               Detectors := ds, activeDetectors := (if active \<noteq> '''' then [active] else [])\<rparr>, es'')"
    by (rule sync_success [OF assms(2,3)])
  have active: "activeDetectors r' = (if active \<noteq> '''' then [active] else [])"
    using assms(4) by (auto simp: eq)
  have name: "detector_Name d \<noteq> ''''" for d
    by (cases d) simp_all
  show ?thesis
    using detect_chain_first [OF chain] sync_inflight_lookup [OF assms chain]
    by (intro exI [of _ ns]) (auto simp: active name)
qed

theorem sync_inflight_entries_witness:
  "let p = sample_profile [''WaitForNodeReady'']; pod = sample_pod []; api = sample_api p pod [] [];
       api' = api\<lparr>client_reader := quiet_reader\<lparr>list_nodes := Inr [sample_node ''new'' [(''cpu'', 2000)] 1 []]\<rparr>\<rparr>
   in case syncLedger id 5 api' p pod (fresh_reconciler [ClusterAutoscaler, NotReadyNodes]) of (e, r', es) \<Rightarrow>
        activeDetectors r' = [''not-ready-nodes''] \<and> map_of (inflight (rc_Ledger r')) ''gpu/new'' \<noteq> None"
proof -
  let ?p = "sample_profile [''WaitForNodeReady'']" and ?pod = "sample_pod []" and ?r = "fresh_reconciler [ClusterAutoscaler, NotReadyNodes]"
  let ?rd = "quiet_reader\<lparr>list_nodes := Inr [sample_node ''new'' [(''cpu'', 2000)] 1 []]\<rparr>"
  let ?api = "(sample_api ?p ?pod [] [])\<lparr>client_reader := ?rd\<rparr>"
  have h: "sync_inv (rc_Ledger ?r)" "api_list_nodes ?api = Inr []" "api_list_pods ?api = Inr []"
    and rd: "the_reader ?api = ?rd" and ds: "Detectors ?r = [ClusterAutoscaler, NotReadyNodes]"
    by (simp_all add: fresh_reconciler_def sync_inv_New sample_api_def the_reader_def)
  have name: "pp_Name ?p = ''gpu''"
    by (simp add: sample_profile_def)
  have ca: "ClusterAutoscaler_Detect ?rd = Inr []"
    by (simp add: ClusterAutoscaler_Detect_def quiet_reader_def)
  have nr: "NotReadyNode_Detect id 5 ?rd = Inr [not_ready_inflight id (sample_node ''new'' [(''cpu'', 2000)] 1 [])]"
    by (simp add: NotReadyNode_Detect_def quiet_reader_def isNeverReady_eq ready_condition_def sample_node_def Since_def
        sint_Sub sint_maxNotReadyAge)
  have new: "in_Name (not_ready_inflight id (sample_node ''new'' [(''cpu'', 2000)] 1 [])) = ''new''"
    by (simp add: not_ready_inflight_def sample_node_def)
  obtain e r' es where run: "syncLedger id 5 ?api ?p ?pod ?r = (e, r', es)"
    by (rule prod_cases3)
  have "activeDetectors r' = [''not-ready-nodes''] \<and> map_of (inflight (rc_Ledger r')) ''gpu/new'' \<noteq> None"
    using sync_inflight_entries [OF h run] unfolding rd ds
    by (auto simp: ca nr new name Cons_eq_append_conv)
  then show ?thesis
    unfolding Let_def run by simp
qed

text \<open>A node that the ledger does not know before a rebuild has no reservation after it.\<close>

lemma unknown_node_unreserved:
  assumes inv: "sync_inv (rc_Ledger r)" and unknown: "map_of (nodes (rc_Ledger r)) name = None"
    and lists: "api_list_nodes api = Inr items" "api_list_pods api = Inr pods" and ok: "list_all (node_ok milli) items"
    and sync: "syncLedger milli now api profile pod r = (e, r', es)" and n: "map_of (nodes (rc_Ledger r')) name = Some n"
  shows "reserved n = []"
proof -
  note look = sync_nodes_lookup [OF inv lists sync, of name]
  from look n obtain node where "List.find (\<lambda>n. node_Name n = name) (rev (filter (synced milli profile) items)) = Some node"
    by (auto simp: map_option_case split: option.splits)
  from find_SomeD [OF this] have "node \<in> set items" "node_Name node = name"
    by auto
  then have "CHR ''/'' \<notin> set name"
    using ok by (auto simp: list_all_iff node_ok_def)
  then have "map_of (inflight (rc_Ledger r)) name = None"
    using inv by (auto simp: sync_inv_iff)
  then have "findEntry (rc_Ledger r) name = None"
    using unknown by (simp add: findEntry_def)
  with look n show ?thesis by (auto simp: map_option_case split: option.splits)
qed

text \<open>
  C35: a failed rebuild forgets reservations. If listing the nodes fails once, the reservations on
  existing nodes are gone for good: after the next rebuild that succeeds no existing node has any.
\<close>

theorem failed_sync_forgets_reservations:
  assumes "sync_inv (rc_Ledger r)" and "api_list_nodes down = Inl e0"
    and "syncLedger milli now down profile pod r = (e1, r1, es1)"
    and "api_list_nodes up = Inr items" and "api_list_pods up = Inr pods" and "list_all (node_ok milli) items"
    and "syncLedger milli now' up profile' pod' r1 = (e2, r2, es2)"
    and "map_of (nodes (rc_Ledger r2)) name = Some n"
  shows "reserved n = []"
proof (rule unknown_node_unreserved [OF _ _ assms(4-8)])
  have r1: "rc_Ledger r1 = cleared profile (rc_Ledger r)"
    using assms(3) sync_failure(1) [OF assms(2), of milli now profile pod r] by auto
  then show "sync_inv (rc_Ledger r1)"
    using assms(1) by (simp add: cleared_def sync_inv_clear)
  show "map_of (nodes (rc_Ledger r1)) name = None"
    by (simp add: r1 cleared_def ClearNodes_def)
qed

theorem failed_sync_forgets_reservations_witness:
  "let p = sample_profile []; pod = sample_pod []; api = sample_api p pod [sample_node ''node-1'' [(''cpu'', 4000)] 1 []] [];
       down = api\<lparr>api_list_nodes := Inl (OtherError ''timeout'')\<rparr>;
       n = \<lparr>allocatable = [(''cpu'', 4000)], used = [], reserved = [(''cpu'', 3000)], ne_labels = None, ne_taints = []\<rparr>;
       r = (fresh_reconciler [])\<lparr>rc_Ledger := \<lparr>nodes = [(''node-1'', n)], inflight = []\<rparr>\<rparr>
   in case syncLedger id 5 down p pod r of (e1, r1, _) \<Rightarrow> case syncLedger id 6 api p pod r1 of (e2, r2, _) \<Rightarrow>
        e1 \<noteq> None \<and> (\<exists>m. map_of (nodes (rc_Ledger r2)) ''node-1'' = Some m \<and> reserved m = [])"
proof -
  let ?p = "sample_profile []" and ?pod = "sample_pod []"
  let ?node = "sample_node ''node-1'' [(''cpu'', 4000)] 1 []"
  let ?api = "sample_api ?p ?pod [?node] []"
  let ?down = "?api\<lparr>api_list_nodes := Inl (OtherError ''timeout'')\<rparr>"
  let ?n = "\<lparr>allocatable = [(''cpu'', 4000)], used = [], reserved = [(''cpu'', 3000)], ne_labels = None, ne_taints = []\<rparr>"
  let ?r = "(fresh_reconciler [])\<lparr>rc_Ledger := \<lparr>nodes = [(''node-1'', ?n)], inflight = []\<rparr>\<rparr>"
  have inv: "sync_inv (rc_Ledger ?r)"
    by (simp add: sync_inv_def ledger_eval)
  have lists: "api_list_nodes ?down = Inl (OtherError ''timeout'')" "api_list_nodes ?api = Inr [?node]" "api_list_pods ?api = Inr []"
    by (simp_all add: sample_api_def)
  have ok: "list_all (node_ok id) [?node]"
    by (simp add: node_ok_def sample_node_def amount_ok_def)
  have run1: "syncLedger id 5 ?down ?p ?pod ?r = (Some ''timeout'', ?r\<lparr>rc_Ledger := cleared ?p (rc_Ledger ?r)\<rparr>, [])"
    using sync_failure(1) [OF lists(1)] by simp
  let ?r1 = "?r\<lparr>rc_Ledger := cleared ?p (rc_Ledger ?r)\<rparr>"
  obtain e2 r2 es2 where run2: "syncLedger id 6 ?api ?p ?pod ?r1 = (e2, r2, es2)"
    by (rule prod_cases3)
  have inv1: "sync_inv (rc_Ledger ?r1)"
    using inv by (simp add: cleared_def sync_inv_clear)
  have "List.find (\<lambda>n. node_Name n = ''node-1'') (rev (filter (synced id ?p) [?node])) = Some ?node"
    by (simp add: synced_def sample_profile_def sample_node_def)
  then obtain m where m: "map_of (nodes (rc_Ledger r2)) ''node-1'' = Some m"
    using sync_nodes_lookup [OF inv1 lists(2,3) run2, of "''node-1''"] by auto
  have "reserved m = []"
    by (rule failed_sync_forgets_reservations [OF inv lists(1) run1 lists(2,3) ok run2 m])
  then show ?thesis
    unfolding Let_def run1 prod.case run2 using m by simp
qed

text \<open>
  A node that has arrived stays in flight. If the detection reports a provisioning task and a node
  labelled with this task is listed, the rebuilt ledger holds both the node and the in-flight
  entry of the task: the removal in the node loop comes before the entry is added.
\<close>

theorem arrived_node_stays_inflight:
  assumes "sync_inv (rc_Ledger r)" and "api_list_nodes api = Inr items" and "api_list_pods api = Inr pods"
    and "syncLedger milli now api profile pod r = (e, r', es)"
    and "Detectors r = d # ds" and "fst (Detect milli now (the_reader api) d) = Inr ns" and "n \<in> set ns"
    and "node \<in> set items" and "synced milli profile node"
    and "sget (node_Labels node) ''goatscaler.io/provision-task-id'' = in_Name n"
  shows "map_of (nodes (rc_Ledger r')) (node_Name node) \<noteq> None \<and>
    map_of (inflight (rc_Ledger r')) (pp_Name profile @ ''/'' @ in_Name n) \<noteq> None"
proof -
  obtain ns' active ds' and es' :: "'a effect list" where
    chain: "detect_chain (Detect milli now (the_reader api)) (Detectors r) = (ns', active, ds', es')"
    by (metis prod_cases4)
  have "ns' = ns"
    using chain assms(5,6,7) by (cases "Detect milli now (the_reader api) d") (auto split: if_splits)
  then have n: "n \<in> set (rev ns')"
    using assms(7) by simp
  have "List.find (\<lambda>m. pp_Name profile @ ''/'' @ in_Name m = pp_Name profile @ ''/'' @ in_Name n) (rev ns') \<noteq> None"
    using n by (auto simp: find_None_iff)
  moreover have "List.find (\<lambda>m. node_Name m = node_Name node) (rev (filter (synced milli profile) items)) \<noteq> None"
    using assms(8,9) by (auto simp: find_None_iff)
  ultimately show ?thesis
    using sync_inflight_lookup [OF assms(1-4) chain] sync_nodes_lookup [OF assms(1-4)] by auto
qed

theorem arrived_node_stays_inflight_witness:
  "let p = sample_profile [''WaitForNodeReady'']; pod = sample_pod [];
       ev = \<lparr>ev_Component = ''GOATScaler'', ev_Reason = ''ProvisionNode'',
         ev_Message = ''Provision node task-1 in Zone: cn-1a with InstanceType: ecs.gn7i, Triggered time now'',
         ev_LastTimestamp = 10 ^ 18, ev_CreationTimestamp = 0\<rparr>;
       node = (sample_node ''node-1'' [(''cpu'', 4000)] 1 [])\<lparr>node_Labels := Some [(''goatscaler.io/provision-task-id'', ''task-1'')]\<rparr>;
       api = (sample_api p pod [node] [])\<lparr>client_reader := quiet_reader\<lparr>list_events := (\<lambda>_. Inr [ev])\<rparr>\<rparr>
   in case syncLedger id (10 ^ 18 + 1) api p pod (fresh_reconciler [GOATScaler \<lparr>EventMaxAge = 0, NoStockDetected = False\<rparr>]) of
        (e, r', es) \<Rightarrow> map_of (nodes (rc_Ledger r')) ''node-1'' \<noteq> None \<and> map_of (inflight (rc_Ledger r')) ''gpu/task-1'' \<noteq> None"
proof -
  let ?p = "sample_profile [''WaitForNodeReady'']" and ?pod = "sample_pod []"
  let ?ev = "\<lparr>ev_Component = ''GOATScaler'', ev_Reason = ''ProvisionNode'',
      ev_Message = ''Provision node task-1 in Zone: cn-1a with InstanceType: ecs.gn7i, Triggered time now'',
      ev_LastTimestamp = 10 ^ 18, ev_CreationTimestamp = 0\<rparr>"
  let ?node = "(sample_node ''node-1'' [(''cpu'', 4000)] 1 [])\<lparr>node_Labels := Some [(''goatscaler.io/provision-task-id'', ''task-1'')]\<rparr>"
  let ?rd = "quiet_reader\<lparr>list_events := (\<lambda>_. Inr [?ev])\<rparr>"
  let ?api = "(sample_api ?p ?pod [?node] [])\<lparr>client_reader := ?rd\<rparr>"
  let ?g = "\<lparr>EventMaxAge = 0, NoStockDetected = False\<rparr>"
  let ?r = "fresh_reconciler [GOATScaler ?g]"
  let ?n = "\<lparr>in_Name = ''task-1'', in_Allocatable = [], in_Labels = None, in_InstanceType = ''ecs.gn7i'', in_DetectedAt = 10 ^ 18\<rparr>"
  have h: "sync_inv (rc_Ledger ?r)" "api_list_nodes ?api = Inr [?node]" "api_list_pods ?api = Inr []"
    and rd: "the_reader ?api = ?rd" and ds: "Detectors ?r = [GOATScaler ?g]"
    by (simp_all add: fresh_reconciler_def sync_inv_New sample_api_def the_reader_def)
  have time: "event_time ?ev = 10 ^ 18" and rel: "relevant (goat_cutoff (10 ^ 18 + 1) ?g) ?ev"
    by (simp_all add: relevant_def goat_cutoff_def event_time_def IsZero_def Add_def DefaultEventMaxAge_def Minute_def
        goatscalerComponent_def)
  have msg: "parseProvisionNodeMessage (ev_Message ?ev) = Some (''task-1'', ''cn-1a'', ''ecs.gn7i'')"
    by (simp add: parseProvisionNodeMessage_def provisionNodeRegex_def find_match.simps HasPrefix_def non_space_def)
  have "provision_event (goat_cutoff (10 ^ 18 + 1) ?g) ?ev = Some ?n"
    unfolding provision_event_def msg time using rel by (simp add: provisionNodeReason_def)
  moreover have "goat_events ?rd = Some [?ev]"
    by (simp add: goat_events_def)
  ultimately have det: "fst (Detect id (10 ^ 18 + 1) (the_reader ?api) (GOATScaler ?g)) = Inr [?n]"
    unfolding rd by (simp add: GOATScaler_Detect_eq List.map_filter_simps)
  have syn: "synced id ?p ?node" and lab: "sget (node_Labels ?node) ''goatscaler.io/provision-task-id'' = in_Name ?n"
    and names: "pp_Name ?p = ''gpu''" "node_Name ?node = ''node-1''"
    by (simp_all add: synced_def sample_profile_def sample_node_def mget_def)
  obtain e r' es where run: "syncLedger id (10 ^ 18 + 1) ?api ?p ?pod ?r = (e, r', es)"
    by (rule prod_cases3)
  have "map_of (nodes (rc_Ledger r')) (node_Name ?node) \<noteq> None \<and>
      map_of (inflight (rc_Ledger r')) (pp_Name ?p @ ''/'' @ in_Name ?n) \<noteq> None"
    by (rule arrived_node_stays_inflight [OF h run ds det _ _ syn lab]) simp_all
  then show ?thesis
    unfolding Let_def run names by simp
qed

end
