(* ===== verification/ReconcilerProps.thy ===== *)
theory ReconcilerProps
  imports Reconciler SyncProps
begin

text \<open>
  The properties of the controller as a whole: why a pod is ever rewritten, that no pod is held for
  ever, that the ledger's invariant survives every call, what the status says, and how the two
  rules behave when a profile chains them.
\<close>

section \<open>Properties\<close>

text \<open>
  C9: a pod is only rewritten for a reason. Every patch a call sends is for the requested pod, which
  carries a gate, and what it writes is determined: without a profile of the pod's name, a release for
  that reason; otherwise the ledger has been synced and, in this order, a pod that asks for priority and a pod past its
  timeout are released for that reason; else the outcome of the rule loop on the synced ledger decides: if it
  stopped at a rule, the pod only gets the name of that rule as its held-by annotation and is looked
  at again in a second; if every rule released it, the pod is released onto the node the loop ended with.
\<close>

theorem reconcile_patch_reasons:
  assumes "Reconcile milli now api ns name r = (res, r', es)" and "PatchPod p p' \<in> set es"
  shows "api_get_pod api ns name = Inr p \<and> hasKompaktGates p \<and>
    (\<exists>pn. map_of (entries (pod_Labels p)) LabelProfile = Some pn \<and>
      (case api_get_profile api pn of
         Inl e \<Rightarrow> IsNotFound e \<and> p' = released_pod '''' ''profile_not_found'' p
       | Inr profile \<Rightarrow>
           (case syncLedger milli now api profile p r of
              (Some _, _) \<Rightarrow> False
            | (None, r1, _) \<Rightarrow>
                if sget (pod_Annotations p) AnnotationPriority = ''high'' then p' = released_pod '''' ''priority'' p
                else if isTimedOut now p profile then p' = released_pod '''' ''timeout'' p
                else
                  (case fst (eval_rules (Registry milli) p profile pn (sp_Rules (pp_Spec profile)) '''' (rc_Ledger r1)) of
                     RuleError \<Rightarrow> False
                   | HeldBy rule \<Rightarrow> annotated_pod AnnotationHeldBy rule p = Some p' \<and> res = (\<lparr>RequeueAfter = Second\<rparr>, None)
                   | AllRelease t \<Rightarrow> p' = released_pod t ''capacity'' p))))"
  using assms
proof (cases rule: Reconcile_patch_cases)
  case (decided pn profile r1 es1 r2 es2)
  from decide_patch [OF decided(6,7)] show ?thesis
    using decided(1-5) by simp
qed simp

theorem reconcile_patch_reasons_witness:
  "let pod = sample_pod []; api = (sample_api (sample_profile []) pod [] [])\<lparr>api_get_profile := (\<lambda>_. Inl (NotFound ''gone''))\<rparr>
   in case Reconcile id 5 api ''default'' ''web-0'' (fresh_reconciler []) of (res, r', es) \<Rightarrow>
        PatchPod pod (released_pod '''' ''profile_not_found'' pod) \<in> set es \<and> hasKompaktGates pod \<and>
        IsNotFound (NotFound ''gone'')"
proof -
  let ?pod = "sample_pod []"
  let ?api = "(sample_api (sample_profile []) ?pod [] [])\<lparr>api_get_profile := (\<lambda>_. Inl (NotFound ''gone''))\<rparr>"
  have facts: "api_get_pod ?api ''default'' ''web-0'' = Inr ?pod" "hasKompaktGates ?pod"
    "map_of (entries (pod_Labels ?pod)) LabelProfile = Some ''gpu''" "api_get_profile ?api ''gpu'' = Inl (NotFound ''gone'')"
    by (simp_all add: sample_api_def hasKompaktGates_iff sample_pod_def GatePrefix_def HasPrefix_def)
  obtain res r' es where run: "Reconcile id 5 ?api ''default'' ''web-0'' (fresh_reconciler []) = (res, r', es)"
    by (rule prod_cases3)
  have patch: "PatchPod ?pod (released_pod '''' ''profile_not_found'' ?pod) \<in> set es"
    using run facts by (auto simp: Reconcile_def releaseGates_def releaseGatesWithAffinity_def Let_def)
  show ?thesis
    using reconcile_patch_reasons [OF run patch] patch facts unfolding Let_def run by simp
qed

lemma Reconcile_overdue:
  assumes "api_get_pod api ns name = Inr pod" and "hasKompaktGates pod"
    and "map_of (entries (pod_Labels pod)) LabelProfile = Some pn"
    and "case api_get_profile api pn of
           Inl e \<Rightarrow> IsNotFound e
         | Inr profile \<Rightarrow> api_list_nodes api = Inr items \<and> api_list_pods api = Inr pods \<and>
             (sget (pod_Annotations pod) AnnotationPriority = ''high'' \<or> isTimedOut now pod profile)"
    and "\<And>p'. api_patch_pod api pod p' = None"
  shows "\<exists>r' es reason. Reconcile milli now api ns name r = ((done_result, None), r', es) \<and>
    PatchPod pod (released_pod '''' reason pod) \<in> set es \<and> \<not> hasKompaktGates (released_pod '''' reason pod)"
proof (cases "api_get_profile api pn")
  case (Inl e)
  then have "Reconcile milli now api ns name r = ((done_result, None), r,
      recordRelease now pod pn ''profile_not_found'' '''' @ [PatchPod pod (released_pod '''' ''profile_not_found'' pod)])"
    using assms by (simp add: Reconcile_def releaseGates_def releaseGatesWithAffinity_def Let_def)
  then show ?thesis
    using released_no_gates by fastforce
next
  case (Inr profile)
  with assms(4) have lists: "api_list_nodes api = Inr items" "api_list_pods api = Inr pods"
    and due: "sget (pod_Annotations pod) AnnotationPriority = ''high'' \<or> isTimedOut now pod profile"
    by simp_all
  obtain r1 es1 where sync: "syncLedger milli now api profile pod r = (None, r1, es1)"
    using sync_success [OF lists, of milli now r profile pod] by metis
  define reason where
    "reason = (if sget (pod_Annotations pod) AnnotationPriority = ''high'' then ''priority'' else ''timeout'')"
  have dec: "decide milli now api profile pn pod r1 = ((done_result, None), r1,
      recordRelease now pod pn reason '''' @ [PatchPod pod (released_pod '''' reason pod)])"
    using due assms(5)
    by (elim disjE) (simp_all add: decide_def releaseGates_def releaseGatesWithAffinity_def Let_def reason_def)
  show ?thesis
    using assms(1-3) Inr sync dec released_no_gates [of "''''" reason pod]
    by (auto simp: Reconcile_def intro!: exI [of _ reason])
qed

text \<open>
  No pod is held for ever. Once a gated pod of an existing profile asks for priority or has
  waited past its timeout, and the cluster lists can be read, one call sends the patch that removes
  its gates; if the patch succeeds the call is done with it. A pod whose profile is gone is
  released likewise.
\<close>

theorem overdue_pod_is_released:
  assumes "api_get_pod api ns name = Inr pod" and "hasKompaktGates pod"
    and "map_of (entries (pod_Labels pod)) LabelProfile = Some pn"
    and "case api_get_profile api pn of
           Inl e \<Rightarrow> IsNotFound e
         | Inr profile \<Rightarrow> api_list_nodes api = Inr items \<and> api_list_pods api = Inr pods \<and>
             (sget (pod_Annotations pod) AnnotationPriority = ''high'' \<or> isTimedOut now pod profile)"
    and "\<And>p'. api_patch_pod api pod p' = None"
  shows "\<exists>r' es reason. Reconcile milli now api ns name r = ((done_result, None), r', es) \<and>
    PatchPod pod (released_pod '''' reason pod) \<in> set es \<and> \<not> hasKompaktGates (released_pod '''' reason pod)"
  using assms by (rule Reconcile_overdue)

theorem overdue_pod_is_released_witness:
  "let pod = sample_pod []; api = sample_api (sample_profile [''WaitForNodeReady'']) pod [] []
   in \<exists>r' es reason. Reconcile id (1 + 181 * 10 ^ 9) api ''default'' ''web-0'' (fresh_reconciler []) = ((done_result, None), r', es) \<and>
        PatchPod pod (released_pod '''' reason pod) \<in> set es \<and> \<not> hasKompaktGates (released_pod '''' reason pod)"
  unfolding Let_def
proof (rule overdue_pod_is_released [where items = "[]" and pods = "[]" and pn = "''gpu''"])
  let ?pod = "sample_pod []" and ?p = "sample_profile [''WaitForNodeReady'']"
  let ?api = "sample_api ?p ?pod [] []"
  show "api_get_pod ?api ''default'' ''web-0'' = Inr ?pod" "hasKompaktGates ?pod"
    "map_of (entries (pod_Labels ?pod)) LabelProfile = Some ''gpu''" "api_patch_pod ?api ?pod p' = None" for p'
    by (simp_all add: sample_api_def hasKompaktGates_iff sample_pod_def GatePrefix_def HasPrefix_def)
  have "isTimedOut (1 + 181 * 10 ^ 9) ?pod ?p"
    by (simp add: isTimedOut_def sample_profile_def ParseDuration_3m sample_pod_def IsZero_def Since_def sint_Sub)
  then show "case api_get_profile ?api ''gpu'' of Inl e \<Rightarrow> IsNotFound e
      | Inr profile \<Rightarrow> api_list_nodes ?api = Inr [] \<and> api_list_pods ?api = Inr [] \<and>
          (sget (pod_Annotations ?pod) AnnotationPriority = ''high'' \<or> isTimedOut (1 + 181 * 10 ^ 9) ?pod profile)"
    by (simp add: sample_api_def)
qed

text \<open>
  A released pod is left alone. Once a pod has no gate of this controller, in particular after
  any release, a call does nothing, and the event filter does not even ask for one.
\<close>

theorem released_pod_is_left_alone:
  assumes "api_get_pod api ns name = Inr (released_pod node reason pod)"
  shows "Reconcile milli now api ns name r = ((done_result, None), r, []) \<and>
    \<not> event_filter (Some (released_pod node reason pod))"
  using assms released_no_gates [of node reason pod] by (simp add: Reconcile_def event_filter_def)

theorem released_pod_is_left_alone_witness:
  "let pod = released_pod ''node-1'' ''capacity'' (sample_pod []); api = sample_api (sample_profile []) pod [] []
   in Reconcile id 5 api ''default'' ''web-0'' (fresh_reconciler []) = ((done_result, None), fresh_reconciler [], [])"
  unfolding Let_def
  by (rule released_pod_is_left_alone [THEN conjunct1]) (simp add: sample_api_def)

lemma Reconcile_inv:
  fixes milli :: "'q \<Rightarrow> int64"
  assumes "sync_inv (rc_Ledger r)"
    and "\<forall>pn profile. api_get_profile api pn = Inr profile \<longrightarrow> inputs_ok milli api profile"
    and "\<forall>pod pn profile. api_get_pod api ns name = Inr pod \<longrightarrow> api_get_profile api pn = Inr profile \<longrightarrow>
           amounts_ok (demand_of milli pod profile)"
    and "Reconcile milli now api ns name r = (res, r', es)"
  shows "sync_inv (rc_Ledger r')"
proof (cases "\<exists>pod pn profile. api_get_pod api ns name = Inr pod \<and> hasKompaktGates pod \<and>
    map_of (entries (pod_Labels pod)) LabelProfile = Some pn \<and> api_get_profile api pn = Inr profile")
  case False
  then have "r' = r"
    using assms(4) by (auto simp: Reconcile_def split: sum.splits if_splits option.splits prod.splits)
  with assms(1) show ?thesis by simp
next
  case True
  then obtain pod pn profile where pod: "api_get_pod api ns name = Inr pod" "hasKompaktGates pod"
    "map_of (entries (pod_Labels pod)) LabelProfile = Some pn" "api_get_profile api pn = Inr profile"
    by blast
  obtain se r1 es1 where sync: "syncLedger milli now api profile pod r = (se, r1, es1)"
    by (rule prod_cases3)
  have inv1: "sync_inv (rc_Ledger r1)"
    using syncLedger_inv [OF assms(1) _ sync] assms(2) pod(4) by blast
  obtain lr l' es2 where loop:
    "eval_rules (Registry milli) pod profile pn (sp_Rules (pp_Spec profile)) '''' (rc_Ledger r1) = (lr, l', es2 :: 'q effect list)"
    by (rule prod_cases3)
  have "ledger_ok l'" "same_names (rc_Ledger r1) l'"
    using std.eval_rules_inv [OF refl _ _ loop] inv1 assms(3) pod by (auto simp: sync_inv_def)
  then have inv2: "sync_inv l'"
    using inv1 same_names_sync_inv by blast
  have "rc_Ledger r' = rc_Ledger r1 \<or> rc_Ledger r' = l'"
    using assms(4) pod sync loop
    by (cases se; cases lr) (auto simp: Reconcile_def decide_def split: prod.splits if_splits)
  with inv1 inv2 show ?thesis by auto
qed

text \<open>
  C12: the ledger's invariant survives every call, errors of the API included, provided that what the API does report is in
  range: the amounts of nodes, running pods and templates and the demand of the pod are not negative
  and at most \<open>2 ^ 61\<close>, and node names have no slash. The ledger then is well formed, node names and in-flight
  names stay apart, and the arithmetic on it does not wrap. The code does not check these conditions itself.
\<close>

theorem reconcile_keeps_invariant:
  fixes milli :: "'q \<Rightarrow> int64"
  assumes "sync_inv (rc_Ledger r)"
    and "\<forall>pn profile. api_get_profile api pn = Inr profile \<longrightarrow> inputs_ok milli api profile"
    and "\<forall>pod pn profile. api_get_pod api ns name = Inr pod \<longrightarrow> api_get_profile api pn = Inr profile \<longrightarrow>
           amounts_ok (demand_of milli pod profile)"
    and "Reconcile milli now api ns name r = (res, r', es)"
  shows "sync_inv (rc_Ledger r')"
  using assms by (rule Reconcile_inv)

theorem reconcile_keeps_invariant_witness:
  "let pod = sample_pod [(''cpu'', 1500)]; p = sample_profile [''WaitForNodeReady''];
       api = sample_api p pod [sample_node ''node-1'' [(''cpu'', 4000)] 1 []] []
   in case Reconcile id 5 api ''default'' ''web-0'' (fresh_reconciler [NotReadyNodes]) of (res, r', es) \<Rightarrow> sync_inv (rc_Ledger r')"
proof -
  let ?pod = "sample_pod [(''cpu'', 1500)]" and ?p = "sample_profile [''WaitForNodeReady'']"
  let ?api = "sample_api ?p ?pod [sample_node ''node-1'' [(''cpu'', 4000)] 1 []] []"
  have inv: "sync_inv (rc_Ledger (fresh_reconciler [NotReadyNodes]))"
    by (simp add: fresh_reconciler_def sync_inv_New)
  have "inputs_ok id ?api ?p"
    by (simp add: inputs_ok_def sample_api_def node_ok_def sample_node_def amount_ok_def pod_usage_def the_reader_def
        reader_ok_def quiet_reader_def sample_profile_def)
  then have ok: "\<forall>pn profile. api_get_profile ?api pn = Inr profile \<longrightarrow> inputs_ok id ?api profile"
    by (simp add: sample_api_def)
  have d: "\<forall>pod pn profile. api_get_pod ?api ''default'' ''web-0'' = Inr pod \<longrightarrow> api_get_profile ?api pn = Inr profile \<longrightarrow>
      amounts_ok (demand_of id pod profile)"
    by (simp add: sample_api_def sample_demand amounts_ok_def amount_ok_def wf_gmap_def)
  obtain res r' es where run: "Reconcile id 5 ?api ''default'' ''web-0'' (fresh_reconciler [NotReadyNodes]) = (res, r', es)"
    by (rule prod_cases3)
  show ?thesis
    using reconcile_keeps_invariant [OF inv ok d run] unfolding Let_def run by simp
qed

text \<open>
  C19: a failed rebuild is retried and changes no pod. If the nodes or the pods cannot be listed, the
  call asks to be repeated after a second, reports no error and patches nothing; the status it
  writes, if it writes one, says that neither the ledger nor the profile is ready.
\<close>

theorem failed_sync_is_retried:
  assumes "api_get_pod api ns name = Inr pod" and "hasKompaktGates pod"
    and "map_of (entries (pod_Labels pod)) LabelProfile = Some pn" and "api_get_profile api pn = Inr profile"
    and "(\<exists>e. api_list_nodes api = Inl e) \<or> (\<exists>e. api_list_pods api = Inl e)"
  shows "case Reconcile milli now api ns name r of (res, r', es) \<Rightarrow>
    res = (\<lparr>RequeueAfter = Second\<rparr>, None) \<and> (\<forall>p p'. PatchPod p p' \<notin> set es) \<and>
    (\<forall>p. UpdateStatus p \<in> set es \<longrightarrow> \<not> conditionIsTrue p condLedgerReady \<and> \<not> conditionIsTrue p condReady)"
proof -
  obtain e r1 where sync: "syncLedger milli now api profile pod r = (Some e, r1, [])"
    using assms(5) sync_failure [where api = api and profile = profile and pod = pod and r = r]
    by (cases "api_list_nodes api") auto
  have "\<not> conditionIsTrue p condLedgerReady \<and> \<not> conditionIsTrue p condReady"
    if "UpdateStatus p \<in> set (snd (updateProfileStatus now api r1 (setLedgerReadyCondition now (Some e) profile)))" for p
    using that by (auto simp: updateProfileStatus_def Let_def condition_truths cond_names split: sum.splits)
  then show ?thesis
    using assms(1-4) sync by (auto simp: Reconcile_def updateProfileStatus_no_patch)
qed

theorem failed_sync_is_retried_witness:
  "let pod = sample_pod []; api = (sample_api (sample_profile []) pod [] [])\<lparr>api_list_nodes := Inl (OtherError ''timeout'')\<rparr>
   in fst (Reconcile id 5 api ''default'' ''web-0'' (fresh_reconciler [])) = (\<lparr>RequeueAfter = Second\<rparr>, None)"
proof -
  let ?pod = "sample_pod []" and ?p = "sample_profile []"
  let ?api = "(sample_api ?p ?pod [] [])\<lparr>api_list_nodes := Inl (OtherError ''timeout'')\<rparr>"
  have facts: "api_get_pod ?api ''default'' ''web-0'' = Inr ?pod" "hasKompaktGates ?pod"
    "map_of (entries (pod_Labels ?pod)) LabelProfile = Some ''gpu''" "api_get_profile ?api ''gpu'' = Inr ?p"
    "(\<exists>e. api_list_nodes ?api = Inl e) \<or> (\<exists>e. api_list_pods ?api = Inl e)"
    by (simp_all add: sample_api_def hasKompaktGates_iff sample_pod_def GatePrefix_def HasPrefix_def)
  show ?thesis
    using failed_sync_is_retried [OF facts, of id 5 "fresh_reconciler []"] unfolding Let_def
    by (simp split: prod.splits)
qed



text \<open>
  The target of a release is a node the API has just listed. After a rebuild whose lists succeed,
  any node that the rule loop names as target is the name of a listed node that is not being
  deleted and passes the resource check; a rule never makes the loop fail.
\<close>

theorem target_is_a_listed_node:
  fixes milli :: "'q \<Rightarrow> int64"
  assumes "sync_inv (rc_Ledger r)" and "inputs_ok milli api profile"
    and "api_list_nodes api = Inr items" and "api_list_pods api = Inr pods"
    and "syncLedger milli now api profile pod r = (e, r1, es)" and "amounts_ok (demand_of milli pod profile)"
    and "eval_rules (Registry milli) pod profile pn refs '''' (rc_Ledger r1) = (res, l', es' :: 'q effect list)"
  shows "res \<noteq> RuleError \<and>
    (\<forall>t. res = AllRelease t \<longrightarrow> t = '''' \<or> (\<exists>node \<in> set items. node_Name node = t \<and> synced milli profile node))"
proof -
  have "ledger_ok (rc_Ledger r1)"
    using syncLedger_inv [OF assms(1,2,5)] by (simp add: sync_inv_def)
  note loop = std.eval_rules_inv [OF refl this assms(6,7)]
  have "\<exists>node \<in> set items. node_Name node = t \<and> synced milli profile node" if "t \<in> fst ` set (nodes (rc_Ledger r1))" for t
  proof -
    have "map_of (nodes (rc_Ledger r1)) t \<noteq> None"
      using that by (simp add: map_of_eq_None_iff)
    then obtain node where "List.find (\<lambda>n. node_Name n = t) (rev (filter (synced milli profile) items)) = Some node"
      using sync_nodes_lookup [OF assms(1,3-5), of t] by auto
    from find_SomeD [OF this] show ?thesis by auto
  qed
  with loop show ?thesis by blast
qed

theorem target_is_a_listed_node_witness:
  "let pod = sample_pod [(''cpu'', 1500)]; p = sample_profile [''WaitForWorkloadPacking''];
       api = sample_api p pod [sample_node ''node-1'' [(''cpu'', 4000)] 1 []] []
   in case syncLedger id 5 api p pod (fresh_reconciler []) of (e, r1, es) \<Rightarrow>
        \<forall>t. fst (eval_rules (Registry id) pod p ''gpu'' (sp_Rules (pp_Spec p)) '''' (rc_Ledger r1)) \<noteq> RuleError"
proof -
  let ?pod = "sample_pod [(''cpu'', 1500)]" and ?p = "sample_profile [''WaitForWorkloadPacking'']"
  let ?node = "sample_node ''node-1'' [(''cpu'', 4000)] 1 []"
  let ?api = "sample_api ?p ?pod [?node] []"
  have h: "sync_inv (rc_Ledger (fresh_reconciler []))" "inputs_ok id ?api ?p"
    "api_list_nodes ?api = Inr [?node]" "api_list_pods ?api = Inr []"
    by (simp_all add: fresh_reconciler_def sync_inv_New inputs_ok_def sample_api_def node_ok_def sample_node_def amount_ok_def
        pod_usage_def the_reader_def reader_ok_def quiet_reader_def sample_profile_def)
  have d: "amounts_ok (demand_of id ?pod ?p)"
    by (simp add: sample_demand amounts_ok_def amount_ok_def wf_gmap_def)
  obtain e r1 es where run: "syncLedger id 5 ?api ?p ?pod (fresh_reconciler []) = (e, r1, es)"
    by (rule prod_cases3)
  obtain res l' and es' :: "int64 effect list"
    where loop: "eval_rules (Registry id) ?pod ?p ''gpu'' (sp_Rules (pp_Spec ?p)) '''' (rc_Ledger r1) = (res, l', es')"
    by (rule prod_cases3)
  show ?thesis
    using target_is_a_listed_node [OF h run d loop] unfolding Let_def run prod.case loop by simp
qed

text \<open>
  Chaining the two rules. When a profile lists \<^verbatim>\<open>WaitForWorkloadPacking\<close> before
  \<^verbatim>\<open>WaitForNodeReady\<close> and no existing node is eligible for the pod, the loop stops at the first
  rule: the pod is held, nothing is reserved, and \<^verbatim>\<open>WaitForNodeReady\<close> is not asked, so the pod
  neither waits for an in-flight node nor passes through to the autoscaler.
\<close>

theorem packing_first_blocks_passthrough:
  fixes milli :: "'q \<Rightarrow> int64"
  assumes "ledger_ok l" and "amounts_ok (demand_of milli pod p)" and "length (demand_of milli pod p) \<le> 3"
    and "demand_of milli pod p \<noteq> []"
    and "\<forall>(name, n) \<in> set (nodes l). \<not> eligible n (demand_of milli pod p) (extractConstraints pod)"
    and "rule_Name ref = ''WaitForWorkloadPacking''"
  shows "\<exists>es. eval_rules (Registry milli) pod p pn (ref # refs) t l = (HeldBy ''WaitForWorkloadPacking'', l, es :: 'q effect list)"
  using assms(1)
proof (cases rule: WaitForWorkloadPacking_cases [where milli = milli and pod = pod and p = p])
  case (hold e)
  then show ?thesis
    using assms(6) by (simp add: Registry_lookup WaitForWorkloadPacking_def)
qed (use assms(4,5) in auto)

theorem packing_first_blocks_passthrough_witness:
  "let pod = sample_pod [(''cpu'', 1500)]; p = sample_profile [''WaitForWorkloadPacking'', ''WaitForNodeReady'']
   in fst (eval_rules (Registry id) pod p ''gpu'' (sp_Rules (pp_Spec p)) '''' New) = HeldBy ''WaitForWorkloadPacking'' \<and>
      release (fst (WaitForNodeReady_Evaluate id pod New p))"
proof -
  let ?pod = "sample_pod [(''cpu'', 1500)]" and ?p = "sample_profile [''WaitForWorkloadPacking'', ''WaitForNodeReady'']"
  have h: "ledger_ok New" "amounts_ok (demand_of id ?pod ?p)" "length (demand_of id ?pod ?p) \<le> 3" "demand_of id ?pod ?p \<noteq> []"
    "\<forall>(name, n) \<in> set (nodes New). \<not> eligible n (demand_of id ?pod ?p) (extractConstraints ?pod)"
    "rule_Name \<lparr>rule_Name = ''WaitForWorkloadPacking''\<rparr> = ''WaitForWorkloadPacking''"
    by (rule New_ok) (simp_all add: sample_demand amounts_ok_def amount_ok_def wf_gmap_def New_def)
  have rules: "sp_Rules (pp_Spec ?p) = [\<lparr>rule_Name = ''WaitForWorkloadPacking''\<rparr>, \<lparr>rule_Name = ''WaitForNodeReady''\<rparr>]"
    by (simp add: sample_profile_def)
  have "release (fst (WaitForNodeReady_Evaluate id ?pod New ?p))"
    by (simp add: WaitForNodeReady_Evaluate_def sample_demand FindFit_def New_def HasInflightSignal_def)
  then show ?thesis
    using packing_first_blocks_passthrough [OF h, of "''gpu''" "[\<lparr>rule_Name = ''WaitForNodeReady''\<rparr>]" "''''"]
    unfolding Let_def rules by auto
qed

end
