(* ===== verification/Placement.thy ===== *)
theory Placement
  imports ReconcilerProps
begin

text \<open>
  Where released pods are pinned, from the API's answers to the patch: the ledger rebuild (\<^verbatim>\<open>syncLedger\<close>), the rule loop and the
  release of \<^verbatim>\<open>src/internal/controller/packingprofile_controller.go\<close> composed. A pod is only pinned to a node that has room for
  it beside the running pods and everything pinned there before, over any sequence of calls that keeps seeing
  the node; the theorems are in \<open>PlacementProps\<close>.
\<close>

section \<open>Reservations only grow between rebuilds\<close>

definition reserved_on :: "NodeLedger \<Rightarrow> string \<Rightarrow> string \<Rightarrow> int" where
  "reserved_on l n k = (case findEntry l n of None \<Rightarrow> 0 | Some e \<Rightarrow> sint (qget (reserved e) k))"

definition grows :: "NodeLedger \<Rightarrow> NodeLedger \<Rightarrow> bool" where
  "grows l l' \<longleftrightarrow> (\<forall>n e. findEntry l n = Some e \<longrightarrow>
     (\<exists>r. findEntry l' n = Some (e\<lparr>reserved := r\<rparr>) \<and> (\<forall>k. sint (qget (reserved e) k) \<le> sint (qget r k))))"

lemma growsE:
  assumes "grows l l'" and "findEntry l n = Some e"
  obtains r where "findEntry l' n = Some (e\<lparr>reserved := r\<rparr>)" and "\<And>k. sint (qget (reserved e) k) \<le> sint (qget r k)"
  using assms unfolding grows_def by blast

lemma grows_refl: "grows l l"
  unfolding grows_def
proof (intro allI impI)
  fix n e
  assume "findEntry l n = Some e"
  then show "\<exists>r. findEntry l n = Some (e\<lparr>reserved := r\<rparr>) \<and> (\<forall>k. sint (qget (reserved e) k) \<le> sint (qget r k))"
    by (intro exI [of _ "reserved e"]) simp
qed

lemma grows_trans:
  assumes "grows l l1" and "grows l1 l2"
  shows "grows l l2"
  unfolding grows_def
proof (intro allI impI)
  fix n e
  assume "findEntry l n = Some e"
  with assms(1) obtain r1 where 1: "findEntry l1 n = Some (e\<lparr>reserved := r1\<rparr>)" "\<And>k. sint (qget (reserved e) k) \<le> sint (qget r1 k)"
    by (rule growsE) blast
  from assms(2) 1(1) obtain r2 where "findEntry l2 n = Some (e\<lparr>reserved := r1\<rparr>\<lparr>reserved := r2\<rparr>)"
      "\<And>k. sint (qget (reserved (e\<lparr>reserved := r1\<rparr>)) k) \<le> sint (qget r2 k)"
    by (rule growsE) blast
  with 1(2) show "\<exists>r. findEntry l2 n = Some (e\<lparr>reserved := r\<rparr>) \<and> (\<forall>k. sint (qget (reserved e) k) \<le> sint (qget r k))"
    by (intro exI [of _ r2]) (auto intro: order_trans)
qed

lemma reserved_on_nonneg: "ledger_ok l \<Longrightarrow> 0 \<le> reserved_on l n k"
  using amounts_ok_qget
  by (fastforce simp: reserved_on_def entry_ok_def amount_ok_def dest: findEntry_ok split: option.split)

lemma grows_reserved_on: "grows l l' \<Longrightarrow> findEntry l n \<noteq> None \<Longrightarrow> reserved_on l n k \<le> reserved_on l' n k"
  by (auto simp: reserved_on_def elim: growsE)

lemma Reserve_grows:
  assumes "ledger_ok l" and "amounts_ok d" and "Reserve l name d = Inr l'"
  shows "grows l l'" and "reserved_on l' name k = reserved_on l name k + sint (qget d k)"
proof -
  obtain n where n: "findEntry l name = Some n"
    and l': "l' = withEntry l name (\<lambda>n. n\<lparr>reserved := add_reserved d (reserved n)\<rparr>)"
    using assms(3) by (auto simp: Reserve_Inr_iff)
  have wf: "wf_gmap d" using assms(2) by (simp add: amounts_ok_def)
  have sum: "sint (qget (add_reserved d (reserved n)) k) = sint (qget (reserved n) k) + sint (qget d k)"
    and le: "sint (qget (reserved n) k) \<le> sint (qget (add_reserved d (reserved n)) k)" for k
  proof -
    have "amount_ok (qget d k)" "amount_ok (qget (reserved n) k)"
      using findEntry_ok [OF assms(1) n] amounts_ok_qget assms(2) by (auto simp: entry_ok_def)
    then show "sint (qget (add_reserved d (reserved n)) k) = sint (qget (reserved n) k) + sint (qget d k)"
      "sint (qget (reserved n) k) \<le> sint (qget (add_reserved d (reserved n)) k)"
      by (simp_all add: qget_add_reserved [OF wf] sint_add_exact amount_ok_def in_int64_def)
  qed
  show "reserved_on l' name k = reserved_on l name k + sint (qget d k)"
    by (simp add: reserved_on_def l' findEntry_withEntry n sum)
  show "grows l l'"
    unfolding grows_def
  proof (intro allI impI)
    fix m e
    assume e: "findEntry l m = Some e"
    show "\<exists>r. findEntry l' m = Some (e\<lparr>reserved := r\<rparr>) \<and> (\<forall>k. sint (qget (reserved e) k) \<le> sint (qget r k))"
    proof (cases "m = name")
      case True
      then show ?thesis using e n le by (auto simp: l' findEntry_withEntry)
    next
      case False
      then show ?thesis
        using e by (intro exI [of _ "reserved e"]) (simp add: l' findEntry_withEntry)
    qed
  qed
qed

lemma grows_eligible:
  assumes "grows l l'" and "ledger_ok l" and "ledger_ok l'" and "findEntry l n = Some e" and "findEntry l' n = Some e'"
    and "eligible e' d c"
  shows "eligible e d c"
proof -
  obtain r where e': "e' = e\<lparr>reserved := r\<rparr>" and le: "\<forall>k. sint (qget (reserved e) k) \<le> sint (qget r k)"
    using growsE [OF assms(1,4)] assms(5) by (metis option.inject)
  have "sint (available e' k) \<le> sint (available e k)" for k
    using sint_available findEntry_ok [OF assms(2,4)] findEntry_ok [OF assms(3,5)] le by (simp add: e')
  with assms(6) show ?thesis
    by (auto simp: eligible_def e' demand_fits_iff intro: order_trans)
qed

section \<open>The target of the rule loop\<close>

text \<open>Node \<open>t\<close> of ledger \<open>l\<close> can take the demand, and ledger \<open>l'\<close> has it reserved there.\<close>

definition placed_on ::
  "NodeLedger \<Rightarrow> NodeLedger \<Rightarrow> resources \<Rightarrow> PodSchedulingConstraints option \<Rightarrow> string \<Rightarrow> bool" where
  "placed_on l l' d c t \<longleftrightarrow> (\<exists>e. map_of (nodes l) t = Some e \<and> eligible e d c \<and>
     (\<forall>k. reserved_on l t k + sint (qget d k) \<le> reserved_on l' t k))"

lemma findEntry_node: "map_of (nodes l) t = Some e \<Longrightarrow> findEntry l t = Some e"
  by (simp add: findEntry_def)

lemma placed_on_Reserve:
  assumes "ledger_ok l" and "amounts_ok d" and "Reserve l t d = Inr l1" and "(t, n) \<in> set (nodes l)" and "eligible n d c"
  shows "placed_on l l1 d c t"
proof -
  have "map_of (nodes l) t = Some n"
    using assms(1,4) by (simp add: ledger_ok_iff nodes_ok_iff wf_gmap_lookup)
  then show ?thesis
    using Reserve_grows(2) [OF assms(1-3)] assms(5) by (auto simp: placed_on_def)
qed

lemma placed_on_later:
  assumes "placed_on l l1 d c t" and "grows l l1" and "grows l1 l'"
  shows "placed_on l l' d c t"
proof -
  obtain e where e: "map_of (nodes l) t = Some e" "eligible e d c" and le: "\<And>k. reserved_on l t k + sint (qget d k) \<le> reserved_on l1 t k"
    using assms(1) by (auto simp: placed_on_def)
  have "findEntry l1 t \<noteq> None"
    using growsE [OF assms(2) findEntry_node [OF e(1)]] by auto
  from grows_reserved_on [OF assms(3) this] le have "reserved_on l t k + sint (qget d k) \<le> reserved_on l' t k" for k
    by (rule order_trans [rotated])
  with e show ?thesis by (auto simp: placed_on_def)
qed

lemma placed_on_earlier:
  assumes "placed_on l1 l' d c t" and "grows l l1" and "same_names l l1" and "ledger_ok l" and "ledger_ok l1"
  shows "placed_on l l' d c t"
proof -
  obtain e1 where e1: "map_of (nodes l1) t = Some e1" "eligible e1 d c"
    and le: "\<And>k. reserved_on l1 t k + sint (qget d k) \<le> reserved_on l' t k"
    using assms(1) by (auto simp: placed_on_def)
  obtain e where e: "map_of (nodes l) t = Some e"
    using e1(1) assms(3) unfolding same_names_def by (metis map_of_eq_None_iff not_None_eq set_map)
  note f = findEntry_node [OF e] findEntry_node [OF e1(1)]
  have "reserved_on l t k + sint (qget d k) \<le> reserved_on l' t k" for k
    using grows_reserved_on [OF assms(2), of t k] f(1) le [of k] by simp
  moreover have "eligible e d c"
    by (rule grows_eligible [OF assms(2,4,5) f e1(2)])
  ultimately show ?thesis using e by (auto simp: placed_on_def)
qed

context rule_registry
begin

lemma evaluate_target:
  assumes "reg name = Some rule" and "ledger_ok l" and "amounts_ok (demand pod p)" and "Evaluate rule pod l p = (v, l1)"
  shows "grows l l1" and "nodeName v \<noteq> '''' \<Longrightarrow> placed_on l l1 (demand pod p) (extractConstraints pod) (nodeName v)"
  using reg_placed [OF assms(1,2,4)] reg_unplaced [OF assms(1,2,4)] Reserve_grows(1) [OF assms(2,3)] grows_refl
    placed_on_Reserve [OF assms(2,3)] by blast+

lemma eval_rules_target:
  assumes "map_of g = reg" and "ledger_ok l" and "amounts_ok (demand pod p)"
    and "eval_rules g pod p pn refs t0 l = (res, l', es)"
  shows "grows l l' \<and> (\<forall>t. res = AllRelease t \<longrightarrow> t = t0 \<or> placed_on l l' (demand pod p) (extractConstraints pod) t)"
  using assms(2,4)
proof (induction refs arbitrary: l t0 res l' es)
  case Nil
  then show ?case by (auto simp: grows_refl)
next
  case (Cons ref refs)
  show ?case
  proof (cases "reg (rule_Name ref)")
    case None
    with Cons assms(1) show ?thesis by simp
  next
    case (Some rule)
    obtain v l1 where ev: "Evaluate rule pod l p = (v, l1)" by (cases "Evaluate rule pod l p")
    have ok: "err v = None" "ledger_ok l1" "same_names l l1"
      using reg_no_error [OF Some ev] reg_ok [OF Some Cons.prems(1) assms(3) ev] evaluate_names [OF Some Cons.prems(1) ev]
      by simp_all
    note one = evaluate_target [OF Some Cons.prems(1) assms(3) ev]
    show ?thesis
    proof (cases "release v")
      case False
      with Cons.prems(2) ev ok Some assms(1) one(1) show ?thesis by auto
    next
      case True
      let ?t1 = "if nodeName v \<noteq> '''' then nodeName v else t0"
      obtain es1 where rest: "eval_rules g pod p pn refs ?t1 l1 = (res, l', es1)"
        using Cons.prems(2) ev ok(1) True Some assms(1) by (auto split: prod.splits)
      note ih = Cons.IH [OF ok(2) rest]
      have "placed_on l l' (demand pod p) (extractConstraints pod) t" if "res = AllRelease t" "t \<noteq> t0" for t
      proof (cases "t = ?t1")
        case True
        then have "placed_on l l1 (demand pod p) (extractConstraints pod) t" using one(2) that(2) by (auto split: if_splits)
        then show ?thesis using one(1) ih by (blast intro: placed_on_later)
      next
        case False
        with ih that have "placed_on l1 l' (demand pod p) (extractConstraints pod) t" by blast
        then show ?thesis using one(1) ok(3) Cons.prems(1) ok(2) by (rule placed_on_earlier)
      qed
      then show ?thesis using ih one(1) by (blast intro: grows_trans)
    qed
  qed
qed

end

section \<open>One call\<close>

text \<open>What the API's answers must satisfy for the arithmetic to stay in range.\<close>

definition answers_ok :: "('q \<Rightarrow> int64) \<Rightarrow> 'q Api \<Rightarrow> bool" where
  "answers_ok milli api \<longleftrightarrow> (\<forall>pn profile. api_get_profile api pn = Inr profile \<longrightarrow> inputs_ok milli api profile \<and>
     (\<forall>ns name pod. api_get_pod api ns name = Inr pod \<longrightarrow> amounts_ok (demand_of milli pod profile)))"

lemma answers_okD:
  assumes "answers_ok milli api" and "api_get_profile api pn = Inr profile"
  shows "inputs_ok milli api profile" and "api_get_pod api ns name = Inr pod \<Longrightarrow> amounts_ok (demand_of milli pod profile)"
  using assms by (auto simp: answers_ok_def)

text \<open>The node a patch pins its pod to, if it is a release onto a node.\<close>

definition pin_of :: "'q Pod \<Rightarrow> 'q Pod \<Rightarrow> string option" where
  "pin_of p p' =
     (let t = sget (pod_Annotations p') AnnotationNode
      in if t \<noteq> '''' \<and> p' = released_pod t ''capacity'' p then Some t else None)"

definition pinned_terms :: "Affinity option \<Rightarrow> NodeSelectorTerm list" where
  "pinned_terms a = (case a of None \<Rightarrow> [] | Some aff \<Rightarrow>
     (case aff_NodeAffinity aff of None \<Rightarrow> [] | Some na \<Rightarrow> (case RequiredDuringScheduling na of None \<Rightarrow> [] | Some ts \<Rightarrow> ts)))"

lemma pinned_terms_pin:
  "pinned_terms (Some (pin_affinity node a)) =
     (if pinned_terms a = [] then [\<lparr>MatchExpressions = [hostnameReq node], MatchFields = []\<rparr>]
      else map (\<lambda>t. t\<lparr>MatchExpressions := MatchExpressions t @ [hostnameReq node]\<rparr>) (pinned_terms a))"
  by (auto simp: pinned_terms_def pin_affinity_def Let_def split: option.split)

lemma pin_affinity_new: "a \<noteq> Some (pin_affinity node a)"
proof
  assume "a = Some (pin_affinity node a)"
  then have "map MatchExpressions (pinned_terms a) = map MatchExpressions (pinned_terms (Some (pin_affinity node a)))"
    by simp
  then show False
    unfolding pinned_terms_pin by (cases "pinned_terms a") (auto split: if_splits)
qed

lemma released_affinity:
  "pod_Affinity (released_pod t reason p) = (if t = '''' then pod_Affinity p else Some (pin_affinity t (pod_Affinity p)))"
  by (simp add: released_pod_def Let_def)

lemma release_annotation_node: "t \<noteq> '''' \<Longrightarrow> sget (release_annotations t reason a) AnnotationNode = t"
  by (simp add: release_annotations_def Let_def mget_def gmap_simps label_defs)

lemma pin_of_unpinned:
  assumes "pod_Affinity p' = pod_Affinity p"
  shows "pin_of p p' = None"
proof -
  have "p' \<noteq> released_pod t ''capacity'' p" if "t \<noteq> ''''" for t
    using that assms pin_affinity_new [of "pod_Affinity p" t] by (auto simp: released_affinity)
  then show ?thesis by (auto simp: pin_of_def Let_def)
qed

lemma pin_of_released: "t \<noteq> '''' \<Longrightarrow> pin_of p (released_pod t ''capacity'' p) = Some t"
  by (simp add: pin_of_def Let_def release_annotation_node)

lemma pin_of_holds: "holds_with p p' \<Longrightarrow> pin_of p p' = None"
  by (rule pin_of_unpinned) (auto simp: holds_with_def annotated_pod_def Let_def split: if_splits)

text \<open>The pins of one call, each with the demand of its pod.\<close>

definition effect_pin :: "('q \<Rightarrow> int64) \<Rightarrow> 'q Api \<Rightarrow> 'q effect \<Rightarrow> (string \<times> resources) option" where
  "effect_pin milli api e =
     (case e of
        PatchPod p p' \<Rightarrow>
          (case (pin_of p p', map_of (entries (pod_Labels p)) LabelProfile) of
             (Some t, Some pn) \<Rightarrow>
               (case api_get_profile api pn of Inl _ \<Rightarrow> None | Inr profile \<Rightarrow> Some (t, demand_of milli p profile))
           | _ \<Rightarrow> None)
      | _ \<Rightarrow> None)"

definition call_pins :: "('q \<Rightarrow> int64) \<Rightarrow> 'q Api \<Rightarrow> 'q effect list \<Rightarrow> (string \<times> resources) list" where
  "call_pins milli api es = List.map_filter (effect_pin milli api) es"

lemma call_pins_append [simp]: "call_pins milli api (es @ es') = call_pins milli api es @ call_pins milli api es'"
  by (simp add: call_pins_def List.map_filter_def)

lemma call_pins_none: "(\<And>a b. PatchPod a b \<notin> set es) \<Longrightarrow> call_pins milli api es = []"
  by (auto simp: call_pins_def List.map_filter_def filter_empty_conv effect_pin_def split: effect.splits)

lemmas quiet_effects = call_pins_none [OF syncLedger_no_patch] call_pins_none [OF eval_rules_no_patch]
  call_pins_none [OF recordRelease_no_patch] call_pins_none [OF updateProfileStatus_no_patch]

lemma call_pins_unpinned: "pin_of p p' = None \<Longrightarrow> call_pins milli api [PatchPod p p'] = []"
  by (simp add: call_pins_def List.map_filter_def effect_pin_def)

lemma decide_pins:
  assumes "decide milli now api profile pn pod r = (res, r', es)"
    and "map_of (entries (pod_Labels pod)) LabelProfile = Some pn" and "api_get_profile api pn = Inr profile"
  obtains (held) "call_pins milli api es = []" and "rc_Ledger r' = rc_Ledger r"
  | (looped) t lr es' where "eval_rules (Registry milli) pod profile pn (sp_Rules (pp_Spec profile)) '''' (rc_Ledger r) = (lr, rc_Ledger r', es')"
      and "call_pins milli api es = (if t = '''' then [] else [(t, demand_of milli pod profile)])"
      and "t \<noteq> '''' \<Longrightarrow> lr = AllRelease t \<and> PatchPod pod (released_pod t ''capacity'' pod) \<in> set es"
proof -
  have unpinned: "call_pins milli api [PatchPod pod (released_pod '''' reason pod)] = []" for reason
    by (simp add: call_pins_unpinned pin_of_unpinned released_affinity)
  obtain lr l' es1 where loop:
    "eval_rules (Registry milli) pod profile pn (sp_Rules (pp_Spec profile)) '''' (rc_Ledger r) = (lr, l', es1 :: 'a effect list)"
    by (rule prod_cases3)
  note defs = decide_def releaseGates_def releaseGatesWithAffinity_def Let_def
  consider "sget (pod_Annotations pod) AnnotationPriority = ''high''" | "isTimedOut now pod profile"
    | (rules) "sget (pod_Annotations pod) AnnotationPriority \<noteq> ''high''" "\<not> isTimedOut now pod profile"
    by blast
  then show thesis
  proof cases
    case rules
    note quiet = quiet_effects(2) [OF loop]
    show thesis
    proof (cases lr)
      case RuleError
      with assms(1) rules loop have "es = es1" "rc_Ledger r' = l'" by (auto simp: defs)
      with loop quiet show thesis by (intro looped [of lr es1 "''''"]) simp_all
    next
      case (HeldBy rule)
      with assms(1) rules loop have "es = es1 @ snd (annotatePod api pod AnnotationHeldBy rule)" "rc_Ledger r' = l'"
        by (auto simp: defs split: prod.splits)
      moreover have "call_pins milli api (snd (annotatePod api pod AnnotationHeldBy rule)) = []"
        using pin_of_holds [of pod] call_pins_none [of "[]"]
        by (auto simp: annotatePod_def holds_with_def intro!: call_pins_unpinned split: option.split)
      ultimately show thesis using loop quiet by (intro looped [of lr es1 "''''"]) simp_all
    next
      case (AllRelease t)
      let ?patch = "PatchPod pod (released_pod t ''capacity'' pod)"
      from AllRelease assms(1) rules loop
      have es: "es = es1 @ recordRelease now pod pn ''capacity'' t @ [?patch]" "rc_Ledger r' = l'" by (auto simp: defs)
      have "call_pins milli api [?patch] = (if t = '''' then [] else [(t, demand_of milli pod profile)])"
        using assms(2,3) unpinned pin_of_released [of t pod]
        by (auto simp: call_pins_def List.map_filter_simps effect_pin_def)
      with es loop quiet AllRelease show thesis
        by (intro looped [of lr es1 t]) (simp_all add: quiet_effects)
    qed
  qed (use assms(1) unpinned in \<open>intro held; auto simp: defs quiet_effects split: if_splits\<close>)+
qed

lemma idle_call:
  fixes milli :: "'q \<Rightarrow> int64"
  assumes "Reconcile milli now api ns name r = (res, r', es)"
    and "\<nexists>pod pn profile. api_get_pod api ns name = Inr pod \<and> hasKompaktGates pod \<and>
      map_of (entries (pod_Labels pod)) LabelProfile = Some pn \<and> api_get_profile api pn = Inr profile"
  shows "call_pins milli api es = [] \<and> r' = r"
proof -
  have "call_pins milli api [PatchPod pod (released_pod '''' reason pod)] = []" for pod :: "'q Pod" and reason
    by (simp add: call_pins_unpinned pin_of_unpinned released_affinity)
  then show ?thesis
    using assms call_pins_none [of "[]"]
    by (auto simp: Reconcile_def releaseGates_def releaseGatesWithAffinity_def Let_def quiet_effects
        split: sum.splits if_splits option.splits prod.splits)
qed

lemma Reconcile_pins:
  fixes milli :: "'q \<Rightarrow> int64"
  assumes inv: "sync_inv (rc_Ledger r)" and ok: "answers_ok milli api" and run: "Reconcile milli now api ns name r = (res, r', es)"
  obtains (idle) "call_pins milli api es = []" and "r' = r"
  | (failed) pn profile pod e r1 es1 where "call_pins milli api es = []" and "r' = r1"
      and "api_get_pod api ns name = Inr pod" and "map_of (entries (pod_Labels pod)) LabelProfile = Some pn"
      and "api_get_profile api pn = Inr profile" and "syncLedger milli now api profile pod r = (Some e, r1, es1)"
  | (evaluated) pod pn profile r1 es1 t where "api_get_pod api ns name = Inr pod"
      and "map_of (entries (pod_Labels pod)) LabelProfile = Some pn" and "api_get_profile api pn = Inr profile"
      and "syncLedger milli now api profile pod r = (None, r1, es1)" and "sync_inv (rc_Ledger r1)"
      and "grows (rc_Ledger r1) (rc_Ledger r')" and "same_names (rc_Ledger r1) (rc_Ledger r')"
      and "call_pins milli api es = (if t = '''' then [] else [(t, demand_of milli pod profile)])"
      and "t \<noteq> '''' \<Longrightarrow> PatchPod pod (released_pod t ''capacity'' pod) \<in> set es \<and>
        placed_on (rc_Ledger r1) (rc_Ledger r') (demand_of milli pod profile) (extractConstraints pod) t"
proof (cases "\<exists>pod pn profile. api_get_pod api ns name = Inr pod \<and> hasKompaktGates pod \<and>
    map_of (entries (pod_Labels pod)) LabelProfile = Some pn \<and> api_get_profile api pn = Inr profile")
  case False
  with idle idle_call [OF run] show thesis by blast
next
  case True
  then obtain pod pn profile where pod: "api_get_pod api ns name = Inr pod" "hasKompaktGates pod"
    "map_of (entries (pod_Labels pod)) LabelProfile = Some pn" "api_get_profile api pn = Inr profile"
    by blast
  obtain se r1 es1 where sync: "syncLedger milli now api profile pod r = (se, r1, es1)" by (rule prod_cases3)
  have inv1: "sync_inv (rc_Ledger r1)"
    using syncLedger_inv [OF inv answers_okD(1) [OF ok pod(4)] sync] .
  have d: "amounts_ok (demand_of milli pod profile)" using answers_okD(2) [OF ok pod(4) pod(1)] .
  show thesis
  proof (cases se)
    case (Some e)
    with run pod sync have "call_pins milli api es = []" "r' = r1"
      by (auto simp: Reconcile_def quiet_effects quiet_effects(1) [OF sync])
    with Some failed pod(1,3,4) sync show thesis by blast
  next
    case None
    obtain res2 r2 es2 where dec: "decide milli now api profile pn pod r1 = (res2, r2, es2)" by (rule prod_cases3)
    have es: "call_pins milli api es = call_pins milli api es2" "r' = r2" "set es2 \<subseteq> set es"
      using run pod sync None dec by (auto simp: Reconcile_def quiet_effects quiet_effects(1) [OF sync])
    from dec pod(3,4) show thesis
    proof (cases rule: decide_pins)
      case held
      with es sync None pod inv1 show thesis by (intro evaluated [of pod pn profile r1 es1 "''''"]) (simp_all add: grows_refl same_names_def)
    next
      case (looped t lr es')
      have target: "grows (rc_Ledger r1) (rc_Ledger r2) \<and> (\<forall>t. lr = AllRelease t \<longrightarrow> t = '''' \<or>
          placed_on (rc_Ledger r1) (rc_Ledger r2) (demand_of milli pod profile) (extractConstraints pod) t)"
        using std.eval_rules_target [OF refl _ d looped(1)] inv1 by (simp add: sync_inv_def)
      have names: "same_names (rc_Ledger r1) (rc_Ledger r2)"
        using std.eval_rules_inv [OF refl _ d looped(1)] inv1 by (simp add: sync_inv_def)
      show thesis
        by (rule evaluated [of pod pn profile r1 es1 t]) (use es sync None pod inv1 looped(2,3) target names in auto)
    qed
  qed
qed

lemma sync_Some_lists:
  assumes "syncLedger milli now api profile pod r = (None, r1, es1)"
  obtains items pods where "api_list_nodes api = Inr items" and "api_list_pods api = Inr pods"
  using assms by (auto simp: syncLedger_def Let_def split: sum.splits)

text \<open>What the rebuild knows of a node: the API's node, the running pods and the old reservations.\<close>

lemma synced_entry:
  assumes inv: "sync_inv (rc_Ledger r)" and sync: "syncLedger milli now api profile pod r = (None, r1, es1)"
    and inv1: "sync_inv (rc_Ledger r1)" and lists: "api_list_nodes api = Inr items" "api_list_pods api = Inr pods"
    and wf: "\<forall>p \<in> set pods. \<forall>c \<in> set (Containers p). wf_gmap (Requests c)" and e: "map_of (nodes (rc_Ledger r1)) t = Some e"
  obtains node where "node \<in> set items" and "node_Name node = t" and "synced milli profile node"
    and "nodeMatchesConstraints e = nodeMatchesConstraints (node_entry milli node)"
    and "\<And>k. sint (available e k) = sint (qget (milli_values milli (node_Allocatable node)) k)
        - sint (\<Sum>p\<leftarrow>filter (active_on t) pods. pod_requests milli p k) - reserved_on (rc_Ledger r) t k"
proof -
  note look = sync_nodes_lookup [OF inv lists sync, of t]
  from look e obtain node where find: "List.find (\<lambda>n. node_Name n = t) (rev (filter (synced milli profile) items)) = Some node"
    by (auto simp: map_option_case split: option.splits)
  from find_SomeD [OF this] have node: "node \<in> set items" "node_Name node = t" "synced milli profile node" by auto
  have e': "e = (node_entry milli node)\<lparr>used := copyMap (node_usage milli pods t),
      reserved := (case findEntry (rc_Ledger r) t of None \<Rightarrow> [] | Some m \<Rightarrow> reserved m)\<rparr>"
    using look e find by simp
  have wfm: "wf_gmap (milli_values milli a)" for a
    unfolding milli_values_def by (intro wf_gmap_fold) (auto split: prod.split)
  have wfu: "wf_gmap (node_usage milli pods t)"
    unfolding node_usage_def count_pod_def
    by (intro wf_gmap_fold) (auto simp: count_request_def intro!: wf_gmap_fold split: prod.split)
  have ok: "entry_ok e" using inv1 findEntry_ok [OF _ findEntry_node [OF e]] by (simp add: sync_inv_def)
  have "sint (available e k) = sint (qget (milli_values milli (node_Allocatable node)) k)
        - sint (\<Sum>p\<leftarrow>filter (active_on t) pods. pod_requests milli p k) - reserved_on (rc_Ledger r) t k" for k
    using sint_available [OF ok, of k] wfm wfu qget_node_usage [OF wf, of milli t]
    by (simp add: e' node_entry_def copyMap_def reserved_on_def split: option.split)
  moreover have "nodeMatchesConstraints e = nodeMatchesConstraints (node_entry milli node)"
    by (rule ext) (simp add: e' nodeMatchesConstraints_def split: option.split)
  ultimately show thesis using node that by blast
qed

section \<open>Many calls\<close>

text \<open>
  A call that sees node \<open>n\<close>: the amounts are in range, and if the call gets as far as a rebuild, the lists can be read
  and the node passes the filter for the profile of the pod. Without this the reservations on \<open>n\<close> may be lost.
\<close>

definition sees_node :: "('q \<Rightarrow> int64) \<Rightarrow> string \<Rightarrow> 'q Api \<Rightarrow> string \<Rightarrow> string \<Rightarrow> bool" where
  "sees_node milli n api ns name \<longleftrightarrow> answers_ok milli api \<and>
     (\<forall>pod pn profile. api_get_pod api ns name = Inr pod \<longrightarrow> map_of (entries (pod_Labels pod)) LabelProfile = Some pn \<longrightarrow>
        api_get_profile api pn = Inr profile \<longrightarrow>
        (\<exists>items pods. api_list_nodes api = Inr items \<and> api_list_pods api = Inr pods \<and>
           (\<exists>node \<in> set items. node_Name node = n \<and> synced milli profile node)))"

text \<open>Calls one after the other, for any pods at any times, with the pins they have made so far.\<close>

inductive calls :: "('q \<Rightarrow> int64) \<Rightarrow> string \<Rightarrow> Reconciler \<Rightarrow> (string \<times> resources) list \<Rightarrow> Reconciler \<Rightarrow> bool"
  for milli :: "'q \<Rightarrow> int64" and n :: string and r0 :: Reconciler where
  none: "calls milli n r0 [] r0"
| call: "calls milli n r0 ps r \<Longrightarrow> sees_node milli n api ns name \<Longrightarrow> Reconcile milli now api ns name r = (res, r', es) \<Longrightarrow>
    calls milli n r0 (ps @ call_pins milli api es) r'"

inductive_cases callsE: "calls milli n r0 ps r"

lemma answers_ok_inv:
  assumes "sync_inv (rc_Ledger r)" and "answers_ok milli api" and "Reconcile milli now api ns name r = (res, r', es)"
  shows "sync_inv (rc_Ledger r')"
  using Reconcile_inv [OF assms(1) _ _ assms(3)] assms(2) by (simp add: answers_ok_def)

lemma seen_node_keeps_reservation:
  assumes "sync_inv (rc_Ledger r)" and "sees_node milli n api ns name" and "syncLedger milli now api profile pod r = (e, r1, es1)"
    and "api_get_pod api ns name = Inr pod" "map_of (entries (pod_Labels pod)) LabelProfile = Some pn" "api_get_profile api pn = Inr profile"
  shows "e = None" and "findEntry (rc_Ledger r1) n \<noteq> None" and "reserved_on (rc_Ledger r1) n k = reserved_on (rc_Ledger r) n k"
proof -
  obtain items pods node where lists: "api_list_nodes api = Inr items" "api_list_pods api = Inr pods"
    and node: "node \<in> set items" "node_Name node = n" "synced milli profile node"
    using assms(2,4-6) unfolding sees_node_def by blast
  show "e = None"
    using sync_success [OF lists, of milli now r profile pod] assms(3) by auto
  have "List.find (\<lambda>m. node_Name m = n) (rev (filter (synced milli profile) items)) \<noteq> None"
    using node by (auto simp: find_None_iff)
  then obtain m where "map_of (nodes (rc_Ledger r1)) n = Some ((node_entry milli m)\<lparr>used := copyMap (node_usage milli pods n),
      reserved := (case findEntry (rc_Ledger r) n of None \<Rightarrow> [] | Some m \<Rightarrow> reserved m)\<rparr>)"
    using sync_nodes_lookup [OF assms(1) lists assms(3), of n] by auto
  then show "findEntry (rc_Ledger r1) n \<noteq> None" "reserved_on (rc_Ledger r1) n k = reserved_on (rc_Ledger r) n k"
    by (auto simp: findEntry_def reserved_on_def split: option.splits)
qed

lemma booked_append: "booked (ps @ qs) n k = booked ps n k + booked qs n k"
  by (simp add: booked_def)

lemma call_account:
  assumes "sync_inv (rc_Ledger r)" and "sees_node milli n api ns name" and "Reconcile milli now api ns name r = (res, r', es)"
  shows "booked (call_pins milli api es) n k + reserved_on (rc_Ledger r) n k \<le> reserved_on (rc_Ledger r') n k"
proof -
  have ok: "answers_ok milli api" using assms(2) by (simp add: sees_node_def)
  from assms(1) ok assms(3) show ?thesis
  proof (cases rule: Reconcile_pins)
    case idle
    then show ?thesis by (simp add: booked_def)
  next
    case (failed pn profile pod e r1 es1)
    with seen_node_keeps_reservation(1) [OF assms(1,2)] show ?thesis by blast
  next
    case (evaluated pod pn profile r1 es1 t)
    note seen = seen_node_keeps_reservation [OF assms(1,2) evaluated(4,1-3)]
    have mono: "reserved_on (rc_Ledger r1) n k \<le> reserved_on (rc_Ledger r') n k"
      using grows_reserved_on [OF evaluated(6) seen(2)] .
    show ?thesis
    proof (cases "t = n \<and> t \<noteq> ''''")
      case True
      then show ?thesis using evaluated(8,9) seen(3) by (auto simp: booked_def placed_on_def algebra_simps)
    next
      case False
      then show ?thesis using evaluated(8) mono seen(3) by (auto simp: booked_def)
    qed
  qed
qed

lemma calls_account:
  assumes "calls milli n r0 ps r" and "sync_inv (rc_Ledger r0)"
  shows "sync_inv (rc_Ledger r) \<and> (\<forall>k. booked ps n k + reserved_on (rc_Ledger r0) n k \<le> reserved_on (rc_Ledger r) n k)"
  using assms
proof (induction rule: calls.induct)
  case none
  then show ?case by (simp add: booked_def)
next
  case (call ps r api now ns name res r' es)
  then have inv: "sync_inv (rc_Ledger r)" and ok: "answers_ok milli api" by (simp_all add: sees_node_def)
  have "booked (ps @ call_pins milli api es) n k + reserved_on (rc_Ledger r0) n k \<le> reserved_on (rc_Ledger r') n k" for k
    using call_account [OF inv call.hyps(2,3), of k] call.IH [OF call.prems, THEN conjunct2, rule_format, of k]
    by (simp add: booked_append)
  then show ?case using answers_ok_inv [OF inv ok call.hyps(3)] by blast
qed

end
