(* ===== verification/PlacementProps.thy ===== *)
theory PlacementProps
  imports Placement
begin

text \<open>
  The properties of placements across calls: a pod is only pinned where it fits beside everything pinned before, what makes the
  controller forget a node's reservations, and how chained rules get in each other's way.
\<close>

section \<open>A sample run\<close>

text \<open>A node of 4000 millicores and two pods that want 3000 and 1000.\<close>

definition pack_profile :: PackingProfile where
  "pack_profile = sample_profile [''WaitForWorkloadPacking'']"

definition pack_pod :: "int64 \<Rightarrow> int64 Pod" where
  "pack_pod q = sample_pod [(''cpu'', q)]"

definition pack_api :: "int64 \<Rightarrow> int64 Api" where
  "pack_api q = sample_api pack_profile (pack_pod q) [sample_node ''node-1'' [(''cpu'', 4000)] 1 []] []"

definition booked_reconciler :: "resources \<Rightarrow> Reconciler" where
  "booked_reconciler rs =
     \<lparr>rc_Ledger = \<lparr>nodes = [(''node-1'', \<lparr>allocatable = [(''cpu'', 4000)], used = [], reserved = rs, ne_labels = None, ne_taints = []\<rparr>)],
        inflight = []\<rparr>, Detectors = [], activeDetectors = []\<rparr>"

lemma pack_capacity: "milli_values id [(''cpu'', 4000)] = [(''cpu'', 4000)]"
  by (simp add: milli_values_def mput_def)

lemmas sync_eval = syncLedger_def Let_def pack_api_def sample_api_def fresh_reconciler_def booked_reconciler_def New_def
  ClearNodes_def ClearInflightByPrefix_def SnapshotReservations_def snapshot_loop_def sync_node_def sample_node_def pack_capacity
  pack_profile_def sample_profile_def AddNode_def pod_usage_def apply_usage_def RestoreReservations_def restore_one_def copyMap_def
  copyStringMap_def mput_def copy_into_def withEntry_def findEntry_def madj_def

lemma pack_sync:
  "\<exists>es. syncLedger id t (pack_api q) pack_profile pod (fresh_reconciler []) = (None, booked_reconciler [], es)"
  "\<exists>es. syncLedger id t (pack_api q) pack_profile pod (booked_reconciler [(''cpu'', a)]) = (None, booked_reconciler [(''cpu'', a)], es)"
  by (simp_all add: sync_eval)

definition pack_step :: "int64 \<Rightarrow> resources \<Rightarrow> resources \<Rightarrow> bool" where
  "pack_step q rs rs' \<longleftrightarrow> (q, rs, rs') \<in> {(3000, [], [(''cpu'', 3000)]), (1000, [(''cpu'', 3000)], [(''cpu'', 4000)])}"

lemma pack_decide:
  assumes "pack_step q rs rs'"
  shows "\<exists>es. decide id 5 (pack_api q) pack_profile ''gpu'' (pack_pod q) (booked_reconciler rs) =
      ((done_result, None), booked_reconciler rs', es @ [PatchPod (pack_pod q) (released_pod ''node-1'' ''capacity'' (pack_pod q))]) \<and>
    call_pins id api es = []"
proof -
  have go: "\<not> isTimedOut 5 (pack_pod q) pack_profile" "sget (pod_Annotations (pack_pod q)) AnnotationPriority \<noteq> ''high''"
    by (simp_all add: isTimedOut_def pack_pod_def pack_profile_def sample_profile_def ParseDuration_3m sample_pod_def IsZero_def
        Since_def sint_Sub)
  have "WaitForWorkloadPacking_Evaluate id (pack_pod q) (rc_Ledger (booked_reconciler rs)) pack_profile
      = (\<lparr>release = True, nodeName = ''node-1'', err = None\<rparr>, rc_Ledger (booked_reconciler rs'))"
    using assms unfolding WaitForWorkloadPacking_Evaluate_def sample_demand sample_constraints pack_profile_def pack_pod_def pack_step_def
    by (auto simp: FindFitExisting_def check_existing_def MaxInt64_def ledger_eval booked_reconciler_def)
  then obtain es where loop: "eval_rules (Registry id) (pack_pod q) pack_profile ''gpu'' (sp_Rules (pp_Spec pack_profile)) ''''
      (rc_Ledger (booked_reconciler rs)) = (AllRelease ''node-1'', rc_Ledger (booked_reconciler rs'), es :: int64 effect list)"
    by (simp add: pack_profile_def [THEN arg_cong [of _ _ "\<lambda>p. sp_Rules (pp_Spec p)"]] sample_profile_def Registry_lookup
        WaitForWorkloadPacking_def)
  have "api_patch_pod (pack_api q) a b = None" "booked_reconciler rs\<lparr>rc_Ledger := rc_Ledger (booked_reconciler rs')\<rparr> = booked_reconciler rs'" for a b
    by (simp_all add: pack_api_def sample_api_def booked_reconciler_def)
  with go loop show ?thesis
    by (intro exI [of _ "es @ recordRelease 5 (pack_pod q) ''gpu'' ''capacity'' ''node-1''"])
      (simp add: decide_def releaseGatesWithAffinity_def Let_def quiet_effects quiet_effects(2) [OF loop])
qed

lemma pack_call:
  assumes "pack_step q rs rs'" and "syncLedger id 5 (pack_api q) pack_profile (pack_pod q) r = (None, booked_reconciler rs, es1)"
  obtains es where "Reconcile id 5 (pack_api q) ''default'' ''web-0'' r = ((done_result, None), booked_reconciler rs', es)"
    and "call_pins id (pack_api q) es = [(''node-1'', [(''cpu'', q)])]"
    and "PatchPod (pack_pod q) (released_pod ''node-1'' ''capacity'' (pack_pod q)) \<in> set es"
proof -
  let ?patch = "PatchPod (pack_pod q) (released_pod ''node-1'' ''capacity'' (pack_pod q))"
  have api: "api_get_pod (pack_api q) ''default'' ''web-0'' = Inr (pack_pod q)" "api_get_profile (pack_api q) pn = Inr pack_profile"
    and pod: "hasKompaktGates (pack_pod q)" "map_of (entries (pod_Labels (pack_pod q))) LabelProfile = Some ''gpu''" for pn
    by (simp_all add: pack_api_def sample_api_def pack_pod_def hasKompaktGates_iff sample_pod_def GatePrefix_def HasPrefix_def)
  obtain es where dec: "decide id 5 (pack_api q) pack_profile ''gpu'' (pack_pod q) (booked_reconciler rs) =
      ((done_result, None), booked_reconciler rs', es @ [?patch])" "call_pins id (pack_api q) es = []"
    using pack_decide [OF assms(1)] by blast
  have "call_pins id (pack_api q) [?patch] = [(''node-1'', [(''cpu'', q)])]"
    by (simp add: call_pins_def List.map_filter_simps effect_pin_def pin_of_released pod api)
      (simp add: pack_pod_def pack_profile_def sample_demand)
  then have "call_pins id (pack_api q) (es1 @ (es @ [?patch]) @ snd (updateProfileStatus 5 (pack_api q) (booked_reconciler rs')
      (setLedgerReadyCondition 5 None pack_profile))) = [(''node-1'', [(''cpu'', q)])]"
    by (simp only: call_pins_append quiet_effects quiet_effects(1) [OF assms(2)] dec(2) append_Nil append_Nil2)
  with assms(2) api pod dec(1) show thesis
    by (intro that [of "es1 @ (es @ [?patch]) @ snd (updateProfileStatus 5 (pack_api q) (booked_reconciler rs')
        (setLedgerReadyCondition 5 None pack_profile))"]) (simp_all add: Reconcile_def)
qed

lemma pack_answers: "amount_ok q \<Longrightarrow> sees_node id ''node-1'' (pack_api q) ns name"
proof -
  assume q: "amount_ok q"
  have "inputs_ok id (pack_api q) pack_profile"
    by (simp add: inputs_ok_def pack_api_def sample_api_def node_ok_def sample_node_def amount_ok_def pod_usage_def the_reader_def
        reader_ok_def quiet_reader_def pack_profile_def sample_profile_def)
  moreover have "amounts_ok (demand_of id (pack_pod q) pack_profile)"
    using q by (simp add: pack_pod_def pack_profile_def sample_demand amounts_ok_def wf_gmap_def)
  moreover have "synced id pack_profile (sample_node ''node-1'' [(''cpu'', 4000)] 1 [])"
    by (simp add: synced_def pack_profile_def sample_profile_def sample_node_def)
  moreover have "node_Name (sample_node ''node-1'' [(''cpu'', 4000)] 1 []) = ''node-1''" by (simp add: sample_node_def)
  ultimately show ?thesis by (simp add: sees_node_def answers_ok_def pack_api_def sample_api_def)
qed

section \<open>Properties\<close>

text \<open>The call that pins a pod has rebuilt the ledger for the pod's profile and found the pod eligible there.\<close>

lemma pinned_call:
  fixes milli :: "'q \<Rightarrow> int64"
  assumes inv: "sync_inv (rc_Ledger r)" and ok: "answers_ok milli api" and run: "Reconcile milli now api ns name r = (res, r', es)"
    and patch: "PatchPod p p' \<in> set es" and pin: "pin_of p p' = Some n"
  obtains pn profile r1 es1 e where "map_of (entries (pod_Labels p)) LabelProfile = Some pn" and "api_get_profile api pn = Inr profile"
    and "syncLedger milli now api profile p r = (None, r1, es1)" and "sync_inv (rc_Ledger r1)"
    and "map_of (nodes (rc_Ledger r1)) n = Some e" and "eligible e (demand_of milli p profile) (extractConstraints p)"
proof -
  have n: "n \<noteq> ''''" using pin by (auto simp: pin_of_def Let_def split: if_splits)
  have pod: "api_get_pod api ns name = Inr p"
    using run patch by (cases rule: Reconcile_patch_cases) simp_all
  have "\<exists>pn profile. map_of (entries (pod_Labels p)) LabelProfile = Some pn \<and> api_get_profile api pn = Inr profile"
    using run patch
  proof (cases rule: Reconcile_patch_cases)
    case (gone pn e)
    with pin_of_unpinned [of p' p] pin show ?thesis by (simp add: released_affinity)
  qed blast
  then have "call_pins milli api es \<noteq> []"
    using patch pin by (auto simp: call_pins_def List.map_filter_def filter_empty_conv effect_pin_def intro!: bexI [OF _ patch])
  with inv ok run show thesis
  proof (cases rule: Reconcile_pins)
    case (evaluated pod pn profile r1 es1 t)
    have same: "pod = p" using evaluated(1) pod by simp
    have "(n, demand_of milli p profile) \<in> set (call_pins milli api es)"
      using patch pin evaluated(2,3) unfolding same
      by (auto simp: call_pins_def List.map_filter_def effect_pin_def intro!: image_eqI [of _ _ "PatchPod p p'"])
    then have "t = n" using evaluated(8) by (auto split: if_splits)
    then obtain e where "map_of (nodes (rc_Ledger r1)) n = Some e" "eligible e (demand_of milli p profile) (extractConstraints p)"
      using evaluated(9) n same by (auto simp: placed_on_def)
    with that evaluated(2-5) same show thesis by blast
  qed simp_all
qed

text \<open>
  C1: a pod is only pinned where it fits, over any number of calls. Take, from any well-formed ledger, a sequence of calls of
  \<open>Reconcile\<close> for any pods that all see the node \<open>n\<close>: the amounts they are told are in range, their lists succeed, and the
  profile of their pod does not filter \<open>n\<close> out. Then take a call that pins a pod to \<open>n\<close>. Then \<open>n\<close> is the name of a listed node that is not being
  deleted and whose taints and labels the pod accepts; and for every resource the pod demands,
  its demand, the demands of all pods pinned to \<open>n\<close> during the sequence, the reservations there at its start and the requests of the pods that run on \<open>n\<close> now
  together do not exceed what the node has.
\<close>

theorem pins_fit_across_calls:
  fixes milli :: "'q \<Rightarrow> int64"
  assumes "sync_inv (rc_Ledger r0)" and "calls milli n r0 ps r" and "answers_ok milli api"
    and "\<forall>pods. api_list_pods api = Inr pods \<longrightarrow> (\<forall>p \<in> set pods. \<forall>c \<in> set (Containers p). wf_gmap (Requests c))"
    and "Reconcile milli now api ns name r = (res, r', es)" and "PatchPod p p' \<in> set es" and "pin_of p p' = Some n"
  shows "\<exists>pn profile items pods node. map_of (entries (pod_Labels p)) LabelProfile = Some pn \<and> api_get_profile api pn = Inr profile \<and>
    api_list_nodes api = Inr items \<and> api_list_pods api = Inr pods \<and> node \<in> set items \<and> node_Name node = n \<and>
    node_DeletionTimestamp node = None \<and> nodeMatchesConstraints (node_entry milli node) (extractConstraints p) \<and>
    (\<forall>(k, q) \<in> set (demand_of milli p profile).
       booked ps n k + reserved_on (rc_Ledger r0) n k + sint q + sint (\<Sum>p\<leftarrow>filter (active_on n) pods. pod_requests milli p k)
         \<le> sint (qget (milli_values milli (node_Allocatable node)) k))"
proof -
  note run = calls_account [OF assms(2,1)]
  then have inv: "sync_inv (rc_Ledger r)" by simp
  obtain pn profile r1 es1 e where profile: "map_of (entries (pod_Labels p)) LabelProfile = Some pn" "api_get_profile api pn = Inr profile"
    and sync: "syncLedger milli now api profile p r = (None, r1, es1)" "sync_inv (rc_Ledger r1)"
    and e: "map_of (nodes (rc_Ledger r1)) n = Some e" "eligible e (demand_of milli p profile) (extractConstraints p)"
    using inv assms(3,5-7) by (rule pinned_call)
  obtain items pods where lists: "api_list_nodes api = Inr items" "api_list_pods api = Inr pods"
    using sync(1) by (rule sync_Some_lists)
  obtain node where node: "node \<in> set items" "node_Name node = n" "synced milli profile node"
    "nodeMatchesConstraints e = nodeMatchesConstraints (node_entry milli node)"
    "\<And>k. sint (available e k) = sint (qget (milli_values milli (node_Allocatable node)) k)
      - sint (\<Sum>p\<leftarrow>filter (active_on n) pods. pod_requests milli p k) - reserved_on (rc_Ledger r) n k"
    using synced_entry [OF inv sync lists _ e(1)] assms(4) lists(2) by blast
  have "booked ps n k + reserved_on (rc_Ledger r0) n k + sint q + sint (\<Sum>p\<leftarrow>filter (active_on n) pods. pod_requests milli p k)
       \<le> sint (qget (milli_values milli (node_Allocatable node)) k)" if "(k, q) \<in> set (demand_of milli p profile)" for k q
    using e(2) demand_fitsD [OF _ that] node(5) [of k] run [THEN conjunct2, rule_format, of k] by (fastforce simp: eligible_def)
  moreover have "nodeMatchesConstraints (node_entry milli node) (extractConstraints p)"
    using e(2) node(4) by (simp add: eligible_def)
  moreover have "node_DeletionTimestamp node = None" using node(3) by (simp add: synced_def)
  ultimately show ?thesis using profile lists node(1,2) by blast
qed

theorem pins_fit_across_calls_witness:
  "\<exists>r (node :: int64 Node). calls id ''node-1'' (fresh_reconciler []) [(''node-1'', [(''cpu'', 3000)])] r \<and>
     node_Name node = ''node-1'' \<and> 3000 + sint (1000 :: int64) \<le> sint (qget (milli_values id (node_Allocatable node)) ''cpu'')"
proof -
  have steps: "pack_step 3000 [] [(''cpu'', 3000)]" "pack_step 1000 [(''cpu'', 3000)] [(''cpu'', 4000)]" by (simp_all add: pack_step_def)
  obtain es1 es2 where sync: "syncLedger id 5 (pack_api 3000) pack_profile (pack_pod 3000) (fresh_reconciler []) = (None, booked_reconciler [], es1)"
    "syncLedger id 5 (pack_api 1000) pack_profile (pack_pod 1000) (booked_reconciler [(''cpu'', 3000)]) = (None, booked_reconciler [(''cpu'', 3000)], es2)"
    using pack_sync by metis
  obtain es where one: "Reconcile id 5 (pack_api 3000) ''default'' ''web-0'' (fresh_reconciler []) =
      ((done_result, None), booked_reconciler [(''cpu'', 3000)], es)" "call_pins id (pack_api 3000) es = [(''node-1'', [(''cpu'', 3000)])]"
    using pack_call [OF steps(1) sync(1)] .
  have sees: "sees_node id ''node-1'' (pack_api 3000) ''default'' ''web-0''" "sees_node id ''node-1'' (pack_api 1000) ''default'' ''web-0''"
    by (simp_all add: pack_answers amount_ok_def)
  have run: "calls id ''node-1'' (fresh_reconciler []) [(''node-1'', [(''cpu'', 3000)])] (booked_reconciler [(''cpu'', 3000)])"
    using calls.call [OF calls.none sees(1) one(1)] by (simp add: one(2))
  obtain es' where two: "Reconcile id 5 (pack_api 1000) ''default'' ''web-0'' (booked_reconciler [(''cpu'', 3000)]) =
      ((done_result, None), booked_reconciler [(''cpu'', 4000)], es')"
    "PatchPod (pack_pod 1000) (released_pod ''node-1'' ''capacity'' (pack_pod 1000)) \<in> set es'"
    using pack_call [OF steps(2) sync(2)] .
  have ok: "sync_inv (rc_Ledger (fresh_reconciler []))" "answers_ok id (pack_api 1000)"
    using sees(2) by (simp_all add: fresh_reconciler_def sync_inv_New sees_node_def)
  have wf: "\<forall>pods. api_list_pods (pack_api 1000) = Inr pods \<longrightarrow> (\<forall>p \<in> set pods. \<forall>c \<in> set (Containers p). wf_gmap (Requests c))"
    by (simp add: pack_api_def sample_api_def)
  have pin: "pin_of (pack_pod 1000) (released_pod ''node-1'' ''capacity'' (pack_pod 1000)) = Some ''node-1''"
    by (simp add: pin_of_released)
  obtain pn profile pods and node :: "int64 Node" where
    "api_get_profile (pack_api 1000) pn = Inr profile" "api_list_pods (pack_api 1000) = Inr pods" "node_Name node = ''node-1''"
    and fits: "\<forall>(k, q) \<in> set (demand_of id (pack_pod 1000) profile).
       booked [(''node-1'', [(''cpu'', 3000)])] ''node-1'' k + reserved_on (rc_Ledger (fresh_reconciler [])) ''node-1'' k + sint q +
         sint (\<Sum>p\<leftarrow>filter (active_on ''node-1'') pods. pod_requests id p k) \<le> sint (qget (milli_values id (node_Allocatable node)) k)"
    using pins_fit_across_calls [OF ok(1) run ok(2) wf two pin] by (elim exE conjE) (rule that, assumption+)
  then have "profile = pack_profile" "pods = []" "node_Name node = ''node-1''" by (simp_all add: pack_api_def sample_api_def)
  with fits have "3000 + sint (1000 :: int64) \<le> sint (qget (milli_values id (node_Allocatable node)) ''cpu'')"
    by (simp add: pack_pod_def pack_profile_def sample_demand booked_def mget_Cons reserved_on_def fresh_reconciler_def New_def findEntry_def)
  with run \<open>node_Name node = ''node-1''\<close> show ?thesis by blast
qed




section \<open>Chained rules\<close>

lemma Reserve_nodes:
  "Reserve l t d = Inr l' \<Longrightarrow> map_of (nodes l) t = Some e \<Longrightarrow>
     nodes l' = madj t (\<lambda>n. n\<lparr>reserved := add_reserved d (reserved n)\<rparr>) (nodes l) \<and> inflight l' = inflight l"
  "Reserve l t d = Inr l' \<Longrightarrow> map_of (nodes l) t = None \<Longrightarrow> nodes l' = nodes l"
  by (auto simp: Reserve_Inr_iff withEntry_def)

text \<open>On a ledger with one existing node the packing rule takes it if it is eligible and holds the pod if it is not.\<close>

lemma packing_on_lone_node:
  assumes "ledger_ok l" and "amounts_ok (demand_of milli pod p)" and "length (demand_of milli pod p) \<le> 3"
    and "nodes l = [(n, e)]" and "demand_of milli pod p \<noteq> []"
  shows "eligible e (demand_of milli pod p) (extractConstraints pod) \<Longrightarrow>
      \<exists>l'. Reserve l n (demand_of milli pod p) = Inr l' \<and>
        WaitForWorkloadPacking_Evaluate milli pod l p = (\<lparr>release = True, nodeName = n, err = None\<rparr>, l')"
    and "\<not> eligible e (demand_of milli pod p) (extractConstraints pod) \<Longrightarrow>
      WaitForWorkloadPacking_Evaluate milli pod l p = (\<lparr>release = False, nodeName = '''', err = None\<rparr>, l)"
proof -
  show "\<exists>l'. Reserve l n (demand_of milli pod p) = Inr l' \<and>
      WaitForWorkloadPacking_Evaluate milli pod l p = (\<lparr>release = True, nodeName = n, err = None\<rparr>, l')"
    if "eligible e (demand_of milli pod p) (extractConstraints pod)"
    using assms(1)
  proof (cases rule: WaitForWorkloadPacking_cases [where milli = milli and pod = pod and p = p])
    case (hold x)
    with no_existing_fit [OF assms(1-3) hold(2)] assms(4) that show ?thesis by auto
  qed (use assms(4,5) in auto)
  show "WaitForWorkloadPacking_Evaluate milli pod l p = (\<lparr>release = False, nodeName = '''', err = None\<rparr>, l)"
    if "\<not> eligible e (demand_of milli pod p) (extractConstraints pod)"
    using assms(1)
    by (cases rule: WaitForWorkloadPacking_cases [where milli = milli and pod = pod and p = p]) (use assms(4,5) that in auto)
qed

text \<open>If no existing node is eligible but an in-flight one is, the second rule holds the pod and leaves the existing nodes alone.\<close>

lemma node_ready_waits:
  assumes ok: "ledger_ok l" "amounts_ok (demand_of milli pod p)" "length (demand_of milli pod p) \<le> 3" and dne: "demand_of milli pod p \<noteq> []"
    and full: "\<And>n e. (n, e) \<in> set (nodes l) \<Longrightarrow> \<not> eligible e (demand_of milli pod p) (extractConstraints pod)"
    and coming: "(m, f) \<in> set (inflight l)" "eligible f (demand_of milli pod p) (extractConstraints pod)"
  obtains l' where "WaitForNodeReady_Evaluate milli pod l p = (\<lparr>release = False, nodeName = '''', err = None\<rparr>, l')"
    and "ledger_ok l'" and "nodes l' = nodes l"
  using ok(1)
proof (cases rule: WaitForNodeReady_cases [where milli = milli and pod = pod and p = p])
  case (nofit x)
  with no_fit [OF ok nofit(2), of m f True] coming show thesis by (auto simp: entries_of_def)
next
  case (fit node infl l' n')
  have infl: infl using fit(3,4) full by (auto simp: entries_of_def split: if_splits)
  have "map_of (nodes l) node = None"
    using fit(3) infl ok(1) by (auto simp: entries_of_def ledger_ok_iff nodes_ok_iff wf_gmap_lookup)
  with Reserve_nodes(2) [OF fit(6)] have "nodes l' = nodes l" by simp
  with fit(7) infl Reserve_ok [OF ok(1,2) fit(6)] show thesis by (intro that [of l']) simp_all
qed (use dne in simp)

text \<open>
  C39: chained rules get in each other's way. Take a profile with \<^verbatim>\<open>WaitForWorkloadPacking\<close> followed by \<^verbatim>\<open>WaitForNodeReady\<close>, one existing
  node that has room for the pod once but not twice, and an in-flight node that could take it. The first rule
  reserves the existing node for the pod and the second then finds only the in-flight node and holds the pod. At the next
  evaluation the reservation of the first fills the node, and the pod is held by the first rule, although the node still
  has room for it.
\<close>

theorem chained_rules_block_each_other:
  fixes milli :: "'q \<Rightarrow> int64"
  assumes "ledger_ok l" and "amounts_ok (demand_of milli pod p)" and "length (demand_of milli pod p) \<le> 3" and "nodes l = [(n, e)]" and "eligible e (demand_of milli pod p) (extractConstraints pod)"
    and "(k, q) \<in> set (demand_of milli pod p)" and "sint (available e k) < 2 * sint q"
    and "(m, f) \<in> set (inflight l)" and "eligible f (demand_of milli pod p) (extractConstraints pod)"
  shows "\<exists>l' es es'.
    eval_rules (Registry milli) pod p pn [\<lparr>rule_Name = ''WaitForWorkloadPacking''\<rparr>, \<lparr>rule_Name = ''WaitForNodeReady''\<rparr>] '''' l
      = (HeldBy ''WaitForNodeReady'', l', es) \<and>
    eval_rules (Registry milli) pod p pn [\<lparr>rule_Name = ''WaitForWorkloadPacking''\<rparr>, \<lparr>rule_Name = ''WaitForNodeReady''\<rparr>] '''' l'
      = (HeldBy ''WaitForWorkloadPacking'', l', es') \<and>
    reserved_on l' n k = reserved_on l n k + sint q"
proof -
  note ok = assms(2,3)
  have dne: "demand_of milli pod p \<noteq> []" using assms(6) by auto
  have "wf_gmap (demand_of milli pod p)" using ok(1) by (simp add: amounts_ok_def)
  then have q: "qget (demand_of milli pod p) k = q" using assms(6) by (simp add: mget_def wf_gmap_lookup)
  let ?e = "e\<lparr>reserved := add_reserved (demand_of milli pod p) (reserved e)\<rparr>"
  obtain l1 where res1: "Reserve l n (demand_of milli pod p) = Inr l1"
    and ev1: "WaitForWorkloadPacking_Evaluate milli pod l p = (\<lparr>release = True, nodeName = n, err = None\<rparr>, l1)"
    using packing_on_lone_node(1) [OF assms(1) ok assms(4) dne assms(5)] by blast
  have ok1: "ledger_ok l1" by (rule Reserve_ok [OF assms(1) ok(1) res1])
  have l1: "nodes l1 = [(n, ?e)]" "inflight l1 = inflight l"
    using Reserve_nodes(1) [OF res1] assms(4) by (simp_all add: madj_def)
  have "sint (available ?e k) = sint (available e k) - sint q"
    using Reserve_room [OF assms(1) ok(1) res1, of n k] l1 assms(4) q by (simp add: room_def findEntry_def)
  then have full: "\<not> eligible ?e (demand_of milli pod p) (extractConstraints pod)"
    using assms(7) demand_fitsD [OF _ assms(6), of ?e] by (auto simp: eligible_def)
  obtain l2 where ev2: "WaitForNodeReady_Evaluate milli pod l1 p = (\<lparr>release = False, nodeName = '''', err = None\<rparr>, l2)"
    and l2: "ledger_ok l2" "nodes l2 = nodes l1"
    by (rule node_ready_waits [OF ok1 ok dne _ assms(8) [folded l1(2)] assms(9)]) (use l1(1) full in auto)
  have ev3: "WaitForWorkloadPacking_Evaluate milli pod l2 p = (\<lparr>release = False, nodeName = '''', err = None\<rparr>, l2)"
    using packing_on_lone_node(2) [OF l2(1) ok _ dne full] l1(1) l2(2) by simp
  have n: "n \<noteq> ''''" using assms(1,4) by (auto simp: ledger_ok_iff nodes_ok_iff)
  have "reserved_on l2 n k = reserved_on l1 n k" using l2(2) l1(1) by (simp add: reserved_on_def findEntry_def)
  then have "reserved_on l2 n k = reserved_on l n k + sint q"
    using Reserve_grows(2) [OF assms(1) ok(1) res1, of k] q by simp
  with ev1 ev2 ev3 n show ?thesis
    by (simp add: Registry_lookup WaitForWorkloadPacking_def WaitForNodeReady_def)
qed

theorem chained_rules_block_each_other_witness:
  "let l = AddInflightNode (AddNode New ''node-1'' [(''cpu'', 2000)] None []) ''gpu/new'' [(''cpu'', 4000)] None [];
       rules = [\<lparr>rule_Name = ''WaitForWorkloadPacking''\<rparr>, \<lparr>rule_Name = ''WaitForNodeReady''\<rparr>];
       pod = sample_pod [(''cpu'', 1500)]; p = sample_profile [''WaitForWorkloadPacking'', ''WaitForNodeReady'']
   in \<exists>l' es es'. eval_rules (Registry id) pod p ''gpu'' rules '''' l = (HeldBy ''WaitForNodeReady'', l', es) \<and>
        eval_rules (Registry id) pod p ''gpu'' rules '''' l' = (HeldBy ''WaitForWorkloadPacking'', l', es') \<and>
        reserved_on l' ''node-1'' ''cpu'' = 1500"
proof -
  let ?l = "AddInflightNode (AddNode New ''node-1'' [(''cpu'', 2000)] None []) ''gpu/new'' [(''cpu'', 4000)] None []"
  let ?pod = "sample_pod [(''cpu'', 1500)]" and ?p = "sample_profile [''WaitForWorkloadPacking'', ''WaitForNodeReady'']"
  let ?n = "\<lambda>a. \<lparr>allocatable = [(''cpu'', a)], used = [], reserved = [], ne_labels = None, ne_taints = []\<rparr>"
  have h: "ledger_ok ?l" "amounts_ok (demand_of id ?pod ?p)" "length (demand_of id ?pod ?p) \<le> 3" "nodes ?l = [(''node-1'', ?n 2000)]"
    "eligible (?n 2000) (demand_of id ?pod ?p) (extractConstraints ?pod)" "(''cpu'', 1500) \<in> set (demand_of id ?pod ?p)"
    "sint (available (?n 2000) ''cpu'') < 2 * sint (1500 :: int64)" "(''gpu/new'', ?n 4000) \<in> set (inflight ?l)"
    "eligible (?n 4000) (demand_of id ?pod ?p) (extractConstraints ?pod)"
    by (simp_all add: ledger_eval sample_demand sample_constraints)
  have "reserved_on ?l ''node-1'' ''cpu'' = 0" by (simp add: reserved_on_def ledger_eval)
  with chained_rules_block_each_other [OF h, of "''gpu''"] show ?thesis by (simp add: Let_def)
qed

end
