(* ===== verification/Webhook.thy ===== *)
theory Webhook
  imports Reconciler
begin

text \<open>
  Admission: the profile resolver (\<^verbatim>\<open>src/internal/matcher/matcher.go\<close>) and the mutating webhook
  that injects the gates (\<^verbatim>\<open>src/internal/webhook/mutating.go\<close>). The API reader, the JSON codec of
  a pod and the uuid generator are code of other packages and therefore arguments. A pod may carry
  more fields than the record names: they are the record extension \<open>'m\<close>, about which the handler
  knows nothing. The responses of the admission package are the constructors of \<open>response\<close>;
  messages formatted with \<^verbatim>\<open>%q\<close> and wrapped errors are kept as the data they are made of.
\<close>

section \<open>Model\<close>

record ProfileResolver =
  reader :: "string \<Rightarrow> api_error + PackingProfile"

definition NewProfileResolver :: "(string \<Rightarrow> api_error + PackingProfile) \<Rightarrow> ProfileResolver" where
  "NewProfileResolver rd = \<lparr>reader = rd\<rparr>"

text \<open>\<^verbatim>\<open>resolve profile %q: %w\<close>\<close>

datatype resolve_error = ResolveProfile string api_error

definition Resolve :: "ProfileResolver \<Rightarrow> string \<Rightarrow> resolve_error + PackingProfile" where
  "Resolve r name =
     (case reader r name of
        Inl e \<Rightarrow> Inl (ResolveProfile name e)
      | Inr profile \<Rightarrow> Inr profile)"

definition gateNames :: "(string, string) gmap" where
  "gateNames =
     [(''WaitForWorkloadPacking'', ''kompakt.io/wait-for-workload-packing''),
      (''WaitForNodeReady'', ''kompakt.io/wait-for-node-ready''),
      (''WaitForImagePrePull'', ''kompakt.io/awaiting-image-prepull''),
      (''WaitForMIGProfile'', ''kompakt.io/awaiting-mig-reconfig''),
      (''WaitForCoLocation'', ''kompakt.io/awaiting-colocation'')]"

record PodGateInjector =
  resolver :: ProfileResolver

definition NewPodGateInjector :: "ProfileResolver \<Rightarrow> PodGateInjector" where
  "NewPodGateInjector r = \<lparr>resolver = r\<rparr>"

datatype handler_error = DecodePod string | MarshalPod string

text \<open>\<open>Denied\<close> carries the name in the message \<^verbatim>\<open>PackingProfile %q not found\<close>. \<open>Panicked\<close> is the slice
  expression \<^verbatim>\<open>[:8]\<close> on a string that is too short.\<close>

datatype 'raw response =
    Errored nat handler_error
  | Allowed string
  | Denied string
  | PatchResponseFromRaw 'raw 'raw
  | Panicked

datatype webhook_effect = WebhookRequestsTotal string | WebhookRequestDuration string

definition observed :: "string \<Rightarrow> webhook_effect list" where
  "observed operation = [WebhookRequestsTotal operation, WebhookRequestDuration operation]"

fun build_gates :: "RuleRef list \<Rightarrow> string list \<Rightarrow> string list" where
  "build_gates [] gates = gates"
| "build_gates (rule # rules) gates =
     (case map_of gateNames (rule_Name rule) of
        None \<Rightarrow> build_gates rules gates
      | Some gateName \<Rightarrow> build_gates rules (gates @ [gateName]))"

definition inject :: "string \<Rightarrow> string list \<Rightarrow> ('q, 'm) Pod_scheme \<Rightarrow> ('q, 'm) Pod_scheme" where
  "inject traceID gates pod =
     (let annotations = (case pod_Annotations pod of None \<Rightarrow> [] | Some m \<Rightarrow> m)
      in pod\<lparr>pod_Annotations := Some (mput AnnotationTraceID traceID annotations),
             SchedulingGates := SchedulingGates pod @ gates\<rparr>)"

definition Handle ::
  "('raw \<Rightarrow> string + ('q, 'm) Pod_scheme) \<Rightarrow> (('q, 'm) Pod_scheme \<Rightarrow> string + 'raw) \<Rightarrow> string
   \<Rightarrow> PodGateInjector \<Rightarrow> 'raw \<Rightarrow> 'raw response \<times> webhook_effect list" where
  "Handle unmarshal marshal uuid p raw =
     (case unmarshal raw of
        Inl e \<Rightarrow> (Errored 400 (DecodePod e), [])
      | Inr pod \<Rightarrow>
          if sget (pod_Labels pod) LabelExclude = ''true''
          then (Allowed ''excluded from gating'', observed ''passthrough'')
          else
            (case map_of (entries (pod_Labels pod)) LabelProfile of
               None \<Rightarrow> (Allowed ''no packing profile label'', observed ''passthrough'')
             | Some profileName \<Rightarrow>
                 (case Resolve (resolver p) profileName of
                    Inl _ \<Rightarrow> (Denied profileName, observed ''reject'')
                  | Inr profile \<Rightarrow>
                      let gates = build_gates (sp_Rules (pp_Spec profile)) [] in
                      if length gates = 0
                      then (Allowed ''no gates to inject'', observed ''passthrough'')
                      else if length uuid < 8 then (Panicked, [])
                      else
                        let pod' = inject (take 8 uuid) gates pod in
                        (case marshal pod' of
                           Inl e \<Rightarrow> (Errored 500 (MarshalPod e), [])
                         | Inr patched \<Rightarrow> (PatchResponseFromRaw raw patched, observed ''gate'')))))"

section \<open>The injected gates\<close>

text \<open>The gates of a list of rules, in order, without the rules that have none.\<close>

definition gates_of :: "RuleRef list \<Rightarrow> string list" where
  "gates_of rules = List.map_filter (\<lambda>r. map_of gateNames (rule_Name r)) rules"

lemma gates_of_simps [simp]:
  "gates_of [] = []"
  "gates_of (r # rs) = (case map_of gateNames (rule_Name r) of None \<Rightarrow> gates_of rs | Some g \<Rightarrow> g # gates_of rs)"
  by (simp_all add: gates_of_def List.map_filter_simps split: option.split)

lemma build_gates_eq: "build_gates rules gates = gates @ gates_of rules"
  by (induction rules arbitrary: gates) (auto split: option.split)

lemma gateNames_prefix: "map_of gateNames name = Some g \<Longrightarrow> HasPrefix g GatePrefix"
  by (auto simp: gateNames_def GatePrefix_def HasPrefix_def split: if_splits)

lemma gateNames_inj: "map_of gateNames a = Some g \<Longrightarrow> map_of gateNames b = Some g \<Longrightarrow> a = b"
  by (auto simp: gateNames_def split: if_splits)

lemma gates_of_prefix: "g \<in> set (gates_of rules) \<Longrightarrow> HasPrefix g GatePrefix"
  by (induction rules) (auto dest: gateNames_prefix split: option.splits)

lemma gates_of_empty_iff: "gates_of rules = [] \<longleftrightarrow> (\<forall>r \<in> set rules. map_of gateNames (rule_Name r) = None)"
  by (induction rules) (auto split: option.splits)

lemma set_gates_of: "g \<in> set (gates_of rules) \<longleftrightarrow> (\<exists>r \<in> set rules. map_of gateNames (rule_Name r) = Some g)"
  by (induction rules) (auto split: option.splits)

text \<open>Every rule that can be evaluated has a gate.\<close>

lemma registered_rule_has_gate: "map_of (Registry milli) name = Some r \<Longrightarrow> map_of gateNames name \<noteq> None"
  by (auto simp: Registry_lookup gateNames_def split: if_splits)

lemma inject_fields [simp]:
  "SchedulingGates (inject t gs pod) = SchedulingGates pod @ gs"
  "pod_Labels (inject t gs pod) = pod_Labels pod"
  "pod_CreationTimestamp (inject t gs pod) = pod_CreationTimestamp pod"
  "pod_Affinity (inject t gs pod) = pod_Affinity pod"
  by (simp_all add: inject_def Let_def)

lemma annotations_inject:
  "map_of (entries (pod_Annotations (inject t gs pod))) =
     (map_of (entries (pod_Annotations pod)))(AnnotationTraceID \<mapsto> t)"
  by (simp add: inject_def Let_def map_of_mput split: option.split)

section \<open>The answer to a request\<close>

lemma Handle_patch:
  assumes "Handle unmarshal marshal uuid p raw = (PatchResponseFromRaw raw' patched, es)"
  obtains pod pn profile where "unmarshal raw = Inr pod" "raw' = raw"
    "sget (pod_Labels pod) LabelExclude \<noteq> ''true''"
    "map_of (entries (pod_Labels pod)) LabelProfile = Some pn" "reader (resolver p) pn = Inr profile"
    "gates_of (sp_Rules (pp_Spec profile)) \<noteq> []" "8 \<le> length uuid"
    "marshal (inject (take 8 uuid) (gates_of (sp_Rules (pp_Spec profile))) pod) = Inr patched"
  using assms that
  by (auto simp: Handle_def Resolve_def build_gates_eq Let_def split: sum.splits if_splits option.splits)

lemma Handle_gates:
  assumes "unmarshal raw = Inr pod" and "sget (pod_Labels pod) LabelExclude \<noteq> ''true''"
    and "map_of (entries (pod_Labels pod)) LabelProfile = Some pn" and "reader (resolver p) pn = Inr profile"
    and "8 \<le> length uuid" and "gates_of (sp_Rules (pp_Spec profile)) \<noteq> []"
    and "marshal (inject (take 8 uuid) (gates_of (sp_Rules (pp_Spec profile))) pod) = Inr patched"
  shows "Handle unmarshal marshal uuid p raw = (PatchResponseFromRaw raw patched, observed ''gate'')"
  using assms by (simp add: Handle_def Resolve_def build_gates_eq)

text \<open>Sample requests: the JSON text of a pod is the pod itself.\<close>

definition sample_injector :: "string list \<Rightarrow> PodGateInjector" where
  "sample_injector rules =
     NewPodGateInjector (NewProfileResolver
       (\<lambda>name. if name = ''gpu'' then Inr (sample_profile rules) else Inl (NotFound name)))"

definition ungated_pod :: "int64 Pod" where
  "ungated_pod = (sample_pod [(''cpu'', 1500)])\<lparr>SchedulingGates := [''example.com/quota'']\<rparr>"

lemma sample_admission [simp]:
  "reader (resolver (sample_injector rules)) ''gpu'' = Inr (sample_profile rules)"
  "sget (pod_Labels ungated_pod) LabelExclude = ''''"
  "map_of (entries (pod_Labels ungated_pod)) LabelProfile = Some ''gpu''"
  "SchedulingGates ungated_pod = [''example.com/quota'']"
  "sp_Rules (pp_Spec (sample_profile rules)) = map (\<lambda>r. \<lparr>rule_Name = r\<rparr>) rules"
  by (simp_all add: sample_injector_def NewPodGateInjector_def NewProfileResolver_def ungated_pod_def sample_pod_def
      sample_profile_def mget_def label_defs)

lemma sample_gated:
  "Handle Inr Inr (replicate 36 CHR ''a'') (sample_injector [''WaitForNodeReady'']) ungated_pod
     = (PatchResponseFromRaw ungated_pod (inject (replicate 8 CHR ''a'') [''kompakt.io/wait-for-node-ready''] ungated_pod),
        observed ''gate'')"
  by (rule Handle_gates [where pn = "''gpu''" and pod = ungated_pod and profile = "sample_profile [''WaitForNodeReady'']"])
    (simp_all add: gateNames_def)

text \<open>
  C13: what admission does to a pod that asks for a profile. If the profile exists and names a known
  rule, the pod is patched: its gate list is extended by the gates of the known rules in the
  order of the profile, a trace id of eight characters is added, and nothing else changes, in the
  fields the handler does not know either. If no rule is known the pod passes unchanged.
\<close>

theorem webhook_injects_gates:
  assumes "unmarshal raw = Inr pod" and "sget (pod_Labels pod) LabelExclude \<noteq> ''true''"
    and "map_of (entries (pod_Labels pod)) LabelProfile = Some pn" and "reader (resolver p) pn = Inr profile"
    and "length uuid = 36" and "\<And>x. \<exists>r. marshal x = Inr r"
  shows "case gates_of (sp_Rules (pp_Spec profile)) of
      [] \<Rightarrow> Handle unmarshal marshal uuid p raw = (Allowed ''no gates to inject'', observed ''passthrough'')
    | gates \<Rightarrow> \<exists>pod' patched.
        Handle unmarshal marshal uuid p raw = (PatchResponseFromRaw raw patched, observed ''gate'') \<and>
        marshal pod' = Inr patched \<and>
        pod' = pod\<lparr>SchedulingGates := SchedulingGates pod @ gates, pod_Annotations := pod_Annotations pod'\<rparr> \<and>
        (\<exists>t. length t = 8 \<and> map_of (entries (pod_Annotations pod')) =
           (map_of (entries (pod_Annotations pod)))(AnnotationTraceID \<mapsto> t))"
proof (cases "gates_of (sp_Rules (pp_Spec profile))")
  case Nil
  with assms(1-4) show ?thesis by (simp add: Handle_def Resolve_def build_gates_eq)
next
  case (Cons g gs)
  let ?pod' = "inject (take 8 uuid) (g # gs) pod"
  obtain patched where m: "marshal ?pod' = Inr patched" using assms(6) by blast
  have "?pod' = pod\<lparr>SchedulingGates := SchedulingGates pod @ g # gs, pod_Annotations := pod_Annotations ?pod'\<rparr>"
    by (simp add: inject_def Let_def)
  moreover have "length (take 8 uuid) = 8" using assms(5) by simp
  moreover have "Handle unmarshal marshal uuid p raw = (PatchResponseFromRaw raw patched, observed ''gate'')"
    using Handle_gates [of unmarshal, OF assms(1-4)] Cons m assms(5) by simp
  moreover have "map_of (entries (pod_Annotations ?pod')) =
      (map_of (entries (pod_Annotations pod)))(AnnotationTraceID \<mapsto> take 8 uuid)"
    by (rule annotations_inject)
  ultimately have "\<exists>pod' patched.
        Handle unmarshal marshal uuid p raw = (PatchResponseFromRaw raw patched, observed ''gate'') \<and>
        marshal pod' = Inr patched \<and>
        pod' = pod\<lparr>SchedulingGates := SchedulingGates pod @ g # gs, pod_Annotations := pod_Annotations pod'\<rparr> \<and>
        (\<exists>t. length t = 8 \<and> map_of (entries (pod_Annotations pod')) =
           (map_of (entries (pod_Annotations pod)))(AnnotationTraceID \<mapsto> t))"
    using m by blast
  then show ?thesis using Cons by simp
qed

theorem webhook_injects_gates_witness:
  "\<exists>pod' :: int64 Pod.
     Handle Inr Inr (replicate 36 CHR ''a'') (sample_injector [''WaitForNodeReady'', ''Other'', ''WaitForWorkloadPacking'']) ungated_pod
       = (PatchResponseFromRaw ungated_pod pod', observed ''gate'') \<and>
     SchedulingGates pod' = [''example.com/quota'', ''kompakt.io/wait-for-node-ready'', ''kompakt.io/wait-for-workload-packing'']"
proof -
  let ?rules = "[''WaitForNodeReady'', ''Other'', ''WaitForWorkloadPacking'']" and ?u = "replicate 36 CHR ''a''"
  have gates: "gates_of (sp_Rules (pp_Spec (sample_profile ?rules))) =
      [''kompakt.io/wait-for-node-ready'', ''kompakt.io/wait-for-workload-packing'']"
    by (simp add: gateNames_def)
  have "case gates_of (sp_Rules (pp_Spec (sample_profile ?rules))) of
      [] \<Rightarrow> Handle Inr Inr ?u (sample_injector ?rules) ungated_pod = (Allowed ''no gates to inject'', observed ''passthrough'')
    | gates \<Rightarrow> \<exists>pod' patched.
        Handle Inr Inr ?u (sample_injector ?rules) ungated_pod = (PatchResponseFromRaw ungated_pod patched, observed ''gate'') \<and>
        (Inr pod' :: string + int64 Pod) = Inr patched \<and>
        pod' = ungated_pod\<lparr>SchedulingGates := SchedulingGates ungated_pod @ gates, pod_Annotations := pod_Annotations pod'\<rparr> \<and>
        (\<exists>t. length t = 8 \<and> map_of (entries (pod_Annotations pod')) =
           (map_of (entries (pod_Annotations ungated_pod)))(AnnotationTraceID \<mapsto> t))"
    by (rule webhook_injects_gates [where pn = "''gpu''"]) simp_all
  then obtain pod' :: "int64 Pod" where
      h: "Handle Inr Inr ?u (sample_injector ?rules) ungated_pod = (PatchResponseFromRaw ungated_pod pod', observed ''gate'')"
    and p': "pod' = ungated_pod\<lparr>SchedulingGates := SchedulingGates ungated_pod @
        [''kompakt.io/wait-for-node-ready'', ''kompakt.io/wait-for-workload-packing''], pod_Annotations := pod_Annotations pod'\<rparr>"
    unfolding gates list.case by blast
  have "SchedulingGates pod' = [''example.com/quota'', ''kompakt.io/wait-for-node-ready'', ''kompakt.io/wait-for-workload-packing'']"
    by (subst p') simp
  with h show ?thesis by blast
qed

text \<open>
  C30: whom admission turns away. A request is denied exactly if the pod is not excluded, asks for a
  profile and that profile could not be read, whatever the reason; the message names the profile
  as not found. A pod that is excluded or asks for no profile is always let through unchanged.
\<close>

theorem denied_iff_unresolved:
  "(fst (Handle unmarshal marshal uuid p raw) = Denied pn \<longleftrightarrow>
     (\<exists>pod e. unmarshal raw = Inr pod \<and> sget (pod_Labels pod) LabelExclude \<noteq> ''true'' \<and>
        map_of (entries (pod_Labels pod)) LabelProfile = Some pn \<and> reader (resolver p) pn = Inl e)) \<and>
   (case unmarshal raw of
      Inl e \<Rightarrow> fst (Handle unmarshal marshal uuid p raw) = Errored 400 (DecodePod e)
    | Inr pod \<Rightarrow>
        (sget (pod_Labels pod) LabelExclude = ''true'' \<or> map_of (entries (pod_Labels pod)) LabelProfile = None)
          = (fst (Handle unmarshal marshal uuid p raw) \<in> {Allowed ''excluded from gating'', Allowed ''no packing profile label''}))"
  by (auto simp: Handle_def Resolve_def Let_def split: sum.split option.split)

section \<open>Gates that are there already\<close>

lemma distinct_gates_of:
  "distinct (gates_of rules) \<longleftrightarrow>
     distinct (filter (\<lambda>name. map_of gateNames name \<noteq> None) (map rule_Name rules))"
  by (induction rules) (auto simp: set_gates_of dest: gateNames_inj split: option.splits)

text \<open>What is relied on of the JSON codec: gates and labels are read back, the labels in any order.\<close>

definition reads_back ::
  "('raw \<Rightarrow> string + ('q, 'm) Pod_scheme) \<Rightarrow> (('q, 'm) Pod_scheme \<Rightarrow> string + 'raw) \<Rightarrow> bool" where
  "reads_back unmarshal marshal \<longleftrightarrow>
     (\<forall>x r. marshal x = Inr r \<longrightarrow> (\<exists>y. unmarshal r = Inr y \<and> SchedulingGates y = SchedulingGates x \<and>
        map_of (entries (pod_Labels y)) = map_of (entries (pod_Labels x))))"

lemma reads_back_id [simp]: "reads_back Inr Inr"
  by (simp add: reads_back_def)

text \<open>
  C37: admission is not idempotent. When the patched pod is
  presented again, as \<^verbatim>\<open>reinvocationPolicy: IfNeeded\<close> allows, the gates are appended a second
  time, and the gate names of the pod are no longer distinct.
\<close>

theorem reinvocation_duplicates_gates:
  fixes unmarshal :: "'raw \<Rightarrow> string + ('q, 'm) Pod_scheme"
  assumes "Handle unmarshal marshal uuid p raw = (PatchResponseFromRaw raw patched, es)"
    and "\<And>x. \<exists>r. marshal x = Inr r" and "reads_back unmarshal marshal" and "length uuid' = 36"
  shows "\<exists>patched' pod. Handle unmarshal marshal uuid' p patched = (PatchResponseFromRaw patched patched', observed ''gate'') \<and>
    unmarshal patched' = Inr pod \<and> \<not> distinct (SchedulingGates pod)"
  using assms(1)
proof (rule Handle_patch)
  fix pod :: "('q, 'm) Pod_scheme" and pn and profile :: PackingProfile
  let ?gs = "gates_of (sp_Rules (pp_Spec profile))"
  let ?pod1 = "inject (take 8 uuid) ?gs pod"
  assume a: "sget (pod_Labels pod) LabelExclude \<noteq> ''true''"
    "map_of (entries (pod_Labels pod)) LabelProfile = Some pn" "reader (resolver p) pn = Inr profile"
    and gs: "?gs \<noteq> []" and m: "marshal ?pod1 = Inr patched"
  obtain y where y: "unmarshal patched = Inr y" "SchedulingGates y = SchedulingGates pod @ ?gs"
      "map_of (entries (pod_Labels y)) = map_of (entries (pod_Labels pod))"
    using assms(3) m unfolding reads_back_def by fastforce
  let ?pod2 = "inject (take 8 uuid') ?gs y"
  obtain patched' where m': "marshal ?pod2 = Inr patched'" using assms(2) by blast
  have "Handle unmarshal marshal uuid' p patched = (PatchResponseFromRaw patched patched', observed ''gate'')"
    using a gs m' y assms(4) by (intro Handle_gates [where pod = y]) (simp_all add: mget_def)
  moreover obtain z where "unmarshal patched' = Inr z" "SchedulingGates z = SchedulingGates pod @ ?gs @ ?gs"
    using assms(3) m' y(2) unfolding reads_back_def by fastforce
  moreover have "\<not> distinct (SchedulingGates pod @ ?gs @ ?gs)" using gs by (cases ?gs) auto
  ultimately show ?thesis by auto
qed

theorem reinvocation_duplicates_gates_witness:
  "\<exists>patched patched' :: int64 Pod.
     Handle Inr Inr (replicate 36 CHR ''a'') (sample_injector [''WaitForNodeReady'']) ungated_pod
       = (PatchResponseFromRaw ungated_pod patched, observed ''gate'') \<and>
     Handle Inr Inr (replicate 36 CHR ''b'') (sample_injector [''WaitForNodeReady'']) patched
       = (PatchResponseFromRaw patched patched', observed ''gate'') \<and>
     \<not> distinct (SchedulingGates patched')"
proof -
  show ?thesis
    using sample_gated reinvocation_duplicates_gates [OF sample_gated, of "replicate 36 CHR ''b''"] by auto
qed

text \<open>
  Gating and releasing compose. Whatever pod admission gates, the controller's event filter lets it
  through and the profile label is still there for it to read; releasing it, for any reason and onto any
  node, leaves exactly the gates the pod came with, provided none of them was one of this
  controller's.
\<close>

theorem release_undoes_gating:
  fixes unmarshal :: "'raw \<Rightarrow> string + 'a Pod"
  assumes "Handle unmarshal marshal uuid p raw = (PatchResponseFromRaw raw patched, es)"
    and "reads_back unmarshal marshal"
  shows "\<exists>pod pod' pn. unmarshal raw = Inr pod \<and> unmarshal patched = Inr pod' \<and>
    event_filter (Some pod') \<and> map_of (entries (pod_Labels pod')) LabelProfile = Some pn \<and>
    (\<not> hasKompaktGates pod \<longrightarrow> SchedulingGates (released_pod node reason pod') = SchedulingGates pod)"
  using assms(1)
proof (rule Handle_patch)
  fix pod :: "'a Pod" and pn and profile :: PackingProfile
  let ?gs = "gates_of (sp_Rules (pp_Spec profile))"
  let ?pod' = "inject (take 8 uuid) ?gs pod"
  assume pod: "unmarshal raw = Inr pod" "map_of (entries (pod_Labels pod)) LabelProfile = Some pn"
    and gs: "?gs \<noteq> []" and m: "marshal ?pod' = Inr patched"
  obtain y where y: "unmarshal patched = Inr y" "SchedulingGates y = SchedulingGates pod @ ?gs"
      "map_of (entries (pod_Labels y)) = map_of (entries (pod_Labels pod))"
    using assms(2) m unfolding reads_back_def by fastforce
  have "hasKompaktGates y"
    using gates_of_prefix [OF hd_in_set [OF gs]] hd_in_set [OF gs] y(2) by (auto simp: hasKompaktGates_iff)
  moreover have "filter (\<lambda>g. \<not> HasPrefix g GatePrefix) ?gs = []"
    using gates_of_prefix by (auto simp: filter_empty_conv)
  ultimately show ?thesis
    using pod y
    by (auto simp: event_filter_def released_pod_def Let_def remaining_gates_eq hasKompaktGates_iff filter_id_conv)
qed

theorem release_undoes_gating_witness:
  "\<exists>pod' :: int64 Pod.
     Handle Inr Inr (replicate 36 CHR ''a'') (sample_injector [''WaitForNodeReady'']) ungated_pod
       = (PatchResponseFromRaw ungated_pod pod', observed ''gate'') \<and>
     SchedulingGates (released_pod ''node-1'' ''capacity'' pod') = [''example.com/quota'']"
proof -
  have "\<not> hasKompaktGates ungated_pod"
    by (simp add: hasKompaktGates_iff GatePrefix_def HasPrefix_def)
  then show ?thesis
    using sample_gated release_undoes_gating [OF sample_gated, of "''node-1''" "''capacity''"] by auto
qed

end
