(* ===== verification/Lifecycle.thy ===== *)
theory Lifecycle
  imports ReconcilerProps Webhook
begin

text \<open>
  The life of one pod across the components: admission by the webhook
  (\<^verbatim>\<open>src/internal/webhook/mutating.go\<close>), then any number of controller calls
  (\<^verbatim>\<open>src/internal/controller/packingprofile_controller.go\<close>) while time passes. A step is either the
  clock moving on or one call of \<open>Reconcile\<close> with the answers of some API server that knows the
  pod as it is; the patches that the server accepts become the new pod. Everything else the server answers
  is arbitrary and may differ from call to call. Other writers of the pod are not part of this model.
\<close>

section \<open>Steps\<close>

record 'q cluster =
  cl_pod :: "'q Pod"
  cl_rec :: Reconciler
  cl_now :: time

definition apply_patch :: "'q Api \<Rightarrow> 'q effect \<Rightarrow> 'q Pod \<Rightarrow> 'q Pod" where
  "apply_patch api e pod =
     (case e of PatchPod p p' \<Rightarrow> (if api_patch_pod api p p' = None then p' else pod) | _ \<Rightarrow> pod)"

definition apply_patches :: "'q Api \<Rightarrow> 'q effect list \<Rightarrow> 'q Pod \<Rightarrow> 'q Pod" where
  "apply_patches api es pod = fold (apply_patch api) es pod"

inductive cluster_step :: "('q \<Rightarrow> int64) \<Rightarrow> string \<Rightarrow> string \<Rightarrow> 'q cluster \<Rightarrow> 'q cluster \<Rightarrow> bool"
  for milli :: "'q \<Rightarrow> int64" and ns name :: string where
  tick: "cl_now c \<le> t \<Longrightarrow> cluster_step milli ns name c (c\<lparr>cl_now := t\<rparr>)"
| call: "api_get_pod api ns name = Inr (cl_pod c) \<Longrightarrow>
    Reconcile milli (cl_now c) api ns name (cl_rec c) = (res, r', es) \<Longrightarrow>
    cluster_step milli ns name c (c\<lparr>cl_pod := apply_patches api es (cl_pod c), cl_rec := r'\<rparr>)"

inductive_cases cluster_stepE: "cluster_step milli ns name c c'"

lemma apply_patches_cases:
  obtains (kept) "apply_patches api es pod = pod" "\<And>p p'. PatchPod p p' \<in> set es \<Longrightarrow> api_patch_pod api p p' \<noteq> None"
  | (patched) p where "PatchPod p (apply_patches api es pod) \<in> set es"
proof -
  have "(apply_patches api es pod = pod \<and> (\<forall>p p'. PatchPod p p' \<in> set es \<longrightarrow> api_patch_pod api p p' \<noteq> None)) \<or>
      (\<exists>p. PatchPod p (apply_patches api es pod) \<in> set es)"
  proof (induction es rule: rev_induct)
    case Nil
    then show ?case by (simp add: apply_patches_def)
  next
    case (snoc e es)
    then show ?case
      by (cases e) (auto simp: apply_patches_def apply_patch_def)
  qed
  then show thesis using kept patched by blast
qed

section \<open>The shape of a pod on its way\<close>

text \<open>Before its release a pod differs from the admitted one in its annotations only.\<close>

definition waiting :: "'q Pod \<Rightarrow> 'q Pod \<Rightarrow> bool" where
  "waiting pod0 p \<longleftrightarrow> (\<exists>a. p = pod0\<lparr>pod_Annotations := a\<rparr>)"

definition released_from :: "'q Pod \<Rightarrow> 'q Pod \<Rightarrow> bool" where
  "released_from pod0 p \<longleftrightarrow> (\<exists>q node reason. waiting pod0 q \<and> p = released_pod node reason q)"

lemma waiting_refl: "waiting p p"
  unfolding waiting_def by (rule exI [of _ "pod_Annotations p"]) simp

lemma waiting_fields:
  assumes "waiting pod0 p"
  shows "SchedulingGates p = SchedulingGates pod0" "pod_Labels p = pod_Labels pod0"
    "pod_Affinity p = pod_Affinity pod0" "pod_CreationTimestamp p = pod_CreationTimestamp pod0"
  using assms by (auto simp: waiting_def)

lemma waiting_holds_with: "waiting pod0 p \<Longrightarrow> holds_with p p' \<Longrightarrow> waiting pod0 p'"
  by (auto simp: waiting_def holds_with_def annotated_pod_def Let_def split: if_splits)

lemma released_from_no_gates: "released_from pod0 p \<Longrightarrow> \<not> hasKompaktGates p"
  by (auto simp: released_from_def released_no_gates)

text \<open>A patch either keeps a pod waiting or releases it.\<close>

lemma patch_shape:
  assumes "Reconcile milli now api ns name r = (res, r', es)" and "PatchPod p p' \<in> set es"
    and "api_get_pod api ns name = Inr pod"
  shows "hasKompaktGates pod \<and> ((\<exists>t reason. p' = released_pod t reason pod) \<or>
    holds_with pod p' \<and> fst res = \<lparr>RequeueAfter = Second\<rparr>)"
  using assms(1,2)
proof (cases rule: Reconcile_patch_cases)
  case (gone pn e)
  with assms(3) show ?thesis by auto
next
  case (decided pn profile r1 es1 r2 es2)
  with assms(3) decide_patch [OF decided(6,7)] show ?thesis
    by (auto simp: holds_with_def split: if_splits loop_result.splits)
qed

lemma step_shape:
  assumes "cluster_step milli ns name c c'" and "waiting pod0 (cl_pod c) \<or> released_from pod0 (cl_pod c)"
  shows "waiting pod0 (cl_pod c') \<or> released_from pod0 (cl_pod c')"
  using assms(1)
proof cases
  case (call api res r' es)
  let ?p = "apply_patches api es (cl_pod c)"
  have "waiting pod0 ?p \<or> released_from pod0 ?p"
  proof (cases rule: apply_patches_cases [of api es "cl_pod c"])
    case kept
    with assms(2) show ?thesis by simp
  next
    case (patched p)
    note shape = patch_shape [OF call(3) patched call(2)]
    then have "waiting pod0 (cl_pod c)" using assms(2) released_from_no_gates by blast
    with shape show ?thesis by (auto simp: released_from_def intro: waiting_holds_with)
  qed
  with call show ?thesis by simp
qed (use assms(2) in simp)

lemma reachable_shape:
  assumes "(cluster_step milli ns name)\<^sup>*\<^sup>* c c'" and "waiting pod0 (cl_pod c) \<or> released_from pod0 (cl_pod c)"
  shows "waiting pod0 (cl_pod c') \<or> released_from pod0 (cl_pod c')"
  using assms by (induction rule: rtranclp_induct) (auto dest: step_shape)

lemma released_from_cases:
  assumes "released_from pod0 p"
  obtains a node where "p = pod0\<lparr>pod_Annotations := a,
      SchedulingGates := filter (\<lambda>g. \<not> HasPrefix g GatePrefix) (SchedulingGates pod0),
      pod_Affinity := (if node = [] then pod_Affinity pod0 else Some (pin_affinity node (pod_Affinity pod0)))\<rparr>"
proof -
  obtain b node reason where p: "p = released_pod node reason (pod0\<lparr>pod_Annotations := b\<rparr>)"
    using assms by (auto simp: released_from_def waiting_def)
  show thesis
    by (rule that [where a = "release_annotations node reason b" and node = node])
      (simp add: p released_pod_def Let_def remaining_gates_eq)
qed

text \<open>A call once the pod is overdue.\<close>

lemma overdue_call:
  assumes "api_get_pod api ns name = Inr pod" and "hasKompaktGates pod"
    and "map_of (entries (pod_Labels pod)) LabelProfile = Some pn" and "api_get_profile api pn = Inr profile"
    and "api_list_nodes api = Inr items" and "api_list_pods api = Inr pods" and "isTimedOut now pod profile"
    and "\<And>p'. api_patch_pod api pod p' = None" and "Reconcile milli now api ns name r = (res, r', es)"
  shows "res = (done_result, None)" and "\<exists>reason \<in> {''priority'', ''timeout''}. apply_patches api es pod = released_pod '''' reason pod"
proof -
  obtain reason where res: "res = (done_result, None)" and sent: "PatchPod pod (released_pod [] reason pod) \<in> set es"
    using Reconcile_overdue [of api ns name pod pn items pods now milli r] assms by auto
  show "res = (done_result, None)" by fact
  show "\<exists>reason \<in> {''priority'', ''timeout''}. apply_patches api es pod = released_pod '''' reason pod"
  proof (cases rule: apply_patches_cases [of api es pod])
    case kept
    with sent assms(8) show ?thesis by blast
  next
    case (patched p)
    from assms(9) patched show ?thesis
    proof (cases rule: Reconcile_patch_cases)
      case (decided pn' profile' r1 es1 r2 es2)
      with assms(1,3,4) have "p = pod" "profile' = profile" by simp_all
      with decide_patch [OF decided(6,7)] assms(7) show ?thesis by (auto split: if_splits)
    qed (use assms(1,3,4) in simp)
  qed
qed

text \<open>What admission makes of a pod: at least one gate of this controller is appended, none was there before.\<close>

definition admitted :: "'q Pod \<Rightarrow> 'q Pod \<Rightarrow> bool" where
  "admitted pod pod0 \<longleftrightarrow> \<not> hasKompaktGates pod \<and>
     (\<exists>a gs. gs \<noteq> [] \<and> (\<forall>g \<in> set gs. HasPrefix g GatePrefix) \<and>
        pod0 = pod\<lparr>pod_Annotations := a, SchedulingGates := SchedulingGates pod @ gs\<rparr>)"

lemma Handle_admitted:
  fixes unmarshal :: "'raw \<Rightarrow> string + 'q Pod"
  assumes "Handle unmarshal marshal uuid p raw = (PatchResponseFromRaw raw patched, es)"
    and "unmarshal raw = Inr pod" and "\<not> hasKompaktGates pod"
  obtains pod0 where "marshal pod0 = Inr patched" and "admitted pod pod0"
  using assms(1)
proof (rule Handle_patch)
  fix pod' :: "'q Pod" and pn and profile :: PackingProfile
  let ?gs = "gates_of (sp_Rules (pp_Spec profile))"
  assume "unmarshal raw = Inr pod'" and m: "marshal (inject (take 8 uuid) ?gs pod') = Inr patched" and "?gs \<noteq> []"
  with assms(2,3) have "pod' = pod" "admitted pod (inject (take 8 uuid) ?gs pod)"
    using gates_of_prefix unfolding admitted_def inject_def Let_def by auto
  with m show thesis by (intro that) simp_all
qed

lemma admitted_fields:
  assumes "admitted pod pod0"
  shows "hasKompaktGates pod0" "pod_Labels pod0 = pod_Labels pod" "pod_Affinity pod0 = pod_Affinity pod"
    "pod_CreationTimestamp pod0 = pod_CreationTimestamp pod"
    "filter (\<lambda>g. \<not> HasPrefix g GatePrefix) (SchedulingGates pod0) = SchedulingGates pod"
  using assms by (auto simp: admitted_def hasKompaktGates_iff filter_id_conv filter_empty_conv neq_Nil_conv)

lemma admitted_annotations:
  "admitted pod pod0 \<Longrightarrow> pod0\<lparr>pod_Annotations := a, SchedulingGates := gates, pod_Affinity := affinity\<rparr>
     = pod\<lparr>pod_Annotations := a, SchedulingGates := gates, pod_Affinity := affinity\<rparr>"
  by (auto simp: admitted_def)

lemma admitted_reachable:
  assumes adm: "admitted pod pod0"
    and reach: "(cluster_step milli ns name)\<^sup>*\<^sup>* \<lparr>cl_pod = pod0, cl_rec = r, cl_now = t\<rparr> c"
  obtains (held) a where "cl_pod c = pod\<lparr>pod_Annotations := a, SchedulingGates := SchedulingGates pod0, pod_Affinity := pod_Affinity pod\<rparr>"
  | (free) a affinity where "cl_pod c = pod\<lparr>pod_Annotations := a, SchedulingGates := SchedulingGates pod, pod_Affinity := affinity\<rparr>"
      and "affinity = pod_Affinity pod \<or> (\<exists>node. affinity = Some (pin_affinity node (pod_Affinity pod)))"
proof -
  note same = admitted_fields [OF adm] admitted_annotations [OF adm]
  from reachable_shape [OF reach, of pod0] consider "waiting pod0 (cl_pod c)" | "released_from pod0 (cl_pod c)"
    by (auto simp: waiting_refl)
  then show thesis
  proof cases
    case 1
    then obtain a where "cl_pod c = pod0\<lparr>pod_Annotations := a\<rparr>" by (auto simp: waiting_def)
    also have "\<dots> = pod0\<lparr>pod_Annotations := a, SchedulingGates := SchedulingGates pod0, pod_Affinity := pod_Affinity pod0\<rparr>" by simp
    finally show thesis using held by (simp only: same)
  next
    case 2
    then obtain a node where "cl_pod c = pod0\<lparr>pod_Annotations := a, SchedulingGates := SchedulingGates pod,
        pod_Affinity := (if node = [] then pod_Affinity pod0 else Some (pin_affinity node (pod_Affinity pod0)))\<rparr>"
      unfolding same(5) [symmetric] by (rule released_from_cases)
    then show thesis unfolding same(3,6) by (rule free) auto
  qed
qed

lemma overdue_release:
  fixes api :: "'q Api"
  assumes adm: "admitted pod pod0"
    and reach: "(cluster_step milli ns name)\<^sup>*\<^sup>* \<lparr>cl_pod = pod0, cl_rec = r, cl_now = t\<rparr> c" and gated: "hasKompaktGates (cl_pod c)"
    and get: "api_get_pod api ns name = Inr (cl_pod c)" and label: "map_of (entries (pod_Labels pod)) LabelProfile = Some pn"
    and answers: "api_get_profile api pn = Inr profile" "api_list_nodes api = Inr items" "api_list_pods api = Inr pods"
    and due: "isTimedOut (cl_now c) pod profile" and patch: "\<And>p'. api_patch_pod api (cl_pod c) p' = None"
    and run: "Reconcile milli (cl_now c) api ns name (cl_rec c) = (res, r', es)"
  shows "res = (done_result, None) \<and> SchedulingGates (apply_patches api es (cl_pod c)) = SchedulingGates pod \<and>
    pod_Affinity (apply_patches api es (cl_pod c)) = pod_Affinity pod \<and>
    (\<exists>reason \<in> {''priority'', ''timeout''}.
       map_of (entries (pod_Annotations (apply_patches api es (cl_pod c)))) AnnotationReason = Some reason)"
proof -
  have wait: "waiting pod0 (cl_pod c)"
    using reachable_shape [OF reach, of pod0] released_from_no_gates gated by (auto simp: waiting_refl)
  note same = waiting_fields [OF wait] admitted_fields [OF adm]
  have due': "isTimedOut (cl_now c) (cl_pod c) profile"
    using due same by (simp add: isTimedOut_def Let_def split: if_splits)
  have label': "map_of (entries (pod_Labels (cl_pod c))) LabelProfile = Some pn" using label same by simp
  note call = overdue_call [OF get gated label' answers due' patch run]
  obtain reason where reason: "reason \<in> {''priority'', ''timeout''}" and rel: "apply_patches api es (cl_pod c) = released_pod '''' reason (cl_pod c)"
    using call(2) by blast
  have "pod_Affinity (released_pod '''' reason (cl_pod c)) = pod_Affinity pod" using same by (simp add: released_pod_def Let_def)
  moreover have "map_of (entries (release_annotations '''' reason (pod_Annotations (cl_pod c)))) AnnotationReason = Some reason"
    using annotation_keys_distinct by (auto simp: map_of_release_annotations)
  ultimately show ?thesis
    unfolding rel using call(1) same reason by auto
qed

section \<open>The requeue loop of a pod\<close>



context rule_registry
begin

lemma eval_rules_no_error: "map_of g = reg \<Longrightarrow> eval_rules g pod p pn refs t l = (res, l', es) \<Longrightarrow> res \<noteq> RuleError"
proof (induction refs arbitrary: t l res l' es)
  case (Cons ref refs)
  show ?case
  proof (cases "reg (rule_Name ref)")
    case (Some rule)
    obtain v l1 where ev: "Evaluate rule pod l p = (v, l1)" by (cases "Evaluate rule pod l p")
    with reg_no_error [OF Some ev] Cons Some show ?thesis by (auto split: prod.splits if_splits)
  qed (use Cons in simp)
qed auto

end




lemma apply_patches_one [simp]: "api_patch_pod api p p' = None \<Longrightarrow> apply_patches api [PatchPod p p'] pod = p'"
  by (simp add: apply_patches_def apply_patch_def)

definition is_release :: "'q Pod \<Rightarrow> 'q Pod \<Rightarrow> bool" where
  "is_release pod p' \<longleftrightarrow> (\<exists>t reason. p' = released_pod t reason pod)"

lemma is_release_released [simp]: "is_release pod (released_pod t reason pod)"
  by (auto simp: is_release_def)




section \<open>Properties\<close>

text \<open>
  C7: what can happen to an admitted pod. Take a pod that came without gates of this controller and was gated by
  the webhook, so that the response carries the encoding of a pod that has such gates. When that pod is the one
  stored, then whatever the API server answers and however often the controller is called, its
  gates are at any time either all that admission left or exactly those it came with; its affinity
  is untouched or pinned once to one node; and apart from annotations nothing else of it ever changes.
\<close>

theorem admitted_pod_lifecycle:
  fixes unmarshal :: "'raw \<Rightarrow> string + 'q Pod"
  assumes "Handle unmarshal marshal uuid p raw = (PatchResponseFromRaw raw patched, es)"
    and "unmarshal raw = Inr pod" and "\<not> hasKompaktGates pod"
  shows "\<exists>pod0. marshal pod0 = Inr patched \<and> hasKompaktGates pod0 \<and>
    (\<forall>milli ns name r t c. (cluster_step milli ns name)\<^sup>*\<^sup>* \<lparr>cl_pod = pod0, cl_rec = r, cl_now = t\<rparr> c \<longrightarrow>
      (\<exists>a gates affinity. cl_pod c = pod\<lparr>pod_Annotations := a, SchedulingGates := gates, pod_Affinity := affinity\<rparr> \<and>
        (gates = SchedulingGates pod0 \<and> affinity = pod_Affinity pod \<or>
         gates = SchedulingGates pod \<and>
           (affinity = pod_Affinity pod \<or> (\<exists>node. affinity = Some (pin_affinity node (pod_Affinity pod)))))))"
proof -
  obtain pod0 where m: "marshal pod0 = Inr patched" and adm: "admitted pod pod0" using assms by (rule Handle_admitted)
  show ?thesis
    by (intro exI [of _ pod0] conjI allI impI m admitted_fields(1) [OF adm])
      (erule admitted_reachable [OF adm]; blast)
qed

definition gated_pod :: "int64 Pod" where
  "gated_pod = inject (replicate 8 CHR ''a'') [''kompakt.io/wait-for-node-ready''] ungated_pod"

lemma ungated_pod_no_gates: "\<not> hasKompaktGates ungated_pod"
  by (simp add: hasKompaktGates_iff GatePrefix_def HasPrefix_def)

lemmas sample_admitted = sample_gated [folded gated_pod_def]

lemma sample_ticks:
  "t \<le> t' \<Longrightarrow> (cluster_step id ns name)\<^sup>*\<^sup>* \<lparr>cl_pod = p, cl_rec = r, cl_now = t\<rparr> \<lparr>cl_pod = p, cl_rec = r, cl_now = t'\<rparr>"
  using tick [of "\<lparr>cl_pod = p, cl_rec = r, cl_now = t\<rparr>" t' id ns name] by (intro r_into_rtranclp) simp

theorem admitted_pod_lifecycle_witness:
  "let c = \<lparr>cl_pod = gated_pod, cl_rec = fresh_reconciler [], cl_now = 9\<rparr> in
   \<exists>a gates affinity. cl_pod c = ungated_pod\<lparr>pod_Annotations := a, SchedulingGates := gates, pod_Affinity := affinity\<rparr> \<and>
    (gates = SchedulingGates gated_pod \<and> affinity = pod_Affinity ungated_pod \<or>
     gates = SchedulingGates ungated_pod \<and>
       (affinity = pod_Affinity ungated_pod \<or> (\<exists>node. affinity = Some (pin_affinity node (pod_Affinity ungated_pod)))))"
proof -
  have reach: "(cluster_step id ''default'' ''web-0'')\<^sup>*\<^sup>* \<lparr>cl_pod = gated_pod, cl_rec = fresh_reconciler [], cl_now = 5\<rparr>
      \<lparr>cl_pod = gated_pod, cl_rec = fresh_reconciler [], cl_now = 9\<rparr>"
    by (rule sample_ticks) simp
  obtain pod0 where "Inr pod0 = (Inr gated_pod :: string + int64 Pod)"
    and *: "\<forall>milli ns name r t c. (cluster_step milli ns name)\<^sup>*\<^sup>* \<lparr>cl_pod = pod0, cl_rec = r, cl_now = t\<rparr> c \<longrightarrow>
      (\<exists>a gates affinity. cl_pod c = ungated_pod\<lparr>pod_Annotations := a, SchedulingGates := gates, pod_Affinity := affinity\<rparr> \<and>
        (gates = SchedulingGates pod0 \<and> affinity = pod_Affinity ungated_pod \<or>
         gates = SchedulingGates ungated_pod \<and>
           (affinity = pod_Affinity ungated_pod \<or> (\<exists>node. affinity = Some (pin_affinity node (pod_Affinity ungated_pod))))))"
    using admitted_pod_lifecycle [OF sample_admitted refl ungated_pod_no_gates] by blast
  then have "pod0 = gated_pod" by simp
  with * reach show ?thesis unfolding Let_def by blast
qed

text \<open>
  C10: no admitted pod waits for ever. Take the pod that admission stored after any further steps. If it still
  carries its gates when its timeout has passed, then a call with an API server that returns it, its profile and the cluster lists
  and accepts the patch ends without error or requeue, and the pod it leaves behind has exactly the gates it came
  with and the affinity it came with, and records as the reason the timeout, or priority if it asks for that.
\<close>

theorem admitted_pod_is_released:
  fixes unmarshal :: "'raw \<Rightarrow> string + 'q Pod"
  assumes "Handle unmarshal marshal uuid p raw = (PatchResponseFromRaw raw patched, es)"
    and "unmarshal raw = Inr pod" and "\<not> hasKompaktGates pod"
    and "map_of (entries (pod_Labels pod)) LabelProfile = Some pn"
  shows "\<exists>pod0. marshal pod0 = Inr patched \<and>
    (\<forall>milli ns name r t c (api :: 'q Api) profile items pods res r' es.
      (cluster_step milli ns name)\<^sup>*\<^sup>* \<lparr>cl_pod = pod0, cl_rec = r, cl_now = t\<rparr> c \<longrightarrow> hasKompaktGates (cl_pod c) \<longrightarrow>
      api_get_pod api ns name = Inr (cl_pod c) \<longrightarrow> (\<forall>p'. api_patch_pod api (cl_pod c) p' = None) \<longrightarrow>
      api_get_profile api pn = Inr profile \<longrightarrow> api_list_nodes api = Inr items \<longrightarrow> api_list_pods api = Inr pods \<longrightarrow>
      isTimedOut (cl_now c) pod profile \<longrightarrow>
      Reconcile milli (cl_now c) api ns name (cl_rec c) = (res, r', es) \<longrightarrow>
      res = (done_result, None) \<and> SchedulingGates (apply_patches api es (cl_pod c)) = SchedulingGates pod \<and>
      pod_Affinity (apply_patches api es (cl_pod c)) = pod_Affinity pod \<and>
      (\<exists>reason \<in> {''priority'', ''timeout''}.
         map_of (entries (pod_Annotations (apply_patches api es (cl_pod c)))) AnnotationReason = Some reason))"
proof -
  obtain pod0 where m: "marshal pod0 = Inr patched" and adm: "admitted pod pod0"
    using assms(1-3) by (rule Handle_admitted)
  show ?thesis
    by (rule exI [of _ pod0], rule conjI [OF m], intro allI impI, rule overdue_release [OF adm _ _ _ assms(4)]) auto
qed

theorem admitted_pod_is_released_witness:
  "case Reconcile id (1 + 181 * 10 ^ 9) (sample_api (sample_profile [''WaitForNodeReady'']) gated_pod [] []) ''default'' ''web-0''
       (fresh_reconciler []) of (res, r', es) \<Rightarrow>
     SchedulingGates (apply_patches (sample_api (sample_profile [''WaitForNodeReady'']) gated_pod [] []) es gated_pod) = [''example.com/quota'']"
proof -
  let ?c = "\<lparr>cl_pod = gated_pod, cl_rec = fresh_reconciler [], cl_now = 1 + 181 * 10 ^ 9\<rparr>"
  let ?p = "sample_profile [''WaitForNodeReady'']"
  let ?api = "sample_api ?p gated_pod [] []"
  have h: "hasKompaktGates (cl_pod ?c)"
    by (auto simp: gated_pod_def hasKompaktGates_iff GatePrefix_def HasPrefix_def)
  have due: "isTimedOut (cl_now ?c) ungated_pod ?p"
    by (simp add: isTimedOut_def sample_profile_def ParseDuration_3m ungated_pod_def sample_pod_def IsZero_def Since_def sint_Sub)
  have label: "map_of (entries (pod_Labels ungated_pod)) LabelProfile = Some ''gpu''" by simp
  have reach: "(cluster_step id ''default'' ''web-0'')\<^sup>*\<^sup>* \<lparr>cl_pod = gated_pod, cl_rec = fresh_reconciler [], cl_now = 1\<rparr> ?c"
    by (rule sample_ticks) simp
  have api: "api_get_pod ?api ''default'' ''web-0'' = Inr (cl_pod ?c)" "\<forall>p'. api_patch_pod ?api (cl_pod ?c) p' = None"
    "api_get_profile ?api ''gpu'' = Inr ?p" "api_list_nodes ?api = Inr []" "api_list_pods ?api = Inr []"
    by (simp_all add: sample_api_def)
  obtain res r' es where run: "Reconcile id (cl_now ?c) ?api ''default'' ''web-0'' (cl_rec ?c) = (res, r', es)" by (rule prod_cases3)
  obtain pod0 where "Inr pod0 = (Inr gated_pod :: string + int64 Pod)" and all: "\<forall>milli ns name r t c (api :: int64 Api) profile items pods res r' es.
      (cluster_step milli ns name)\<^sup>*\<^sup>* \<lparr>cl_pod = pod0, cl_rec = r, cl_now = t\<rparr> c \<longrightarrow> hasKompaktGates (cl_pod c) \<longrightarrow>
      api_get_pod api ns name = Inr (cl_pod c) \<longrightarrow> (\<forall>p'. api_patch_pod api (cl_pod c) p' = None) \<longrightarrow>
      api_get_profile api ''gpu'' = Inr profile \<longrightarrow> api_list_nodes api = Inr items \<longrightarrow> api_list_pods api = Inr pods \<longrightarrow>
      isTimedOut (cl_now c) ungated_pod profile \<longrightarrow>
      Reconcile milli (cl_now c) api ns name (cl_rec c) = (res, r', es) \<longrightarrow>
      res = (done_result, None) \<and> SchedulingGates (apply_patches api es (cl_pod c)) = SchedulingGates ungated_pod \<and>
      pod_Affinity (apply_patches api es (cl_pod c)) = pod_Affinity ungated_pod \<and>
      (\<exists>reason \<in> {''priority'', ''timeout''}.
         map_of (entries (pod_Annotations (apply_patches api es (cl_pod c)))) AnnotationReason = Some reason)"
    using admitted_pod_is_released [OF sample_admitted refl ungated_pod_no_gates label] by (elim exE conjE) (rule that)
  then have "pod0 = gated_pod" by simp
  note result = all [rule_format, unfolded this, OF reach h api(1) api(2) [rule_format] api(3-5) due run]
  show ?thesis using result run by simp
qed




end
