(* ===== verification/Metrics.thy ===== *)
theory Metrics
  imports ReconcilerProps Webhook
begin

text \<open>
  The Prometheus metrics (\<^verbatim>\<open>src/internal/metrics/metrics.go\<close>): their declarations, the registration in
  \<^verbatim>\<open>init\<close>, and which declaration each metric effect of the webhook and the controller updates with
  which label values. The client library panics when a name is registered twice, when the
  buckets of a histogram do not increase, or when the number of label values is not the declared
  one. \<^verbatim>\<open>prometheus.DefBuckets\<close> belongs to that library and is only named.
\<close>

section \<open>Model\<close>

datatype buckets = Buckets "rat list" | DefBuckets

datatype metric_kind = Counter | Gauge | Histogram buckets

record metric =
  m_Kind :: metric_kind
  m_Name :: string
  m_Help :: string
  m_Labels :: "string list"

definition WebhookRequestsTotal_metric :: metric where
  "WebhookRequestsTotal_metric =
     \<lparr>m_Kind = Counter, m_Name = ''kompakt_webhook_requests_total'',
      m_Help = ''Total number of webhook admission requests by operation.'', m_Labels = [''operation'']\<rparr>"

definition WebhookRequestDuration_metric :: metric where
  "WebhookRequestDuration_metric =
     \<lparr>m_Kind = Histogram (Buckets [1 / 1000, 5 / 1000, 1 / 100, 25 / 1000, 5 / 100, 1 / 10, 25 / 100]),
      m_Name = ''kompakt_webhook_request_duration_seconds'',
      m_Help = ''Latency of webhook admission handler.'', m_Labels = [''operation'']\<rparr>"

definition GatedPods_metric :: metric where
  "GatedPods_metric =
     \<lparr>m_Kind = Gauge, m_Name = ''kompakt_gated_pods'',
      m_Help = ''Current number of pods held with scheduling gates.'', m_Labels = [''namespace'', ''profile'']\<rparr>"

definition GateHoldDuration_metric :: metric where
  "GateHoldDuration_metric =
     \<lparr>m_Kind = Histogram (Buckets [1, 5, 15, 30, 60, 120, 180, 300, 600]), m_Name = ''kompakt_gate_hold_duration_seconds'',
      m_Help = ''Time a pod spends gated before release.'', m_Labels = [''profile'', ''reason'']\<rparr>"

definition GateReleasesTotal_metric :: metric where
  "GateReleasesTotal_metric =
     \<lparr>m_Kind = Counter, m_Name = ''kompakt_gate_releases_total'',
      m_Help = ''Total gate releases by profile and reason.'', m_Labels = [''profile'', ''reason'']\<rparr>"

definition LedgerNodes_metric :: metric where
  "LedgerNodes_metric =
     \<lparr>m_Kind = Gauge, m_Name = ''kompakt_ledger_nodes'',
      m_Help = ''Number of existing nodes tracked by the ledger.'', m_Labels = []\<rparr>"

definition LedgerInflightNodes_metric :: metric where
  "LedgerInflightNodes_metric =
     \<lparr>m_Kind = Gauge, m_Name = ''kompakt_ledger_inflight_nodes'',
      m_Help = ''Number of in-flight nodes by detection source.'', m_Labels = [''source'']\<rparr>"

definition LedgerAllocatableMillicores_metric :: metric where
  "LedgerAllocatableMillicores_metric =
     \<lparr>m_Kind = Gauge, m_Name = ''kompakt_ledger_allocatable_millicores'',
      m_Help = ''Total allocatable CPU across tracked nodes in millicores.'', m_Labels = []\<rparr>"

definition LedgerAllocatableMemoryBytes_metric :: metric where
  "LedgerAllocatableMemoryBytes_metric =
     \<lparr>m_Kind = Gauge, m_Name = ''kompakt_ledger_allocatable_memory_bytes'',
      m_Help = ''Total allocatable memory across tracked nodes in bytes.'', m_Labels = []\<rparr>"

definition RuleEvaluationsTotal_metric :: metric where
  "RuleEvaluationsTotal_metric =
     \<lparr>m_Kind = Counter, m_Name = ''kompakt_rule_evaluations_total'',
      m_Help = ''Total rule evaluations by rule name and result.'', m_Labels = [''rule'', ''result'']\<rparr>"

definition RuleEvaluationDuration_metric :: metric where
  "RuleEvaluationDuration_metric =
     \<lparr>m_Kind = Histogram DefBuckets, m_Name = ''kompakt_rule_evaluation_duration_seconds'',
      m_Help = ''Time per rule evaluation.'', m_Labels = [''rule'']\<rparr>"

definition MustRegister :: "metric list" where
  "MustRegister =
     [WebhookRequestsTotal_metric, WebhookRequestDuration_metric, GatedPods_metric, GateHoldDuration_metric,
      GateReleasesTotal_metric, LedgerNodes_metric, LedgerInflightNodes_metric, LedgerAllocatableMillicores_metric,
      LedgerAllocatableMemoryBytes_metric, RuleEvaluationsTotal_metric, RuleEvaluationDuration_metric]"

lemmas metric_defs =
  WebhookRequestsTotal_metric_def WebhookRequestDuration_metric_def GatedPods_metric_def GateHoldDuration_metric_def
  GateReleasesTotal_metric_def LedgerNodes_metric_def LedgerInflightNodes_metric_def
  LedgerAllocatableMillicores_metric_def LedgerAllocatableMemoryBytes_metric_def RuleEvaluationsTotal_metric_def
  RuleEvaluationDuration_metric_def

text \<open>The metric an effect updates, with the arguments of \<^verbatim>\<open>WithLabelValues\<close>; \<open>None\<close> for the other effects.\<close>

primrec metric_of :: "'q effect \<Rightarrow> (metric \<times> string list) option" where
  "metric_of (GateReleasesTotal profile reason) = Some (GateReleasesTotal_metric, [profile, reason])"
| "metric_of (GateHoldDuration profile reason d) = Some (GateHoldDuration_metric, [profile, reason])"
| "metric_of (RuleEvaluationDuration rule) = Some (RuleEvaluationDuration_metric, [rule])"
| "metric_of (RuleEvaluationsTotal rule result) = Some (RuleEvaluationsTotal_metric, [rule, result])"
| "metric_of (LedgerNodes n) = Some (LedgerNodes_metric, [])"
| "metric_of (LedgerAllocatableMillicores n) = Some (LedgerAllocatableMillicores_metric, [])"
| "metric_of (LedgerAllocatableMemoryBytes n) = Some (LedgerAllocatableMemoryBytes_metric, [])"
| "metric_of (LedgerInflightNodes source n) = Some (LedgerInflightNodes_metric, [source])"
| "metric_of (RecordEvent reason msg) = None"
| "metric_of (PatchPod p p') = None"
| "metric_of (UpdateStatus p) = None"

primrec webhook_metric_of :: "webhook_effect \<Rightarrow> metric \<times> string list" where
  "webhook_metric_of (WebhookRequestsTotal operation) = (WebhookRequestsTotal_metric, [operation])"
| "webhook_metric_of (WebhookRequestDuration operation) = (WebhookRequestDuration_metric, [operation])"

text \<open>What the client library accepts.\<close>

definition buckets_increase :: "metric \<Rightarrow> bool" where
  "buckets_increase m \<longleftrightarrow> (case m_Kind m of Histogram (Buckets bs) \<Rightarrow> sorted_wrt (<) bs | _ \<Rightarrow> True)"

section \<open>Label values\<close>

text \<open>
  Label values from a fixed set, as the reference promises: four release reasons, the results of a rule, the names of the rules and
  of the detectors.
\<close>

definition bounded_labels :: "string set \<Rightarrow> string set \<Rightarrow> 'q effect \<Rightarrow> bool" where
  "bounded_labels rules sources e \<longleftrightarrow>
     (case e of
        GateReleasesTotal p q \<Rightarrow> q \<in> {''capacity'', ''timeout'', ''priority'', ''profile_not_found''}
      | GateHoldDuration p q d \<Rightarrow> q \<in> {''capacity'', ''timeout'', ''priority'', ''profile_not_found''}
      | RuleEvaluationDuration rule \<Rightarrow> rule \<in> rules
      | RuleEvaluationsTotal rule q \<Rightarrow> rule \<in> rules \<and> q \<in> {''release'', ''hold''}
      | LedgerInflightNodes source n \<Rightarrow> source \<in> sources
      | _ \<Rightarrow> True)"

lemma bounded_recordRelease:
  "reason \<in> {''capacity'', ''timeout'', ''priority'', ''profile_not_found''} \<Longrightarrow>
   list_all (bounded_labels rules sources) (recordRelease now pod pn reason t)"
  by (simp add: recordRelease_def Let_def bounded_labels_def)

lemma bounded_recordHold: "list_all (bounded_labels rules sources) (recordHold pn rule)"
  by (simp add: recordHold_def bounded_labels_def)

lemma bounded_detect_chain:
  assumes "\<And>d r d'. detect d = (r, d') \<Longrightarrow> detector_Name d' = detector_Name d"
  shows "detect_chain detect ds = (ns, active, ds', es) \<Longrightarrow> detector_Name ` set ds \<subseteq> sources \<Longrightarrow>
    list_all (bounded_labels rules sources) es"
proof (induction ds arbitrary: ns active ds' es)
  case Nil
  then show ?case by simp
next
  case (Cons d ds)
  have name: "bounded_labels rules sources (LedgerInflightNodes (detector_Name d') n)" if "detect d = (r, d')" for r d' n
    using assms [OF that] Cons.prems(2) by (simp add: bounded_labels_def)
  show ?case
    using Cons by (auto simp: name split: prod.splits sum.splits if_splits)
qed

lemma bounded_syncLedger:
  assumes "syncLedger milli now api profile pod r = (e, r', es)"
  shows "list_all (bounded_labels rules (detector_Name ` set (Detectors r))) es"
  using assms bounded_detect_chain [OF Detect_name _ order.refl]
  by (auto simp: syncLedger_def Let_def ledger_gauges_def bounded_labels_def [of _ _ "LedgerNodes _"]
      bounded_labels_def [of _ _ "LedgerAllocatableMillicores _"] bounded_labels_def [of _ _ "LedgerAllocatableMemoryBytes _"]
      split: sum.splits prod.splits)

lemma bounded_eval_rules:
  assumes "eval_rules (Registry milli) pod p pn refs t l = (res, l', es)"
  shows "list_all (bounded_labels (fst ` set (Registry milli)) sources) es"
  using assms
proof (induction refs arbitrary: t l res l' es)
  case Nil
  then show ?case by simp
next
  case (Cons ref refs)
  show ?case
  proof (cases "map_of (Registry milli) (rule_Name ref)")
    case None
    with Cons show ?thesis by simp
  next
    case (Some rule)
    obtain v l1 where ev: "Evaluate rule pod l p = (v, l1)" by (cases "Evaluate rule pod l p")
    have rule: "rule_Name ref \<in> fst ` set (Registry milli)"
      using Some map_of_SomeD by (force simp: image_iff)
    have labels: "bounded_labels (fst ` set (Registry milli)) sources (RuleEvaluationDuration (rule_Name ref))"
        "bounded_labels (fst ` set (Registry milli)) sources (RuleEvaluationsTotal (rule_Name ref) ''release'')"
        "bounded_labels (fst ` set (Registry milli)) sources (RuleEvaluationsTotal (rule_Name ref) ''hold'')"
      using rule by (simp_all add: bounded_labels_def)
    have "err v = None" by (rule std.reg_no_error [OF Some ev])
    obtain res1 l2 es1 where rest:
      "eval_rules (Registry milli) pod p pn refs (if nodeName v \<noteq> [] then nodeName v else t) l1 = (res1, l2, es1)"
      by (rule prod_cases3)
    show ?thesis
      using Cons.prems Cons.IH [OF rest] labels \<open>err v = None\<close> bounded_recordHold
      by (auto simp: Some ev rest split: if_splits)
  qed
qed

lemma bounded_decide:
  assumes "decide milli now api profile pn pod r = (res, r', es)"
  shows "list_all (bounded_labels (fst ` set (Registry milli)) sources) es"
proof -
  obtain lr l' es1 where loop:
    "eval_rules (Registry milli) pod profile pn (sp_Rules (pp_Spec profile)) '''' (rc_Ledger r) = (lr, l', es1)"
    by (rule prod_cases3)
  have patch: "bounded_labels rules sources (PatchPod p p')" for rules p p' by (simp add: bounded_labels_def)
  show ?thesis
    using assms loop bounded_eval_rules [OF loop]
    by (auto simp: decide_def releaseGates_def releaseGatesWithAffinity_def annotatePod_def Let_def patch
        bounded_recordRelease split: if_splits loop_result.splits option.splits)
qed

lemma bounded_updateProfileStatus: "list_all (bounded_labels rules sources) (snd (updateProfileStatus now api r p))"
  by (simp add: updateProfileStatus_def Let_def bounded_labels_def split: sum.split)

lemma bounded_Reconcile:
  assumes "Reconcile milli now api ns name r = (res, r', es)"
  shows "list_all (bounded_labels (fst ` set (Registry milli)) (detector_Name ` set (Detectors r))) es"
proof (cases "\<exists>pod pn profile. api_get_pod api ns name = Inr pod \<and> hasKompaktGates pod \<and>
    map_of (entries (pod_Labels pod)) LabelProfile = Some pn \<and> api_get_profile api pn = Inr profile")
  case True
  then obtain pod pn profile where h: "api_get_pod api ns name = Inr pod" "hasKompaktGates pod"
      "map_of (entries (pod_Labels pod)) LabelProfile = Some pn" "api_get_profile api pn = Inr profile"
    by blast
  obtain se r1 es1 where sync: "syncLedger milli now api profile pod r = (se, r1, es1)"
    by (rule prod_cases3)
  obtain res2 r2 es2 where dec: "decide milli now api profile pn pod r1 = (res2, r2, es2)"
    by (rule prod_cases3)
  show ?thesis
    using assms h sync dec bounded_syncLedger [OF sync] bounded_decide [OF dec] bounded_updateProfileStatus
    by (auto simp: Reconcile_def split: option.splits)
next
  case False
  have patch: "bounded_labels rules sources (PatchPod p p')" for rules sources p p' by (simp add: bounded_labels_def)
  show ?thesis
    using assms False
    by (auto simp: Reconcile_def releaseGates_def releaseGatesWithAffinity_def Let_def patch bounded_recordRelease
        split: sum.splits if_splits option.splits)
qed

section \<open>Properties\<close>

text \<open>
  C32: metrics never panic and their labels stay bounded. Registration meets no name twice and no bucket
  list that does not increase. Every update a controller call or an admission makes is of a
  registered metric with as many label values as it declares. A reason is one of the four release reasons, a
  result is release or hold, a rule is the name of a registered rule, a source the name of a
  configured detector and an operation one of the three admission outcomes; so no rule evaluation is ever counted as an error.
\<close>

theorem metric_labels_bounded:
  assumes "Reconcile milli now api ns name r = (res, r', es)"
    and "Handle unmarshal marshal uuid p raw = (resp, wes)"
  shows "distinct (map m_Name MustRegister) \<and> list_all buckets_increase MustRegister \<and>
    list_all (\<lambda>e. bounded_labels (fst ` set (Registry milli)) (detector_Name ` set (Detectors r)) e \<and>
      (case metric_of e of None \<Rightarrow> True | Some (m, ls) \<Rightarrow> m \<in> set MustRegister \<and> length ls = length (m_Labels m))) es \<and>
    list_all (\<lambda>e. case webhook_metric_of e of (m, ls) \<Rightarrow>
      m \<in> set MustRegister \<and> m_Labels m = [''operation''] \<and> ls \<in> {[''gate''], [''reject''], [''passthrough'']}) wes"
proof (intro conjI)
  show "distinct (map m_Name MustRegister)" by (simp add: MustRegister_def metric_defs)
  show "list_all buckets_increase MustRegister"
    by (simp add: MustRegister_def buckets_increase_def metric_defs)
  have "case metric_of e of None \<Rightarrow> True | Some (m, ls) \<Rightarrow> m \<in> set MustRegister \<and> length ls = length (m_Labels m)" for e :: "'a effect"
    by (cases e) (simp_all add: MustRegister_def metric_defs)
  with bounded_Reconcile [OF assms(1)]
  show "list_all (\<lambda>e. bounded_labels (fst ` set (Registry milli)) (detector_Name ` set (Detectors r)) e \<and>
      (case metric_of e of None \<Rightarrow> True | Some (m, ls) \<Rightarrow> m \<in> set MustRegister \<and> length ls = length (m_Labels m))) es"
    by (simp add: list_all_iff)
  have "wes \<in> {[], observed ''gate'', observed ''reject'', observed ''passthrough''}"
    using assms(2) by (auto simp: Handle_def Let_def split: sum.splits if_splits option.splits)
  then show "list_all (\<lambda>e. case webhook_metric_of e of (m, ls) \<Rightarrow>
      m \<in> set MustRegister \<and> m_Labels m = [''operation''] \<and> ls \<in> {[''gate''], [''reject''], [''passthrough'']}) wes"
    by (auto simp: observed_def MustRegister_def metric_defs)
qed

theorem metric_labels_bounded_witness:
  "list_all (bounded_labels (fst ` set (Registry id)) {''not-ready-nodes''})
     (snd (snd (Reconcile id 5 (sample_api (sample_profile []) (sample_pod []) [] []) ''default'' ''web-0''
       (fresh_reconciler [NotReadyNodes]))))"
proof -
  obtain res r' es where run: "Reconcile id 5 (sample_api (sample_profile []) (sample_pod []) [] []) ''default'' ''web-0''
      (fresh_reconciler [NotReadyNodes]) = (res, r', es)"
    by (rule prod_cases3)
  have "Detectors (fresh_reconciler [NotReadyNodes]) = [NotReadyNodes]" by (simp add: fresh_reconciler_def)
  then show ?thesis
    using metric_labels_bounded [OF run sample_gated] by (simp add: run list_all_iff)
qed

end
