(* ===== verification/GoDouble.thy ===== *)
theory GoDouble
  imports GoTime Complex_Main
begin

text \<open>
  Accuracy of the doubles of \<open>GoTime\<close>: converting a fraction to a double is exact up to a relative
  error of \<open>2\<^sup>-\<^sup>5\<^sup>3\<close>, and so is the product of two doubles. With it the result of
  \<^verbatim>\<open>time.Duration(float64(d) * c)\<close> is located without computing it.
\<close>

definition dbl :: "nat \<times> nat \<Rightarrow> real" where
  "dbl a = real (fst a) / real (snd a)"

lemma round_half_even_error:
  assumes "0 < q"
  shows "\<bar>real (round_half_even p q) - real p / real q\<bar> \<le> 1 / 2"
proof -
  have r: "real p = real (p div q) * real q + real (p mod q)"
    by (metis of_nat_add of_nat_mult div_mult_mod_eq)
  have m: "p mod q < q" using assms by simp
  have eq: "real p / real q = real (p div q) + real (p mod q) / real q"
    using assms r by (simp add: field_simps)
  have lo: "real (p mod q) / real q \<le> 1 / 2" if "2 * (p mod q) \<le> q"
    using that assms by (simp add: field_simps)
  have hi: "1 / 2 \<le> real (p mod q) / real q" if "q \<le> 2 * (p mod q)"
    using that assms by (simp add: field_simps)
  have le1: "real (p mod q) / real q \<le> 1" "0 \<le> real (p mod q) / real q"
    using m assms by (simp_all add: field_simps)
  show ?thesis
    using lo hi le1 unfolding round_half_even_def Let_def eq
    by (cases "2 * (p mod q) < q"; cases "q < 2 * (p mod q)") auto
qed

lemma doublings_enough: "0 < p \<Longrightarrow> q \<le> p * 2 ^ doublings p q"
proof (induction p q rule: doublings.induct)
  case (1 p q)
  then show ?case by (subst doublings.simps) (auto simp: algebra_simps)
qed

text \<open>Rounding at a scale \<open>s\<close>, when the scaled value is at least \<open>2\<^sup>5\<^sup>2\<close>.\<close>

lemma scaled_rounding:
  fixes x s a :: real
  assumes "0 < s" and "\<bar>a - x * s\<bar> \<le> 1 / 2" and "2 ^ 52 \<le> x * s"
  shows "\<bar>a / s - x\<bar> \<le> x / 2 ^ 53"
proof -
  have "\<bar>a / s - x\<bar> = \<bar>a - x * s\<bar> / s"
    using assms(1) by (simp add: abs_div_pos [symmetric] field_simps)
  also have "\<dots> \<le> (1 / 2) / s" using assms(1,2) by (intro divide_right_mono) simp_all
  also have "\<dots> \<le> x / 2 ^ 53" using assms(1,3) by (simp add: field_simps)
  finally show ?thesis .
qed

lemma to_double_small:
  assumes "0 < p" and "p < q"
  shows "0 < snd (to_double p q) \<and> \<bar>dbl (to_double p q) - real p / real q\<bar> \<le> real p / real q / 2 ^ 53"
proof -
  let ?x = "real p / real q" and ?D = "doublings p q"
  have q: "0 < q" using assms by simp
  have "real q \<le> real p * 2 ^ ?D"
    using doublings_enough [OF assms(1), of q] by (metis of_nat_le_iff of_nat_mult of_nat_numeral of_nat_power)
  then have "2 ^ 52 \<le> ?x * 2 ^ (52 + ?D)"
    using q by (simp add: power_add field_simps)
  moreover have "\<bar>real (round_half_even (p * 2 ^ (52 + ?D)) q) - ?x * 2 ^ (52 + ?D)\<bar> \<le> 1 / 2"
    using round_half_even_error [OF q, of "p * 2 ^ (52 + ?D)"] by simp
  ultimately have "\<bar>real (round_half_even (p * 2 ^ (52 + ?D)) q) / 2 ^ (52 + ?D) - ?x\<bar> \<le> ?x / 2 ^ 53"
    by (intro scaled_rounding) simp_all
  then show ?thesis using assms by (simp add: to_double_def dbl_def Let_def)
qed

lemma to_double_large:
  assumes "0 < q" and "q \<le> p"
  shows "0 < snd (to_double p q) \<and> \<bar>dbl (to_double p q) - real p / real q\<bar> \<le> real p / real q / 2 ^ 53"
proof -
  let ?x = "real p / real q" and ?k = "floorlog 2 (p div q) - 1"
  have pos: "0 < p div q" "0 < p" using assms by (auto simp: div_greater_zero_iff)
  have "2 ^ ?k \<le> p div q" using floorlog_bounds [of "p div q" 2] pos by simp
  then have "2 ^ ?k * q \<le> p" using assms by (metis mult_le_mono1 div_times_less_eq_dividend le_trans)
  then have "real (2 ^ ?k * q) \<le> real p" by (simp only: of_nat_le_iff)
  then have k: "2 ^ ?k \<le> ?x" using assms by (simp add: field_simps)
  show ?thesis
  proof (cases "52 \<le> ?k")
    case True
    define j where "j = ?k - 52"
    have kj: "?k = j + 52" using True by (simp add: j_def)
    have "\<bar>real (round_half_even p (q * 2 ^ j)) - ?x * (1 / 2 ^ j)\<bar> \<le> 1 / 2"
      using round_half_even_error [of "q * 2 ^ j" p] assms by simp
    moreover have "2 ^ 52 \<le> ?x * (1 / 2 ^ j)"
      using k pos_le_divide_eq [of "2 ^ j" "2 ^ 52" ?x] unfolding kj by (simp add: power_add mult.commute)
    ultimately have "\<bar>real (round_half_even p (q * 2 ^ j)) / (1 / 2 ^ j) - ?x\<bar> \<le> ?x / 2 ^ 53"
      by (intro scaled_rounding) simp_all
    then show ?thesis using assms pos True by (simp add: to_double_def dbl_def Let_def j_def)
  next
    case False
    define j where "j = 52 - ?k"
    have kj: "j + ?k = 52" using False by (simp add: j_def)
    have "\<bar>real (round_half_even (p * 2 ^ j) q) - ?x * 2 ^ j\<bar> \<le> 1 / 2"
      using round_half_even_error [OF assms(1), of "p * 2 ^ j"] by simp
    moreover have "(2 :: real) ^ 52 = 2 ^ ?k * 2 ^ j"
      unfolding kj [symmetric] by (simp add: power_add)
    then have "2 ^ 52 \<le> ?x * 2 ^ j"
      using mult_right_mono [OF k, of "2 ^ j"] by simp
    ultimately have "\<bar>real (round_half_even (p * 2 ^ j) q) / 2 ^ j - ?x\<bar> \<le> ?x / 2 ^ 53"
      by (intro scaled_rounding) simp_all
    then show ?thesis using assms pos False by (simp add: to_double_def dbl_def Let_def j_def)
  qed
qed

lemma to_double_accurate:
  assumes "0 < q"
  shows "0 < snd (to_double p q)" "\<bar>dbl (to_double p q) - real p / real q\<bar> \<le> real p / real q / 2 ^ 53"
proof -
  consider "p = 0" | "0 < p" "p < q" | "q \<le> p" by linarith
  then have "0 < snd (to_double p q) \<and> \<bar>dbl (to_double p q) - real p / real q\<bar> \<le> real p / real q / 2 ^ 53"
    by cases (use to_double_small to_double_large [OF assms] in \<open>simp_all add: to_double_def dbl_def\<close>)
  then show "0 < snd (to_double p q)" "\<bar>dbl (to_double p q) - real p / real q\<bar> \<le> real p / real q / 2 ^ 53" by auto
qed

lemma double_mult_accurate:
  assumes "0 < snd a" and "0 < snd b"
  shows "\<bar>dbl (double_mult a b) - dbl a * dbl b\<bar> \<le> dbl a * dbl b / 2 ^ 53"
  using to_double_accurate(2) [of "snd a * snd b" "fst a * fst b"] assms
  by (simp add: double_mult_def dbl_def)

lemma double_to_uint_floor: "real (double_to_uint a) \<le> dbl a" "dbl a < real (double_to_uint a) + 1"
proof -
  have "double_to_uint a = nat \<lfloor>dbl a\<rfloor>"
    by (simp add: double_to_uint_def dbl_def floor_divide_of_nat_eq)
  moreover have "0 \<le> dbl a" by (simp add: dbl_def)
  ultimately show "real (double_to_uint a) \<le> dbl a" "dbl a < real (double_to_uint a) + 1"
    by linarith+
qed

lemma relative_error:
  fixes x y e :: real
  assumes "\<bar>x - y\<bar> \<le> y * e"
  shows "y * (1 - e) \<le> x" and "x \<le> y * (1 + e)"
  using assms by (auto simp: abs_le_iff algebra_simps)

text \<open>The integer part of \<^verbatim>\<open>float64(d) * c\<close>, within a millionth of the exact product.\<close>

lemma scaled_double_bounds:
  fixes d p q :: nat
  assumes "0 < q"
  defines "m \<equiv> double_to_uint (double_mult (to_double d 1) (to_double p q))"
  shows "real m \<le> real d * (real p / real q) * (1 + 1 / 10 ^ 6)"
    and "real d * (real p / real q) * (1 - 1 / 10 ^ 6) - 1 < real m"
proof -
  let ?c = "real p / real q" and ?e = "1 / 2 ^ 53 :: real"
  let ?a = "dbl (to_double d 1)" and ?b = "dbl (to_double p q)"
  let ?v = "dbl (double_mult (to_double d 1) (to_double p q))"
  have a: "real d * (1 - ?e) \<le> ?a" "?a \<le> real d * (1 + ?e)"
    using relative_error [of ?a "real d" ?e] to_double_accurate(2) [of 1 d] by simp_all
  have b: "?c * (1 - ?e) \<le> ?b" "?b \<le> ?c * (1 + ?e)"
    using relative_error [of ?b ?c ?e] to_double_accurate(2) [OF assms(1), of p] by simp_all
  have v: "?a * ?b * (1 - ?e) \<le> ?v" "?v \<le> ?a * ?b * (1 + ?e)"
    using relative_error [of ?v "?a * ?b" ?e] double_mult_accurate [of "to_double d 1" "to_double p q"]
      to_double_accurate(1) [of 1 d] to_double_accurate(1) [OF assms(1), of p] by simp_all
  have nonneg: "0 \<le> ?a" "0 \<le> ?b" "0 \<le> real d" "0 \<le> ?c" by (simp_all add: dbl_def)
  have "?v \<le> (real d * (1 + ?e)) * (?c * (1 + ?e)) * (1 + ?e)"
    by (rule order.trans [OF v(2)]) (use a b nonneg in \<open>intro mult_right_mono mult_mono; simp\<close>)
  also have "\<dots> = real d * ?c * ((1 + ?e) * (1 + ?e) * (1 + ?e))" by (simp add: algebra_simps)
  also have "\<dots> \<le> real d * ?c * (1 + 1 / 10 ^ 6)"
    by (intro mult_left_mono) (simp_all add: nonneg)
  finally show "real m \<le> real d * (real p / real q) * (1 + 1 / 10 ^ 6)"
    using double_to_uint_floor(1) unfolding m_def by (rule order.trans [rotated])
  have "real d * ?c * (1 - 1 / 10 ^ 6) \<le> real d * ?c * ((1 - ?e) * (1 - ?e) * (1 - ?e))"
    by (intro mult_left_mono) (simp_all add: nonneg)
  also have "\<dots> = (real d * (1 - ?e)) * (?c * (1 - ?e)) * (1 - ?e)" by (simp add: algebra_simps)
  also have "\<dots> \<le> ?v"
    by (rule order.trans [OF _ v(1)]) (use a b nonneg in \<open>intro mult_right_mono mult_mono; simp\<close>)
  finally show "real d * (real p / real q) * (1 - 1 / 10 ^ 6) - 1 < real m"
    using double_to_uint_floor(2) [of "double_mult (to_double d 1) (to_double p q)"] unfolding m_def by linarith
qed

end
