(* ===== verification/Certgen.thy ===== *)
theory Certgen
  imports KubeTypes GoDouble
begin

text \<open>
  The certificate provisioner of the webhook server (\<^verbatim>\<open>src/internal/certgen/provisioner.go\<close>). An
  operation is an action on the outside world \<open>'s\<close> that may fail: the Kubernetes client, the
  file system, the clock, the random source and the cryptographic library are the fields of the
  argument \<open>env\<close>. \<open>io_bind\<close> is the early return \<^verbatim>\<open>if err != nil { return err }\<close>, \<open>io_wrap\<close> is
  \<^verbatim>\<open>fmt.Errorf("text: %w", err)\<close>, and \<open>io_try\<close> hands an error to the code that inspects it. Log
  lines are left out.
\<close>

section \<open>Actions\<close>

type_synonym bytes = string

datatype io_error =
    ApiErr api_error
  | SysErr string
  | CertExpired time
  | Panic
  | Errorf string io_error

text \<open>\<^verbatim>\<open>apierrors.IsNotFound\<close> looks through wrapped errors.\<close>

primrec io_IsNotFound :: "io_error \<Rightarrow> bool" where
  "io_IsNotFound (ApiErr e) = IsNotFound e"
| "io_IsNotFound (SysErr _) = False"
| "io_IsNotFound (CertExpired _) = False"
| "io_IsNotFound Panic = False"
| "io_IsNotFound (Errorf _ e) = io_IsNotFound e"

type_synonym ('s, 'a) io = "'s \<Rightarrow> (io_error + 'a) \<times> 's"

definition io_return :: "'a \<Rightarrow> ('s, 'a) io" where
  "io_return x s = (Inr x, s)"

definition io_fail :: "io_error \<Rightarrow> ('s, 'a) io" where
  "io_fail e s = (Inl e, s)"

definition io_bind :: "('s, 'a) io \<Rightarrow> ('a \<Rightarrow> ('s, 'b) io) \<Rightarrow> ('s, 'b) io" where
  "io_bind m f s = (case m s of (Inl e, s') \<Rightarrow> (Inl e, s') | (Inr x, s') \<Rightarrow> f x s')"

definition io_wrap :: "string \<Rightarrow> ('s, 'a) io \<Rightarrow> ('s, 'a) io" where
  "io_wrap t m s = (case m s of (Inl e, s') \<Rightarrow> (Inl (Errorf t e), s') | (Inr x, s') \<Rightarrow> (Inr x, s'))"

definition io_try :: "('s, 'a) io \<Rightarrow> ('s, io_error + 'a) io" where
  "io_try m s = (case m s of (r, s') \<Rightarrow> (Inr r, s'))"

definition io_lift :: "io_error + 'a \<Rightarrow> ('s, 'a) io" where
  "io_lift r s = (r, s)"

definition io_read :: "('s \<Rightarrow> 'a \<times> 's) \<Rightarrow> ('s, 'a) io" where
  "io_read m s = (case m s of (x, s') \<Rightarrow> (Inr x, s'))"

section \<open>Paths\<close>

text \<open>\<^verbatim>\<open>filepath.Join\<close> of two elements, on Unix: empty elements are ignored and the result is cleaned.\<close>

fun clean_elem :: "bool \<Rightarrow> string list \<Rightarrow> string \<Rightarrow> string list" where
  "clean_elem rooted acc w =
     (if w = '''' \<or> w = ''.'' then acc
      else if w = ''..'' then
        (if acc \<noteq> [] \<and> last acc \<noteq> ''..'' then butlast acc
         else if rooted then acc else acc @ [w])
      else acc @ [w])"

definition Clean :: "string \<Rightarrow> string" where
  "Clean path =
     (let rooted = HasPrefix path ''/'';
          ws = foldl (clean_elem rooted) [] (Split path CHR ''/'');
          body = Join ws ''/''
      in if rooted then ''/'' @ body else if ws = [] then ''.'' else body)"

definition filepath_Join :: "string \<Rightarrow> string \<Rightarrow> string" where
  "filepath_Join dir file =
     (let elems = filter (\<lambda>e. e \<noteq> '''') [dir, file] in
      if elems = [] then '''' else Clean (Join elems ''/''))"

section \<open>The outside world\<close>

record pkix_Name =
  CommonName :: string
  Organization :: "string list"

record Certificate =
  SerialNumber :: int
  Subject :: pkix_Name
  DNSNames :: "string list"
  NotBefore :: time
  NotAfter :: time
  KeyUsage :: int
  ExtKeyUsage :: "int list"
  IsCA :: bool
  BasicConstraintsValid :: bool

record Secret =
  secret_Name :: string
  secret_Namespace :: string
  secret_Type :: string
  secret_Data :: "(string, bytes) gmap"

record MutatingWebhook =
  wh_Name :: string
  CABundle :: bytes

record MutatingWebhookConfiguration =
  mwc_Name :: string
  Webhooks :: "MutatingWebhook list"

record ('s, 'key) Env =
  secret_get :: "string \<Rightarrow> string \<Rightarrow> ('s, Secret) io"
  secret_create :: "string \<Rightarrow> Secret \<Rightarrow> ('s, unit) io"
  secret_update :: "string \<Rightarrow> Secret \<Rightarrow> ('s, unit) io"
  mwc_get :: "string \<Rightarrow> ('s, MutatingWebhookConfiguration) io"
  mwc_update :: "MutatingWebhookConfiguration \<Rightarrow> ('s, unit) io"
  MkdirAll :: "string \<Rightarrow> nat \<Rightarrow> ('s, unit) io"
  WriteFile :: "string \<Rightarrow> bytes \<Rightarrow> nat \<Rightarrow> ('s, unit) io"
  ReadFile :: "string \<Rightarrow> ('s, bytes) io"
  Now :: "'s \<Rightarrow> time \<times> 's"
  GenerateKey :: "('s, 'key) io"
  rand_Int :: "int \<Rightarrow> ('s, int) io"
  CreateCertificate :: "Certificate \<Rightarrow> Certificate \<Rightarrow> 'key \<Rightarrow> 'key \<Rightarrow> ('s, bytes) io"
  ParseCertificate :: "bytes \<Rightarrow> io_error + Certificate"
  MarshalECPrivateKey :: "'key \<Rightarrow> io_error + bytes"
  EncodeToMemory :: "string \<Rightarrow> bytes \<Rightarrow> bytes"
  pem_Decode :: "bytes \<Rightarrow> (string \<times> bytes) option"
  X509KeyPair :: "bytes \<Rightarrow> bytes \<Rightarrow> io_error + bytes list"

section \<open>Model\<close>

definition Hour :: duration where
  "Hour = 3600000000000"

definition caLifetime :: duration where
  "caLifetime = 10 * 365 * 24 * Hour"

definition certLifetime :: duration where
  "certLifetime = 365 * 24 * Hour"

definition rotateAt :: "nat \<times> nat" where
  "rotateAt = to_double 80 100"

definition checkInterval :: duration where
  "checkInterval = 12 * Hour"

record Config =
  cfg_Namespace :: string
  ServiceName :: string
  SecretName :: string
  WebhookConfigName :: string
  CertDir :: string

record CertProvisioner =
  cfg :: Config

definition certgen_New :: "Config \<Rightarrow> CertProvisioner" where
  "certgen_New c = \<lparr>cfg = c\<rparr>"

definition NeedLeaderElection :: "CertProvisioner \<Rightarrow> bool" where
  "NeedLeaderElection p = False"

definition KeyUsageDigitalSignature :: int where "KeyUsageDigitalSignature = 1"
definition KeyUsageKeyEncipherment :: int where "KeyUsageKeyEncipherment = 4"
definition KeyUsageCertSign :: int where "KeyUsageCertSign = 32"
definition KeyUsageCRLSign :: int where "KeyUsageCRLSign = 64"
definition ExtKeyUsageServerAuth :: int where "ExtKeyUsageServerAuth = 1"

definition randomSerial :: "('s, 'key) Env \<Rightarrow> ('s, int) io" where
  "randomSerial env = io_wrap ''generate serial'' (rand_Int env (push_bit 128 1))"

definition caTemplate :: "string \<Rightarrow> int \<Rightarrow> time \<Rightarrow> time \<Rightarrow> Certificate" where
  "caTemplate serviceName serial t1 t2 =
     \<lparr>SerialNumber = serial, Subject = \<lparr>CommonName = serviceName @ ''-ca'', Organization = [''kompakt'']\<rparr>,
      DNSNames = [], NotBefore = t1, NotAfter = Add t2 caLifetime,
      KeyUsage = or KeyUsageCertSign KeyUsageCRLSign, ExtKeyUsage = [], IsCA = True, BasicConstraintsValid = True\<rparr>"

definition server_dnsNames :: "string \<Rightarrow> string \<Rightarrow> string list" where
  "server_dnsNames serviceName namespace =
     [serviceName, serviceName @ ''.'' @ namespace @ ''.svc'', serviceName @ ''.'' @ namespace @ ''.svc.cluster.local'']"

definition serverTemplate :: "string list \<Rightarrow> int \<Rightarrow> time \<Rightarrow> time \<Rightarrow> Certificate" where
  "serverTemplate dnsNames serial t1 t2 =
     \<lparr>SerialNumber = serial, Subject = \<lparr>CommonName = dnsNames ! 1, Organization = []\<rparr>,
      DNSNames = dnsNames, NotBefore = t1, NotAfter = Add t2 certLifetime,
      KeyUsage = or KeyUsageDigitalSignature KeyUsageKeyEncipherment, ExtKeyUsage = [ExtKeyUsageServerAuth],
      IsCA = False, BasicConstraintsValid = False\<rparr>"

definition GenerateCerts :: "('s, 'key) Env \<Rightarrow> string \<Rightarrow> string \<Rightarrow> ('s, bytes \<times> bytes \<times> bytes) io" where
  "GenerateCerts env serviceName namespace =
     io_bind (io_wrap ''generate CA key'' (GenerateKey env)) (\<lambda>caKey.
     io_bind (randomSerial env) (\<lambda>caSerial.
     io_bind (io_read (Now env)) (\<lambda>t1.
     io_bind (io_read (Now env)) (\<lambda>t2.
     let caTmpl = caTemplate serviceName caSerial t1 t2 in
     io_bind (io_wrap ''create CA cert'' (CreateCertificate env caTmpl caTmpl caKey caKey)) (\<lambda>caDER.
     io_bind (io_wrap ''parse CA cert'' (io_lift (ParseCertificate env caDER))) (\<lambda>caCert.
     let caPEM = EncodeToMemory env ''CERTIFICATE'' caDER in
     io_bind (io_wrap ''generate server key'' (GenerateKey env)) (\<lambda>serverKey.
     io_bind (randomSerial env) (\<lambda>serverSerial.
     io_bind (io_read (Now env)) (\<lambda>t3.
     io_bind (io_read (Now env)) (\<lambda>t4.
     let serverTmpl = serverTemplate (server_dnsNames serviceName namespace) serverSerial t3 t4 in
     io_bind (io_wrap ''create server cert'' (CreateCertificate env serverTmpl caCert serverKey caKey)) (\<lambda>serverDER.
     let certPEM = EncodeToMemory env ''CERTIFICATE'' serverDER in
     io_bind (io_wrap ''marshal server key'' (io_lift (MarshalECPrivateKey env serverKey))) (\<lambda>keyDER.
     let keyPEM = EncodeToMemory env ''EC PRIVATE KEY'' keyDER in
     io_return (caPEM, certPEM, keyPEM)))))))))))))"

fun san_match :: "string \<Rightarrow> string list \<Rightarrow> bool" where
  "san_match expectedDNS [] = False"
| "san_match expectedDNS (dns # names) = (if dns = expectedDNS then True else san_match expectedDNS names)"

text \<open>\<^verbatim>\<open>time.Duration(float64(lifetime) * rotateAt)\<close>: a double keeps the sign, the conversion truncates.\<close>

definition scale_rotateAt :: "duration \<Rightarrow> duration" where
  "scale_rotateAt lifetime =
     (let m = double_to_uint (double_mult (to_double (nat \<bar>sint lifetime\<bar>) 1) rotateAt)
      in if 0 \<le> sint lifetime then word_of_nat m else - word_of_nat m)"

definition renewAt :: "Certificate \<Rightarrow> time" where
  "renewAt cert = (let lifetime = Sub (NotAfter cert) (NotBefore cert) in Add (NotBefore cert) (scale_rotateAt lifetime))"

definition certsValid :: "('s, 'key) Env \<Rightarrow> CertProvisioner \<Rightarrow> Secret \<Rightarrow> ('s, bool) io" where
  "certsValid env p secret =
     (let certPEM = mget [] (secret_Data secret) ''tls.crt'' in
      if length certPEM = 0 \<or> length (mget [] (secret_Data secret) ''tls.key'') = 0
         \<or> length (mget [] (secret_Data secret) ''ca.crt'') = 0
      then io_return False
      else
        (case pem_Decode env certPEM of
           None \<Rightarrow> io_return False
         | Some (_, der) \<Rightarrow>
             (case ParseCertificate env der of
                Inl _ \<Rightarrow> io_return False
              | Inr cert \<Rightarrow>
                  let expectedDNS = ServiceName (cfg p) @ ''.'' @ cfg_Namespace (cfg p) @ ''.svc'' in
                  if \<not> san_match expectedDNS (DNSNames cert) then io_return False
                  else io_bind (io_read (Now env)) (\<lambda>now. io_return (now < renewAt cert)))))"

definition upsertSecret :: "('s, 'key) Env \<Rightarrow> CertProvisioner \<Rightarrow> bytes \<Rightarrow> bytes \<Rightarrow> bytes \<Rightarrow> ('s, unit) io" where
  "upsertSecret env p caPEM certPEM keyPEM =
     (let secret =
        \<lparr>secret_Name = SecretName (cfg p), secret_Namespace = cfg_Namespace (cfg p), secret_Type = ''kubernetes.io/tls'',
         secret_Data = [(''tls.crt'', certPEM), (''tls.key'', keyPEM), (''ca.crt'', caPEM)]\<rparr>
      in io_bind (io_try (secret_get env (cfg_Namespace (cfg p)) (SecretName (cfg p)))) (\<lambda>r.
           case r of
             Inl e \<Rightarrow>
               if io_IsNotFound e then secret_create env (cfg_Namespace (cfg p)) secret else io_fail e
           | Inr existing \<Rightarrow>
               secret_update env (cfg_Namespace (cfg p)) (existing\<lparr>secret_Data := secret_Data secret\<rparr>)))"

definition writeFiles :: "('s, 'key) Env \<Rightarrow> CertProvisioner \<Rightarrow> bytes \<Rightarrow> bytes \<Rightarrow> ('s, unit) io" where
  "writeFiles env p certPEM keyPEM =
     io_bind (MkdirAll env (CertDir (cfg p)) 448) (\<lambda>_.
     io_bind (WriteFile env (filepath_Join (CertDir (cfg p)) ''tls.crt'') certPEM 384) (\<lambda>_.
     WriteFile env (filepath_Join (CertDir (cfg p)) ''tls.key'') keyPEM 384))"

definition patchWebhookCABundle :: "('s, 'key) Env \<Rightarrow> CertProvisioner \<Rightarrow> bytes \<Rightarrow> ('s, unit) io" where
  "patchWebhookCABundle env p caPEM =
     io_bind (io_wrap ''get webhook config'' (mwc_get env (WebhookConfigName (cfg p)))) (\<lambda>mwc.
     mwc_update env (mwc\<lparr>Webhooks := map (\<lambda>w. w\<lparr>CABundle := caPEM\<rparr>) (Webhooks mwc)\<rparr>))"

definition provision :: "('s, 'key) Env \<Rightarrow> CertProvisioner \<Rightarrow> ('s, unit) io" where
  "provision env p =
     io_bind (io_wrap ''generate certs'' (GenerateCerts env (ServiceName (cfg p)) (cfg_Namespace (cfg p))))
       (\<lambda>(caPEM, certPEM, keyPEM).
     io_bind (io_wrap ''upsert secret'' (upsertSecret env p caPEM certPEM keyPEM)) (\<lambda>_.
     io_bind (io_wrap ''write cert files'' (writeFiles env p certPEM keyPEM)) (\<lambda>_.
     io_wrap ''patch webhook caBundle'' (patchWebhookCABundle env p caPEM))))"

definition ensureCerts :: "('s, 'key) Env \<Rightarrow> CertProvisioner \<Rightarrow> ('s, unit) io" where
  "ensureCerts env p =
     io_bind (io_try (secret_get env (cfg_Namespace (cfg p)) (SecretName (cfg p)))) (\<lambda>r.
       case r of
         Inl e \<Rightarrow> if io_IsNotFound e then provision env p else io_fail (Errorf ''get secret'' e)
       | Inr secret \<Rightarrow>
           io_bind (certsValid env p secret) (\<lambda>valid.
             if \<not> valid then provision env p
             else io_wrap ''write cert files''
                    (writeFiles env p (mget [] (secret_Data secret) ''tls.crt'') (mget [] (secret_Data secret) ''tls.key''))))"

definition EnsureCerts :: "('s, 'key) Env \<Rightarrow> CertProvisioner \<Rightarrow> ('s, unit) io" where
  "EnsureCerts env p = ensureCerts env p"

text \<open>The background loop of \<^verbatim>\<open>Start\<close> over the events its \<^verbatim>\<open>select\<close> receives: the first component of the
  result says whether it has returned.\<close>

datatype start_event = CtxDone | TickerC

fun Start :: "('s, 'key) Env \<Rightarrow> CertProvisioner \<Rightarrow> start_event list \<Rightarrow> 's \<Rightarrow> bool \<times> 's" where
  "Start env p [] s = (False, s)"
| "Start env p (CtxDone # evs) s = (True, s)"
| "Start env p (TickerC # evs) s = Start env p evs (snd (ensureCerts env p s))"

definition ReadyzCheck :: "('s, 'key) Env \<Rightarrow> CertProvisioner \<Rightarrow> ('s, unit) io" where
  "ReadyzCheck env p =
     (let certPath = filepath_Join (CertDir (cfg p)) ''tls.crt'';
          keyPath = filepath_Join (CertDir (cfg p)) ''tls.key''
      in io_bind (io_wrap ''cert file not found'' (ReadFile env certPath)) (\<lambda>certPEM.
         io_bind (io_wrap ''key file not found'' (ReadFile env keyPath)) (\<lambda>keyPEM.
         io_bind (io_wrap ''invalid cert/key pair'' (io_lift (X509KeyPair env certPEM keyPEM))) (\<lambda>cert.
         io_bind (if cert = [] then io_fail Panic
                  else io_wrap ''cannot parse cert'' (io_lift (ParseCertificate env (cert ! 0)))) (\<lambda>leaf.
         io_bind (io_read (Now env)) (\<lambda>now.
         if NotAfter leaf < now then io_fail (CertExpired (NotAfter leaf)) else io_return ()))))))"

definition DetectNamespace :: "io_error + bytes \<Rightarrow> string \<Rightarrow> string" where
  "DetectNamespace mounted env_POD_NAMESPACE =
     (let fallback = (if env_POD_NAMESPACE \<noteq> '''' then env_POD_NAMESPACE else ''kompakt-system'')
      in case mounted of
           Inr ns \<Rightarrow> if ns \<noteq> '''' then ns else fallback
         | Inl _ \<Rightarrow> fallback)"

text \<open>The configuration \<^verbatim>\<open>main\<close> builds (\<^verbatim>\<open>src/cmd/manager/main.go\<close>).\<close>

definition certDir :: string where
  "certDir = ''/tmp/k8s-webhook-server/serving-certs''"

definition main_certConfig :: "io_error + bytes \<Rightarrow> string \<Rightarrow> Config" where
  "main_certConfig mounted env_POD_NAMESPACE =
     \<lparr>cfg_Namespace = DetectNamespace mounted env_POD_NAMESPACE, ServiceName = ''kompakt-controller'',
      SecretName = ''kompakt-webhook-certs'', WebhookConfigName = ''kompakt-webhook'', CertDir = certDir\<rparr>"

section \<open>Reasoning about actions\<close>

named_theorems io_simps

lemma io_bind_Inr [io_simps]:
  "io_bind m f s = (Inr y, s'') \<longleftrightarrow> (\<exists>x s'. m s = (Inr x, s') \<and> f x s' = (Inr y, s''))"
  by (auto simp: io_bind_def split: prod.splits sum.splits)

lemma io_bind_Inl [io_simps]:
  "io_bind m f s = (Inl e, s'') \<longleftrightarrow> m s = (Inl e, s'') \<or> (\<exists>x s'. m s = (Inr x, s') \<and> f x s' = (Inl e, s''))"
  by (auto simp: io_bind_def split: prod.splits sum.splits)

lemma io_wrap_Inr [io_simps]: "io_wrap t m s = (Inr x, s') \<longleftrightarrow> m s = (Inr x, s')"
  by (auto simp: io_wrap_def split: prod.splits sum.splits)

lemma io_wrap_Inl [io_simps]: "io_wrap t m s = (Inl e, s') \<longleftrightarrow> (\<exists>e'. e = Errorf t e' \<and> m s = (Inl e', s'))"
  by (auto simp: io_wrap_def split: prod.splits sum.splits)

lemma io_try_eq [io_simps]: "io_try m s = (r, s') \<longleftrightarrow> (\<exists>r'. r = Inr r' \<and> m s = (r', s'))"
  by (auto simp: io_try_def split: prod.splits)

lemma io_lift_eq [io_simps]: "io_lift r s = (r', s') \<longleftrightarrow> r' = r \<and> s' = s"
  by (auto simp: io_lift_def)

lemma io_read_eq [io_simps]: "io_read m s = (r, s') \<longleftrightarrow> (\<exists>x. r = Inr x \<and> m s = (x, s'))"
  by (auto simp: io_read_def split: prod.splits)

lemma io_return_eq [io_simps]: "io_return x s = (r, s') \<longleftrightarrow> r = Inr x \<and> s' = s"
  by (auto simp: io_return_def)

lemma io_fail_eq [io_simps]: "io_fail e s = (r, s') \<longleftrightarrow> r = Inl e \<and> s' = s"
  by (auto simp: io_fail_def)

section \<open>The two files\<close>

lemma Split_append: "Split (s @ sep # t) sep = Split s sep @ Split t sep"
proof (induction s)
  case Nil
  then show ?case by simp
next
  case (Cons c s)
  then show ?case by (cases "Split s sep") (auto split: list.splits)
qed

lemma Join_snoc: "Join (ws @ [w]) sep = (if ws = [] then w else Join ws sep @ sep @ w)"
proof (induction ws)
  case Nil
  then show ?case by simp
next
  case (Cons v ws)
  then show ?case by (cases ws) auto
qed

lemma HasPrefix_single: "HasPrefix s [c] \<longleftrightarrow> s \<noteq> [] \<and> hd s = c"
  by (cases s) (auto simp: HasPrefix_def)

text \<open>A plain file name is kept as the last element of the joined path.\<close>

definition plain_file :: "string \<Rightarrow> bool" where
  "plain_file f \<longleftrightarrow> f \<notin> {'''', ''.'', ''..''} \<and> CHR ''/'' \<notin> set f"

lemma filepath_Join_file:
  assumes "plain_file f"
  shows "\<exists>pre. filepath_Join dir f = pre @ f \<and> (\<forall>g. plain_file g \<longrightarrow> filepath_Join dir g = pre @ g)"
proof (cases "dir = ''''")
  case True
  have "filepath_Join dir g = g" if "plain_file g" for g
    using that True
    by (cases g) (auto simp: filepath_Join_def Clean_def plain_file_def Split_no_sep HasPrefix_single)
  with assms show ?thesis by (intro exI [of _ "''''"]) simp
next
  case False
  let ?rooted = "HasPrefix dir ''/''"
  let ?ws = "foldl (clean_elem ?rooted) [] (Split dir CHR ''/'')"
  let ?pre = "(if ?rooted then ''/'' else '''') @ (if ?ws = [] then '''' else Join ?ws ''/'' @ ''/'')"
  have "filepath_Join dir g = ?pre @ g" if "plain_file g" for g
  proof -
    have "Split (dir @ CHR ''/'' # g) CHR ''/'' = Split dir CHR ''/'' @ [g]"
      using that by (simp add: Split_append Split_no_sep plain_file_def)
    moreover have "HasPrefix (dir @ ''/'' @ g) ''/'' = ?rooted"
      using False by (simp add: HasPrefix_single)
    moreover have "g \<noteq> ''''" "clean_elem ?rooted ?ws g = ?ws @ [g]"
      using that by (auto simp: plain_file_def)
    ultimately show ?thesis
      using False by (simp add: filepath_Join_def Clean_def Join_snoc del: clean_elem.simps)
  qed
  with assms show ?thesis by blast
qed

lemma cert_paths_differ: "filepath_Join dir ''tls.crt'' \<noteq> filepath_Join dir ''tls.key''"
proof -
  have plain: "plain_file ''tls.crt''" "plain_file ''tls.key''" by (simp_all add: plain_file_def)
  obtain pre where "filepath_Join dir ''tls.crt'' = pre @ ''tls.crt''" "filepath_Join dir ''tls.key'' = pre @ ''tls.key''"
    using filepath_Join_file [OF plain(1)] plain(2) by blast
  then show ?thesis by simp
qed

section \<open>The renewal time\<close>

lemma scale_rotateAt_bounds:
  assumes "0 \<le> sint d"
  shows "79 * sint d - 100 \<le> 100 * sint (scale_rotateAt d)" and "100 * sint (scale_rotateAt d) \<le> 81 * sint d"
proof -
  define z where "z = sint d"
  define m where "m = double_to_uint (double_mult (to_double (nat z) 1) (to_double 80 100))"
  have z: "0 \<le> z" "z < 2 ^ 63" using assms sint_int64_upper [of d] by (simp_all add: z_def)
  have n: "real (nat z) = real_of_int z" using z by simp
  have m: "real m \<le> real_of_int z * (80 / 100) * (1 + 1 / 10 ^ 6)"
    "real_of_int z * (80 / 100) * (1 - 1 / 10 ^ 6) - 1 < real m"
    using scaled_double_bounds [of 100 "nat z" 80] unfolding m_def n by simp_all
  have pos: "0 \<le> real_of_int z" using z by simp
  have "real_of_int (100 * int m) \<le> real_of_int (81 * z)" using m(1) pos by simp
  then have up: "100 * int m \<le> 81 * z" by (simp only: of_int_le_iff)
  have "real_of_int (79 * z - 100) \<le> real_of_int (100 * int m)" using m(2) pos by simp
  then have lo: "79 * z - 100 \<le> 100 * int m" by (simp only: of_int_le_iff)
  have "int m < 2 ^ 63" using up z by simp
  then have "sint (word_of_nat m :: int64) = int m"
    using sint_word_of_int_exact [of "int m"] by (simp add: in_int64_def)
  moreover have "scale_rotateAt d = word_of_nat m"
    using assms by (simp add: scale_rotateAt_def rotateAt_def m_def z_def)
  ultimately show "79 * sint d - 100 \<le> 100 * sint (scale_rotateAt d)" "100 * sint (scale_rotateAt d) \<le> 81 * sint d"
    using up lo unfolding z_def by simp_all
qed

lemma renewAt_bounds:
  assumes "NotBefore c \<le> NotAfter c"
  shows "100 * (renewAt c - NotBefore c) \<le> 81 * (NotAfter c - NotBefore c)"
    and "79 * min (2 ^ 63 - 1) (NotAfter c - NotBefore c) - 100 \<le> 100 * (renewAt c - NotBefore c)"
proof -
  let ?d = "Sub (NotAfter c) (NotBefore c)"
  have d: "sint ?d = min (2 ^ 63 - 1) (NotAfter c - NotBefore c)" using assms by (simp add: sint_Sub)
  then have "0 \<le> sint ?d" using assms by simp
  note b = scale_rotateAt_bounds [OF this]
  have r: "renewAt c - NotBefore c = sint (scale_rotateAt ?d)" by (simp add: renewAt_def Let_def Add_def)
  have "sint ?d \<le> NotAfter c - NotBefore c" unfolding d by (rule min.cobounded2)
  then have "81 * sint ?d \<le> 81 * (NotAfter c - NotBefore c)" by simp
  with b(2) show "100 * (renewAt c - NotBefore c) \<le> 81 * (NotAfter c - NotBefore c)" unfolding r by (rule order.trans)
  show "79 * min (2 ^ 63 - 1) (NotAfter c - NotBefore c) - 100 \<le> 100 * (renewAt c - NotBefore c)"
    using b(1) unfolding r d .
qed

text \<open>What a check of the Secret says, for a certificate that can be read.\<close>

lemma certsValid_True:
  assumes "certsValid env p secret s = (Inr True, s')"
  obtains ty der c now where "pem_Decode env (mget [] (secret_Data secret) ''tls.crt'') = Some (ty, der)"
    "ParseCertificate env der = Inr c" "Now env s = (now, s')" "now < renewAt c"
    "ServiceName (cfg p) @ ''.'' @ cfg_Namespace (cfg p) @ ''.svc'' \<in> set (DNSNames c)"
proof -
  have "san_match e ns \<longleftrightarrow> e \<in> set ns" for e ns by (induction ns) auto
  then show thesis
    using assms that
    by (auto simp: certsValid_def Let_def io_simps split: if_splits option.splits sum.splits prod.splits)
qed

end
