(* ===== verification/CertgenProps.thy ===== *)
theory CertgenProps
  imports Certgen
begin

text \<open>
  What the provisioner achieves, given what is documented of the code it calls: the API server and the
  file system have stored what they were given when they report success, and when they report an error may or may not have
  stored it (\<open>store_laws\<close>); PEM and X.509 read back what they wrote, times to the second (\<open>codec_laws\<close>); and
  the clock does not run backwards (\<open>steady\<close>, \<open>clocked\<close>). The properties follow the four stages of \<^verbatim>\<open>provision\<close>, the validity check with its
  rotation at 80 per cent of the lifetime, and the state that \<^verbatim>\<open>ensureCerts\<close> leaves behind.
\<close>

section \<open>What is known of the outside world\<close>

record 's View =
  v_secret :: "'s \<Rightarrow> string \<Rightarrow> string \<Rightarrow> Secret option"
  v_file :: "'s \<Rightarrow> string \<Rightarrow> bytes option"
  v_mwc :: "'s \<Rightarrow> string \<Rightarrow> MutatingWebhookConfiguration option"

definition seen :: "'s View \<Rightarrow> 's \<Rightarrow>
    (string \<Rightarrow> string \<Rightarrow> Secret option) \<times> (string \<Rightarrow> bytes option) \<times> (string \<Rightarrow> MutatingWebhookConfiguration option)" where
  "seen v s = (v_secret v s, v_file v s, v_mwc v s)"

text \<open>An action that stores nothing.\<close>

definition silent :: "'s View \<Rightarrow> ('s, 'a) io \<Rightarrow> bool" where
  "silent v m \<longleftrightarrow> (\<forall>s r s'. m s = (r, s') \<longrightarrow> seen v s' = seen v s)"

definition put_secret :: "string \<Rightarrow> Secret \<Rightarrow> (string \<Rightarrow> string \<Rightarrow> Secret option) \<Rightarrow> string \<Rightarrow> string \<Rightarrow> Secret option" where
  "put_secret ns sec f = f(ns := (f ns)(secret_Name sec \<mapsto> sec))"

text \<open>
  A write that succeeds has stored the object. A write that fails is not known to have had no effect: the error may be a
  timeout after the server has stored it.
\<close>

definition secret_laws :: "('s, 'key) Env \<Rightarrow> 's View \<Rightarrow> bool" where
  "secret_laws env v \<longleftrightarrow>
     (\<forall>ns n. silent v (secret_get env ns n)) \<and>
     (\<forall>ns n s r s'. secret_get env ns n s = (r, s') \<longrightarrow>
        (case r of Inr sec \<Rightarrow> v_secret v s ns n = Some sec \<and> secret_Name sec = n
         | Inl e \<Rightarrow> io_IsNotFound e \<longrightarrow> v_secret v s ns n = None)) \<and>
     (\<forall>ns sec s r s'. secret_create env ns sec s = (r, s') \<or> secret_update env ns sec s = (r, s') \<longrightarrow>
        seen v s' = (put_secret ns sec (v_secret v s), v_file v s, v_mwc v s) \<or> seen v s' = seen v s \<and> (\<exists>e. r = Inl e))"

definition mwc_laws :: "('s, 'key) Env \<Rightarrow> 's View \<Rightarrow> bool" where
  "mwc_laws env v \<longleftrightarrow>
     (\<forall>n. silent v (mwc_get env n)) \<and>
     (\<forall>n s mwc s'. mwc_get env n s = (Inr mwc, s') \<longrightarrow> v_mwc v s n = Some mwc \<and> mwc_Name mwc = n) \<and>
     (\<forall>mwc s r s'. mwc_update env mwc s = (r, s') \<longrightarrow>
        seen v s' = (v_secret v s, v_file v s, (v_mwc v s)(mwc_Name mwc \<mapsto> mwc)) \<or> seen v s' = seen v s \<and> (\<exists>e. r = Inl e))"

definition file_laws :: "('s, 'key) Env \<Rightarrow> 's View \<Rightarrow> bool" where
  "file_laws env v \<longleftrightarrow>
     (\<forall>dir perm. silent v (MkdirAll env dir perm)) \<and>
     (\<forall>path data perm s r s'. WriteFile env path data perm s = (r, s') \<longrightarrow>
        v_secret v s' = v_secret v s \<and> v_mwc v s' = v_mwc v s \<and> (\<forall>q. q \<noteq> path \<longrightarrow> v_file v s' q = v_file v s q) \<and>
        (\<forall>u. r = Inr u \<longrightarrow> v_file v s' path = Some data)) \<and>
     (\<forall>path s r s'. ReadFile env path s = (r, s') \<longrightarrow>
        seen v s' = seen v s \<and> (\<forall>data. v_file v s path = Some data \<longrightarrow> r = Inr data))"

definition crypto_silent :: "('s, 'key) Env \<Rightarrow> 's View \<Rightarrow> bool" where
  "crypto_silent env v \<longleftrightarrow> silent v (io_read (Now env)) \<and> silent v (GenerateKey env) \<and>
     (\<forall>n. silent v (rand_Int env n)) \<and> (\<forall>t c k k'. silent v (CreateCertificate env t c k k'))"

definition store_laws :: "('s, 'key) Env \<Rightarrow> 's View \<Rightarrow> bool" where
  "store_laws env v \<longleftrightarrow> secret_laws env v \<and> mwc_laws env v \<and> file_laws env v \<and> crypto_silent env v"

text \<open>A certificate is read back with its names and, to the second, its times.\<close>

definition codec_laws :: "('s, 'key) Env \<Rightarrow> bool" where
  "codec_laws env \<longleftrightarrow>
     (\<forall>ty \<in> {''CERTIFICATE'', ''EC PRIVATE KEY''}. \<forall>b.
        EncodeToMemory env ty b \<noteq> [] \<and> pem_Decode env (EncodeToMemory env ty b) = Some (ty, b)) \<and>
     (\<forall>tmpl parent pub priv s der s'. CreateCertificate env tmpl parent pub priv s = (Inr der, s') \<longrightarrow>
        (\<exists>c. ParseCertificate env der = Inr c \<and> DNSNames c = DNSNames tmpl \<and>
             NotBefore c \<le> NotBefore tmpl \<and> NotBefore tmpl < NotBefore c + 10 ^ 9 \<and>
             NotAfter c \<le> NotAfter tmpl \<and> NotAfter tmpl < NotAfter c + 10 ^ 9))"

definition steady :: "('s, 'key) Env \<Rightarrow> bool" where
  "steady env \<longleftrightarrow> (\<forall>s t s' t' s''. Now env s = (t, s') \<and> Now env s' = (t', s'') \<longrightarrow> t \<le> t')"

text \<open>The time of the world: a reading returns it, and no action of a generation turns it back.\<close>

definition forward :: "('s \<Rightarrow> time) \<Rightarrow> ('s, 'a) io \<Rightarrow> bool" where
  "forward clock m \<longleftrightarrow> (\<forall>s r s'. m s = (r, s') \<longrightarrow> clock s \<le> clock s')"

definition clocked :: "('s, 'key) Env \<Rightarrow> ('s \<Rightarrow> time) \<Rightarrow> bool" where
  "clocked env clock \<longleftrightarrow> (\<forall>s. fst (Now env s) = clock s) \<and> forward clock (io_read (Now env)) \<and>
     forward clock (GenerateKey env) \<and> (\<forall>n. forward clock (rand_Int env n)) \<and>
     (\<forall>t c k k'. forward clock (CreateCertificate env t c k k'))"

section \<open>Silent actions\<close>

lemma silentD: "silent v m \<Longrightarrow> m s = (r, s') \<Longrightarrow> seen v s' = seen v s"
  by (simp add: silent_def)

lemma silentI: "(\<And>s. seen v (snd (m s)) = seen v s) \<Longrightarrow> silent v m"
  by (auto simp: silent_def) (metis snd_conv)

lemma silent_snd: "silent v m \<Longrightarrow> seen v (snd (m s)) = seen v s"
  using silentD [of v m s "fst (m s)"] by simp

lemma silent_bind: "silent v m \<Longrightarrow> (\<And>x. silent v (f x)) \<Longrightarrow> silent v (io_bind m f)"
proof (rule silentI)
  fix s assume m: "silent v m" and f: "\<And>x. silent v (f x)"
  show "seen v (snd (io_bind m f s)) = seen v s"
    using silent_snd [OF m, of s] silent_snd [OF f]
    by (auto simp: io_bind_def split: prod.split sum.split)
qed

lemma snd_io [simp]:
  "snd (io_return x s) = s" "snd (io_fail e s) = s" "snd (io_lift r s) = s"
  "snd (io_wrap t m s) = snd (m s)" "snd (io_try m s) = snd (m s)"
  by (auto simp: io_return_def io_fail_def io_lift_def io_wrap_def io_try_def split: prod.split sum.split)

lemma silent_simps [simp]:
  "silent v (io_return x)" "silent v (io_fail e)" "silent v (io_lift r)"
  "silent v m \<Longrightarrow> silent v (io_wrap t m)" "silent v m \<Longrightarrow> silent v (io_try m)"
  by (rule silentI, simp add: silent_snd)+

lemmas law_defs = store_laws_def secret_laws_def mwc_laws_def file_laws_def crypto_silent_def

lemma silent_ops:
  assumes "store_laws env v"
  shows "silent v (secret_get env ns n)" "silent v (mwc_get env n)" "silent v (MkdirAll env dir perm)"
    "silent v (io_read (Now env))"
  using assms by (simp_all add: law_defs)

lemma secret_get_law:
  assumes "store_laws env v" and "secret_get env ns n s = (r, s')"
  shows "r = Inr sec \<Longrightarrow> v_secret v s ns n = Some sec \<and> secret_Name sec = n"
    and "r = Inl e \<Longrightarrow> io_IsNotFound e \<Longrightarrow> v_secret v s ns n = None"
proof -
  have "case r of Inr sec \<Rightarrow> v_secret v s ns n = Some sec \<and> secret_Name sec = n
      | Inl e \<Rightarrow> io_IsNotFound e \<longrightarrow> v_secret v s ns n = None"
    using assms unfolding store_laws_def secret_laws_def by blast
  then show "r = Inr sec \<Longrightarrow> v_secret v s ns n = Some sec \<and> secret_Name sec = n"
    and "r = Inl e \<Longrightarrow> io_IsNotFound e \<Longrightarrow> v_secret v s ns n = None" by auto
qed

lemma silent_GenerateCerts: "store_laws env v \<Longrightarrow> silent v (GenerateCerts env n ns)"
  unfolding GenerateCerts_def randomSerial_def Let_def law_defs by (intro silent_bind) simp_all

lemma silent_certsValid: "store_laws env v \<Longrightarrow> silent v (certsValid env p sec)"
  unfolding certsValid_def Let_def law_defs by (auto intro!: silent_bind split: option.split sum.split)

lemma certsValid_no_error: "certsValid env p sec s \<noteq> (Inl e, s')"
  by (auto simp: certsValid_def Let_def io_simps split: option.split sum.split)

lemma seen_iff: "seen v s' = seen v s \<longleftrightarrow> v_secret v s' = v_secret v s \<and> v_file v s' = v_file v s \<and> v_mwc v s' = v_mwc v s"
  by (simp add: seen_def)

section \<open>The stages of a provision\<close>

definition cert_data :: "bytes \<Rightarrow> bytes \<Rightarrow> bytes \<Rightarrow> (string, bytes) gmap" where
  "cert_data ca cert key = [(''tls.crt'', cert), (''tls.key'', key), (''ca.crt'', ca)]"

text \<open>The Secret of the provisioner holds these three files; nothing else changed among the Secrets.\<close>

definition secret_issued :: "'s View \<Rightarrow> CertProvisioner \<Rightarrow> bytes \<Rightarrow> bytes \<Rightarrow> bytes \<Rightarrow> 's \<Rightarrow> 's \<Rightarrow> bool" where
  "secret_issued v p ca cert key s s' \<longleftrightarrow>
     (\<exists>sec. secret_Name sec = SecretName (cfg p) \<and> secret_Data sec = cert_data ca cert key \<and>
            v_secret v s' = put_secret (cfg_Namespace (cfg p)) sec (v_secret v s))"

definition files_hold :: "'s View \<Rightarrow> CertProvisioner \<Rightarrow> bytes \<Rightarrow> bytes \<Rightarrow> 's \<Rightarrow> bool" where
  "files_hold v p cert key s \<longleftrightarrow>
     v_file v s (filepath_Join (CertDir (cfg p)) ''tls.crt'') = Some cert \<and>
     v_file v s (filepath_Join (CertDir (cfg p)) ''tls.key'') = Some key"

definition bundle_installed :: "'s View \<Rightarrow> CertProvisioner \<Rightarrow> bytes \<Rightarrow> 's \<Rightarrow> bool" where
  "bundle_installed v p ca s \<longleftrightarrow>
     (\<exists>mwc. v_mwc v s (WebhookConfigName (cfg p)) = Some mwc \<and> (\<forall>w \<in> set (Webhooks mwc). CABundle w = ca))"

lemma upsertSecret_effect:
  assumes laws: "store_laws env v" and run: "upsertSecret env p ca cert key s = (r, s')"
  shows "v_file v s' = v_file v s \<and> v_mwc v s' = v_mwc v s \<and>
    (secret_issued v p ca cert key s s' \<or> v_secret v s' = v_secret v s \<and> (\<exists>e. r = Inl e))"
proof -
  let ?ns = "cfg_Namespace (cfg p)" and ?n = "SecretName (cfg p)"
  obtain r0 s0 where g: "secret_get env ?ns ?n s = (r0, s0)" by (cases "secret_get env ?ns ?n s")
  have seen0: "seen v s0 = seen v s" by (rule silentD [OF silent_ops(1) [OF laws] g])
  have put: ?thesis
    if sec: "secret_Name sec = ?n" "secret_Data sec = cert_data ca cert key"
      and st: "secret_create env ?ns sec s0 = (r, s') \<or> secret_update env ?ns sec s0 = (r, s')" for sec
  proof -
    have "seen v s' = (put_secret ?ns sec (v_secret v s0), v_file v s0, v_mwc v s0) \<or> seen v s' = seen v s0 \<and> (\<exists>e. r = Inl e)"
      using laws st unfolding store_laws_def secret_laws_def by blast
    then show ?thesis
      using sec seen0 by (auto simp: seen_def secret_issued_def)
  qed
  show ?thesis
  proof (cases r0)
    case (Inl e)
    show ?thesis
    proof (cases "io_IsNotFound e")
      case True
      then show ?thesis
        using run g Inl
        by (intro put) (auto simp: upsertSecret_def Let_def io_bind_def io_try_def cert_data_def)
    next
      case False
      then have "r = Inl e \<and> s' = s0"
        using run g Inl by (auto simp: upsertSecret_def Let_def io_bind_def io_try_def io_fail_def)
      with seen0 show ?thesis by (simp add: seen_iff)
    qed
  next
    case (Inr old)
    then have "secret_Name old = ?n" using secret_get_law(1) [OF laws g] by blast
    then show ?thesis
      using put [of "old\<lparr>secret_Data := cert_data ca cert key\<rparr>"] run g Inr
      by (auto simp: upsertSecret_def Let_def io_bind_def io_try_def cert_data_def)
  qed
qed

text \<open>What may have become of the files if they could not all be written: only the two are touched, the key after the certificate.\<close>

definition files_begun :: "'s View \<Rightarrow> CertProvisioner \<Rightarrow> bytes \<Rightarrow> 's \<Rightarrow> 's \<Rightarrow> bool" where
  "files_begun v p cert s s' \<longleftrightarrow>
     (let crt = filepath_Join (CertDir (cfg p)) ''tls.crt''; key = filepath_Join (CertDir (cfg p)) ''tls.key''
      in (\<forall>q. q \<noteq> crt \<longrightarrow> q \<noteq> key \<longrightarrow> v_file v s' q = v_file v s q) \<and>
         (v_file v s' key = v_file v s key \<or> v_file v s' crt = Some cert))"

lemma writeFiles_effect:
  assumes laws: "store_laws env v" and run: "writeFiles env p cert key s = (r, s')"
  shows "v_secret v s' = v_secret v s \<and> v_mwc v s' = v_mwc v s \<and> files_begun v p cert s s' \<and>
    (\<forall>u. r = Inr u \<longrightarrow> files_hold v p cert key s')"
proof -
  let ?crt = "filepath_Join (CertDir (cfg p)) ''tls.crt''" and ?key = "filepath_Join (CertDir (cfg p)) ''tls.key''"
  have stores: "v_secret v t' = v_secret v t \<and> v_mwc v t' = v_mwc v t \<and> (\<forall>q. q \<noteq> path \<longrightarrow> v_file v t' q = v_file v t q) \<and>
      (\<forall>u. r' = Inr u \<longrightarrow> v_file v t' path = Some data)" if "WriteFile env path data perm t = (r', t')" for path data perm t r' t'
    using laws that unfolding store_laws_def file_laws_def by blast
  obtain r0 s0 where m: "MkdirAll env (CertDir (cfg p)) 448 s = (r0, s0)"
    by (cases "MkdirAll env (CertDir (cfg p)) 448 s")
  have seen0: "seen v s0 = seen v s" by (rule silentD [OF silent_ops(3) [OF laws] m])
  show ?thesis
  proof (cases r0)
    case (Inl e)
    with run m seen0 show ?thesis by (auto simp: writeFiles_def io_bind_def seen_iff files_begun_def)
  next
    case (Inr u)
    obtain r1 s1 where w: "WriteFile env ?crt cert 384 s0 = (r1, s1)" by (cases "WriteFile env ?crt cert 384 s0")
    show ?thesis
    proof (cases r1)
      case (Inl e)
      with run m Inr w seen0 stores [OF w] cert_paths_differ [of "CertDir (cfg p)"] show ?thesis
        by (auto simp: writeFiles_def io_bind_def seen_iff files_begun_def Let_def)
    next
      case one: (Inr u')
      with run m Inr w have k: "WriteFile env ?key key 384 s1 = (r, s')" by (simp add: writeFiles_def io_bind_def)
      show ?thesis
        using stores [OF w] stores [OF k] one seen0 cert_paths_differ [of "CertDir (cfg p)"]
        by (auto simp: seen_iff files_hold_def files_begun_def Let_def)
    qed
  qed
qed

lemma patchWebhookCABundle_effect:
  assumes laws: "store_laws env v" and run: "patchWebhookCABundle env p ca s = (r, s')"
  shows "v_secret v s' = v_secret v s \<and> v_file v s' = v_file v s \<and>
    (bundle_installed v p ca s' \<or> v_mwc v s' = v_mwc v s \<and> (\<exists>e. r = Inl e))"
proof -
  obtain r0 s0 where g: "mwc_get env (WebhookConfigName (cfg p)) s = (r0, s0)"
    by (cases "mwc_get env (WebhookConfigName (cfg p)) s")
  have seen0: "seen v s0 = seen v s" by (rule silentD [OF silent_ops(2) [OF laws] g])
  show ?thesis
  proof (cases r0)
    case (Inl e)
    with run g seen0 show ?thesis by (auto simp: patchWebhookCABundle_def io_bind_def io_wrap_def seen_iff)
  next
    case (Inr mwc)
    let ?mwc' = "mwc\<lparr>Webhooks := map (\<lambda>w. w\<lparr>CABundle := ca\<rparr>) (Webhooks mwc)\<rparr>"
    have name: "mwc_Name mwc = WebhookConfigName (cfg p)"
      using laws g Inr unfolding store_laws_def mwc_laws_def by blast
    have "mwc_update env ?mwc' s0 = (r, s')"
      using run g Inr by (simp add: patchWebhookCABundle_def io_bind_def io_wrap_def)
    then have "seen v s' = (v_secret v s0, v_file v s0, (v_mwc v s0)(mwc_Name ?mwc' \<mapsto> ?mwc')) \<or> seen v s' = seen v s0 \<and> (\<exists>e. r = Inl e)"
      using laws unfolding store_laws_def mwc_laws_def by blast
    then show ?thesis
      using seen0 name by (auto simp: seen_def bundle_installed_def)
  qed
qed

text \<open>How far a provision has come, read off its result.\<close>

lemma wrapped_bindE:
  assumes "io_bind (io_wrap t a) f s = (r, s')"
  obtains (failed) e where "a s = (Inl e, s')" "r = Inl (Errorf t e)" | (passed) x s1 where "a s = (Inr x, s1)" "f x s1 = (r, s')"
  using assms by (auto simp: io_bind_def io_wrap_def split: sum.splits prod.splits)

lemma provision_run:
  assumes "provision env p s = (r, s')"
  obtains (generate) e where "GenerateCerts env (ServiceName (cfg p)) (cfg_Namespace (cfg p)) s = (Inl e, s')" "r = Inl (Errorf ''generate certs'' e)"
  | (upsert) ca cert key s0 e where "GenerateCerts env (ServiceName (cfg p)) (cfg_Namespace (cfg p)) s = (Inr (ca, cert, key), s0)"
      "upsertSecret env p ca cert key s0 = (Inl e, s')" "r = Inl (Errorf ''upsert secret'' e)"
  | (files) ca cert key s0 s1 e where "GenerateCerts env (ServiceName (cfg p)) (cfg_Namespace (cfg p)) s = (Inr (ca, cert, key), s0)"
      "upsertSecret env p ca cert key s0 = (Inr (), s1)" "writeFiles env p cert key s1 = (Inl e, s')" "r = Inl (Errorf ''write cert files'' e)"
  | (patch) ca cert key s0 s1 s2 r3 where "GenerateCerts env (ServiceName (cfg p)) (cfg_Namespace (cfg p)) s = (Inr (ca, cert, key), s0)"
      "upsertSecret env p ca cert key s0 = (Inr (), s1)" "writeFiles env p cert key s1 = (Inr (), s2)"
      "patchWebhookCABundle env p ca s2 = (r3, s')" "r = (case r3 of Inl e \<Rightarrow> Inl (Errorf ''patch webhook caBundle'' e) | Inr x \<Rightarrow> Inr x)"
  using assms unfolding provision_def
proof (cases rule: wrapped_bindE)
  case (passed x s0)
  obtain ca cert key where x: "x = (ca, cert, key)" by (cases x)
  note gen = passed(1) [unfolded x]
  from passed(2) [unfolded x prod.case] show thesis
  proof (cases rule: wrapped_bindE)
    case up: (passed x s1)
    from up(2) show thesis
    proof (cases rule: wrapped_bindE)
      case wr: (passed x s2)
      obtain r3 s3 where b: "patchWebhookCABundle env p ca s2 = (r3, s3)" by (cases "patchWebhookCABundle env p ca s2")
      with wr(2) show thesis by (intro patch [OF gen up(1) [simplified] wr(1) [simplified], of r3]) (auto simp: io_wrap_def split: sum.splits)
    qed (use files gen up(1) in simp)
  qed (use upsert gen in simp)
qed (use generate in simp)

lemma provision_cases:
  assumes laws: "store_laws env v" and run: "provision env p s = (r, s')"
  obtains
    (unchanged) e where "r = Inl (Errorf ''generate certs'' e)" "seen v s' = seen v s"
  | (unsure) ca cert key s0 e where "GenerateCerts env (ServiceName (cfg p)) (cfg_Namespace (cfg p)) s = (Inr (ca, cert, key), s0)"
      "r = Inl (Errorf ''upsert secret'' e)" "v_secret v s' = v_secret v s \<or> secret_issued v p ca cert key s s'"
      "v_file v s' = v_file v s" "v_mwc v s' = v_mwc v s"
  | (stored) ca cert key s0 e where "GenerateCerts env (ServiceName (cfg p)) (cfg_Namespace (cfg p)) s = (Inr (ca, cert, key), s0)"
      "r = Inl (Errorf ''write cert files'' e)" "secret_issued v p ca cert key s s'" "files_begun v p cert s s'" "v_mwc v s' = v_mwc v s"
  | (written) ca cert key s0 e where "GenerateCerts env (ServiceName (cfg p)) (cfg_Namespace (cfg p)) s = (Inr (ca, cert, key), s0)"
      "r = Inl (Errorf ''patch webhook caBundle'' e)" "secret_issued v p ca cert key s s'"
      "files_hold v p cert key s'" "v_mwc v s' = v_mwc v s \<or> bundle_installed v p ca s'"
  | (complete) ca cert key s0 where "GenerateCerts env (ServiceName (cfg p)) (cfg_Namespace (cfg p)) s = (Inr (ca, cert, key), s0)"
      "r = Inr ()" "secret_issued v p ca cert key s s'" "files_hold v p cert key s'" "bundle_installed v p ca s'"
proof -
  have silent: "seen v s0 = seen v s" if "GenerateCerts env (ServiceName (cfg p)) (cfg_Namespace (cfg p)) s = (x, s0)" for x s0
    by (rule silentD [OF silent_GenerateCerts [OF laws] that])
  note upserted = upsertSecret_effect [OF laws] and filed = writeFiles_effect [OF laws] and patched = patchWebhookCABundle_effect [OF laws]
  from run show thesis
  proof (cases rule: provision_run)
    case (generate e)
    show thesis by (rule unchanged [OF generate(2)]) (use silent [OF generate(1)] in simp_all)
  next
    case (upsert ca cert key s0 e)
    show thesis
      by (rule unsure [OF upsert(1,3)])
        (use silent [OF upsert(1)] upserted [OF upsert(2)] in \<open>auto simp: secret_issued_def seen_iff\<close>)
  next
    case (files ca cert key s0 s1 e)
    have "secret_issued v p ca cert key s s' \<and> files_begun v p cert s s' \<and> v_mwc v s' = v_mwc v s"
      using silent [OF files(1)] upserted [OF files(2)] filed [OF files(3)]
      by (auto simp: secret_issued_def seen_iff files_begun_def)
    with stored [OF files(1,4)] show thesis by blast
  next
    case (patch ca cert key s0 s1 s2 r3)
    have two: "secret_issued v p ca cert key s s2 \<and> v_mwc v s2 = v_mwc v s"
      using silent [OF patch(1)] upserted [OF patch(2)] filed [OF patch(3)] by (auto simp: secret_issued_def seen_iff)
    then have "secret_issued v p ca cert key s s'" "files_hold v p cert key s'"
      using filed [OF patch(3)] patched [OF patch(4)] by (auto simp: secret_issued_def files_hold_def)
    with two patch(5) patched [OF patch(4)] show thesis
      by (cases r3) (use written [OF patch(1)] complete [OF patch(1)] in auto)
  qed
qed

section \<open>Fresh certificates\<close>

definition day :: int where
  "day = 24 * 3600 * 10 ^ 9"

lemma sint_certLifetime: "sint certLifetime = 365 * day"
  by (simp add: certLifetime_def Hour_def day_def)

lemma clocked_steady: "clocked env clock \<Longrightarrow> steady env"
  unfolding clocked_def steady_def forward_def by (metis fst_conv io_read_eq)

lemma GenerateCerts_server:
  assumes codec: "codec_laws env" and steady: "steady env"
    and run: "GenerateCerts env n ns s = (Inr (ca, cert, key), s')"
  obtains caDER der keyDER c t s1 s2 where
    "ca = EncodeToMemory env ''CERTIFICATE'' caDER" "cert = EncodeToMemory env ''CERTIFICATE'' der"
    "key = EncodeToMemory env ''EC PRIVATE KEY'' keyDER" "ParseCertificate env der = Inr c"
    "DNSNames c = server_dnsNames n ns" "Now env s1 = (t, s2)"
    "NotBefore c \<le> t" "t < NotBefore c + 10 ^ 9" "t + 365 * day < NotAfter c + 10 ^ 9"
    "\<exists>tmpl parent pub priv s3 s4. CreateCertificate env tmpl parent pub priv s3 = (Inr der, s4) \<and> MarshalECPrivateKey env pub = Inr keyDER"
    "\<And>clock. clocked env clock \<Longrightarrow> clock s \<le> t"
proof -
  obtain caDER der keyDER tmpl caCert pub priv t t' serial s1 s2 s3 s4 x1 a1 n2 x2 a2 t3 a3 t4 a4 c1 c2 k1 k2 x5 a5 x6 a6 n7 x7 where
    out: "ca = EncodeToMemory env ''CERTIFICATE'' caDER" "cert = EncodeToMemory env ''CERTIFICATE'' der"
      "key = EncodeToMemory env ''EC PRIVATE KEY'' keyDER"
    and now: "Now env s1 = (t, s2)" "Now env s2 = (t', s3)"
    and tmpl: "tmpl = serverTemplate (server_dnsNames n ns) serial t t'"
    and create: "CreateCertificate env tmpl caCert pub priv s3 = (Inr der, s4)" "MarshalECPrivateKey env pub = Inr keyDER"
    and before: "GenerateKey env s = (x1, a1)" "rand_Int env n2 a1 = (x2, a2)" "Now env a2 = (t3, a3)" "Now env a3 = (t4, a4)"
      "CreateCertificate env c1 c2 k1 k2 a4 = (x5, a5)" "GenerateKey env a5 = (x6, a6)" "rand_Int env n7 a6 = (x7, s1)"
    using run by (auto simp: GenerateCerts_def randomSerial_def Let_def io_simps)
  have since: "clock s \<le> t" if ck: "clocked env clock" for clock
  proof -
    have read: "clock a \<le> clock b" if "Now env a = (x, b)" for a b x
      using ck that by (auto simp: clocked_def forward_def io_read_eq)
    have draw: "clock a \<le> clock b" if "rand_Int env n a = (r, b)" for n a b r
      using ck that by (auto simp: clocked_def forward_def)
    have "clock s \<le> clock a1" "clock a4 \<le> clock a5" "clock a5 \<le> clock a6"
      using ck before(1,5,6) by (auto simp: clocked_def forward_def)
    with draw [OF before(2)] read [OF before(3)] read [OF before(4)] draw [OF before(7)] have "clock s \<le> clock s1" by linarith
    with ck now(1) show ?thesis by (metis clocked_def fst_conv)
  qed
  obtain c where c: "ParseCertificate env der = Inr c" "DNSNames c = DNSNames tmpl" "NotBefore c \<le> NotBefore tmpl"
      "NotBefore tmpl < NotBefore c + 10 ^ 9" "NotAfter tmpl < NotAfter c + 10 ^ 9"
    using codec create(1) unfolding codec_laws_def by blast
  have "t \<le> t'" using steady now unfolding steady_def by blast
  moreover have "\<exists>tmpl parent pub priv s3 s4. CreateCertificate env tmpl parent pub priv s3 = (Inr der, s4) \<and>
      MarshalECPrivateKey env pub = Inr keyDER"
    using create by blast
  ultimately show thesis
    using out now c tmpl since
    by (intro that [where c = c and t = t]) (simp_all add: serverTemplate_def Add_def sint_certLifetime)
qed

lemma renewAt_fresh:
  assumes "NotBefore c \<le> t" "t < NotBefore c + 10 ^ 9" "t + 365 * day < NotAfter c + 10 ^ 9"
  shows "t + 288 * day < renewAt c"
proof -
  let ?L = "NotAfter c - NotBefore c"
  have L: "365 * day - 10 ^ 9 < ?L" using assms by simp
  then have "NotBefore c \<le> NotAfter c" by (simp add: day_def)
  define M where "M = min (2 ^ 63 - 1) ?L"
  have b: "79 * M - 100 \<le> 100 * (renewAt c - NotBefore c)"
    unfolding M_def by (rule renewAt_bounds(2)) fact
  have "365 * day - 10 ^ 9 \<le> M" using L by (simp add: M_def day_def)
  then show ?thesis using b assms(2) by (simp add: day_def)
qed

lemma san_match_iff: "san_match e ns \<longleftrightarrow> e \<in> set ns"
  by (induction ns) auto

lemma certsValid_fresh:
  assumes codec: "codec_laws env" and steady: "steady env"
    and run: "GenerateCerts env (ServiceName (cfg p)) (cfg_Namespace (cfg p)) s = (Inr (ca, cert, key), s')"
    and data: "secret_Data sec = cert_data ca cert key"
  shows "\<exists>t s1 s2. Now env s1 = (t, s2) \<and> (\<forall>clock. clocked env clock \<longrightarrow> clock s \<le> t) \<and>
    (\<forall>s3 now s4. Now env s3 = (now, s4) \<longrightarrow> now \<le> t + 288 * day \<longrightarrow> certsValid env p sec s3 = (Inr True, s4))"
proof (rule GenerateCerts_server [OF codec steady run])
  fix caDER der keyDER c t s1 s2
  assume out: "ca = EncodeToMemory env ''CERTIFICATE'' caDER" "cert = EncodeToMemory env ''CERTIFICATE'' der"
      "key = EncodeToMemory env ''EC PRIVATE KEY'' keyDER"
    and c: "ParseCertificate env der = Inr c" "DNSNames c = server_dnsNames (ServiceName (cfg p)) (cfg_Namespace (cfg p))"
    and now: "Now env s1 = (t, s2)"
    and times: "NotBefore c \<le> t" "t < NotBefore c + 10 ^ 9" "t + 365 * day < NotAfter c + 10 ^ 9"
    and since: "\<And>clock. clocked env clock \<Longrightarrow> clock s \<le> t"
  have enc: "ca \<noteq> []" "cert \<noteq> []" "key \<noteq> []" "pem_Decode env cert = Some (''CERTIFICATE'', der)"
    using codec out by (simp_all add: codec_laws_def)
  have "certsValid env p sec s3 = (Inr True, s4)" if "Now env s3 = (now, s4)" "now \<le> t + 288 * day" for s3 now s4
    using that enc c data renewAt_fresh [OF times]
    by (simp add: certsValid_def cert_data_def mget_Cons server_dnsNames_def san_match_iff io_bind_def io_read_def io_return_def)
  with now since show ?thesis by blast
qed

section \<open>A world to try it in\<close>

text \<open>An in-memory store with a stopped clock and a library that knows two certificates.\<close>

record World =
  w_secret :: "string \<Rightarrow> string \<Rightarrow> Secret option"
  w_file :: "string \<Rightarrow> bytes option"
  w_mwc :: "string \<Rightarrow> MutatingWebhookConfiguration option"

definition world_view :: "World View" where
  "world_view = \<lparr>v_secret = w_secret, v_file = w_file, v_mwc = w_mwc\<rparr>"

definition sample_ca :: Certificate where
  "sample_ca = caTemplate ''kompakt-controller'' 7 0 0"

definition sample_server :: Certificate where
  "sample_server = serverTemplate (server_dnsNames ''kompakt-controller'' ''kompakt-system'') 7 0 0"

definition memory_env :: "bool \<Rightarrow> (World, nat) Env" where
  "memory_env patchable =
     \<lparr>secret_get = (\<lambda>ns n w. (case w_secret w ns n of None \<Rightarrow> Inl (ApiErr (NotFound n))
          | Some sec \<Rightarrow> if secret_Name sec = n then Inr sec else Inl (SysErr ''corrupt''), w)),
      secret_create = (\<lambda>ns sec w. (Inr (), w\<lparr>w_secret := put_secret ns sec (w_secret w)\<rparr>)),
      secret_update = (\<lambda>ns sec w. (Inr (), w\<lparr>w_secret := put_secret ns sec (w_secret w)\<rparr>)),
      mwc_get = (\<lambda>n w. (case w_mwc w n of None \<Rightarrow> Inl (ApiErr (NotFound n))
          | Some m \<Rightarrow> if mwc_Name m = n then Inr m else Inl (SysErr ''corrupt''), w)),
      mwc_update = (\<lambda>m w. if patchable then (Inr (), w\<lparr>w_mwc := (w_mwc w)(mwc_Name m \<mapsto> m)\<rparr>)
          else (Inl (ApiErr (OtherError ''forbidden'')), w)),
      MkdirAll = (\<lambda>dir perm w. (Inr (), w)),
      WriteFile = (\<lambda>path data perm w. (Inr (), w\<lparr>w_file := (w_file w)(path \<mapsto> data)\<rparr>)),
      ReadFile = (\<lambda>path w. (case w_file w path of None \<Rightarrow> Inl (SysErr ''no such file'') | Some d \<Rightarrow> Inr d, w)),
      Now = (\<lambda>w. (0, w)),
      GenerateKey = (\<lambda>w. (Inr 1, w)),
      rand_Int = (\<lambda>n w. (Inr 7, w)),
      CreateCertificate = (\<lambda>tmpl parent pub priv w. (if tmpl = sample_ca then Inr ''ca''
          else if tmpl = sample_server then Inr ''server'' else Inl (SysErr ''unsupported''), w)),
      ParseCertificate = (\<lambda>der. if der = ''ca'' then Inr sample_ca
          else if der = ''server'' then Inr sample_server else Inl (SysErr ''malformed'')),
      MarshalECPrivateKey = (\<lambda>k. Inr ''key''),
      EncodeToMemory = (\<lambda>ty b. (if ty = ''CERTIFICATE'' then CHR ''C'' else CHR ''K'') # b),
      pem_Decode = (\<lambda>b. case b of [] \<Rightarrow> None
          | c # t \<Rightarrow> Some (if c = CHR ''C'' then ''CERTIFICATE'' else ''EC PRIVATE KEY'', t)),
      X509KeyPair = (\<lambda>c k. if c \<noteq> [] then Inr [tl c] else Inl (SysErr ''no certificate''))\<rparr>"

definition sample_provisioner :: CertProvisioner where
  "sample_provisioner = certgen_New (main_certConfig (Inl (SysErr ''no such file'')) '''')"

definition empty_world :: World where
  "empty_world =
     \<lparr>w_secret = (\<lambda>_ _. None), w_file = (\<lambda>_. None),
      w_mwc = [''kompakt-webhook'' \<mapsto> \<lparr>mwc_Name = ''kompakt-webhook'', Webhooks = [\<lparr>wh_Name = ''pods'', CABundle = ''old''\<rparr>]\<rparr>]\<rparr>"

lemma memory_secret_laws: "secret_laws (memory_env b) world_view"
  by (auto simp: secret_laws_def silent_def seen_def memory_env_def world_view_def split: option.splits)

lemma memory_mwc_laws: "mwc_laws (memory_env b) world_view"
  by (auto simp: mwc_laws_def silent_def seen_def memory_env_def world_view_def split: option.splits if_splits)

lemma memory_file_laws: "file_laws (memory_env b) world_view"
  by (auto simp: file_laws_def silent_def seen_def memory_env_def world_view_def split: option.splits)

lemma memory_crypto_silent: "crypto_silent (memory_env b) world_view"
  by (auto simp: crypto_silent_def silent_def io_read_def memory_env_def split: if_splits)

lemma memory_store_laws: "store_laws (memory_env b) world_view"
  by (simp add: store_laws_def memory_secret_laws memory_mwc_laws memory_file_laws memory_crypto_silent)

lemma memory_codec_laws: "codec_laws (memory_env b)"
  by (simp add: codec_laws_def memory_env_def)

lemma memory_steady: "steady (memory_env b)"
  by (simp add: steady_def memory_env_def)

lemma memory_clocked: "clocked (memory_env b) (\<lambda>_. 0)"
  by (simp add: clocked_def forward_def memory_env_def)

lemma sample_server_differs: "sample_server \<noteq> sample_ca"
  by (simp add: sample_server_def sample_ca_def serverTemplate_def caTemplate_def)

lemma sample_cfg [simp]:
  "cfg_Namespace (cfg sample_provisioner) = ''kompakt-system''" "ServiceName (cfg sample_provisioner) = ''kompakt-controller''"
  "SecretName (cfg sample_provisioner) = ''kompakt-webhook-certs''" "WebhookConfigName (cfg sample_provisioner) = ''kompakt-webhook''"
  "CertDir (cfg sample_provisioner) = certDir"
  by (simp_all add: sample_provisioner_def certgen_New_def main_certConfig_def DetectNamespace_def)

lemma memory_GenerateCerts:
  "GenerateCerts (memory_env b) ''kompakt-controller'' ''kompakt-system'' w = (Inr (''Cca'', ''Cserver'', ''Kkey''), w)"
  using sample_server_differs
  by (simp add: GenerateCerts_def randomSerial_def io_bind_def io_wrap_def io_read_def io_lift_def io_return_def
      memory_env_def sample_ca_def [symmetric] sample_server_def [symmetric])

lemma memory_gen:
  "GenerateCerts (memory_env b) (ServiceName (cfg sample_provisioner)) (cfg_Namespace (cfg sample_provisioner)) w
     = (Inr (''Cca'', ''Cserver'', ''Kkey''), w)"
  by (simp add: memory_GenerateCerts)

lemma memory_now: "Now (memory_env b) w = (0, w)"
  by (simp add: memory_env_def)

definition provisioned_world :: "bool \<Rightarrow> World" where
  "provisioned_world patchable =
     \<lparr>w_secret = put_secret ''kompakt-system''
        \<lparr>secret_Name = ''kompakt-webhook-certs'', secret_Namespace = ''kompakt-system'', secret_Type = ''kubernetes.io/tls'',
         secret_Data = cert_data ''Cca'' ''Cserver'' ''Kkey''\<rparr> (\<lambda>_ _. None),
      w_file = [filepath_Join certDir ''tls.crt'' \<mapsto> ''Cserver'', filepath_Join certDir ''tls.key'' \<mapsto> ''Kkey''],
      w_mwc = [''kompakt-webhook'' \<mapsto>
        \<lparr>mwc_Name = ''kompakt-webhook'', Webhooks = [\<lparr>wh_Name = ''pods'', CABundle = (if patchable then ''Cca'' else ''old'')\<rparr>]\<rparr>]\<rparr>"

lemma memory_provision:
  "provision (memory_env patchable) sample_provisioner empty_world =
     (if patchable then Inr () else Inl (Errorf ''patch webhook caBundle'' (ApiErr (OtherError ''forbidden''))),
      provisioned_world patchable)"
  by (simp add: provision_def memory_GenerateCerts io_bind_def io_wrap_def,
      simp add: io_bind_def io_wrap_def io_try_def upsertSecret_def writeFiles_def
        patchWebhookCABundle_def memory_env_def empty_world_def provisioned_world_def cert_data_def)

section \<open>Properties\<close>

text \<open>
  C21: the text of an error says how far a provision came. If no certificates could be generated nothing has
  changed. If the Secret could not be stored, the files and the webhook configuration are as before, and the Secret is as before
  or, when the failed write took effect after all, holds the new data. If the files could not be written, the Secret holds
  the new data, the webhook configuration is as before, and of all files at most the two have changed, the key
  only after the certificate was written. If the webhook configuration could not be patched, Secret and files are new, and
  the configuration is as before or, again, already trusts the new authority. Success means that all three agree.
\<close>

theorem provision_stages:
  assumes "store_laws env v" and "provision env p s = (r, s')"
  shows "case r of
      Inr _ \<Rightarrow> \<exists>ca cert key. secret_issued v p ca cert key s s' \<and> files_hold v p cert key s' \<and> bundle_installed v p ca s'
    | Inl e \<Rightarrow>
        (\<exists>e'. e = Errorf ''generate certs'' e') \<and> seen v s' = seen v s \<or>
        (\<exists>ca cert key s0. GenerateCerts env (ServiceName (cfg p)) (cfg_Namespace (cfg p)) s = (Inr (ca, cert, key), s0) \<and>
          ((\<exists>e'. e = Errorf ''upsert secret'' e') \<and> (v_secret v s' = v_secret v s \<or> secret_issued v p ca cert key s s') \<and>
             v_file v s' = v_file v s \<and> v_mwc v s' = v_mwc v s \<or>
           (\<exists>e'. e = Errorf ''write cert files'' e') \<and> secret_issued v p ca cert key s s' \<and>
             files_begun v p cert s s' \<and> v_mwc v s' = v_mwc v s \<or>
           (\<exists>e'. e = Errorf ''patch webhook caBundle'' e') \<and> secret_issued v p ca cert key s s' \<and>
             files_hold v p cert key s' \<and> (v_mwc v s' = v_mwc v s \<or> bundle_installed v p ca s')))"
  using assms by (cases rule: provision_cases) auto

theorem provision_stages_witness:
  "\<exists>e ca cert key. fst (provision (memory_env False) sample_provisioner empty_world) = Inl (Errorf ''patch webhook caBundle'' e) \<and>
     secret_issued world_view sample_provisioner ca cert key empty_world (provisioned_world False) \<and>
     files_hold world_view sample_provisioner cert key (provisioned_world False)"
  using provision_stages [OF memory_store_laws memory_provision [of False]] by (auto simp: memory_provision)

lemma ensureCerts_post:
  assumes laws: "store_laws env v" and run: "ensureCerts env p s = (Inr (), s')"
  shows "\<exists>sec. v_secret v s' (cfg_Namespace (cfg p)) (SecretName (cfg p)) = Some sec \<and>
    files_hold v p (mget [] (secret_Data sec) ''tls.crt'') (mget [] (secret_Data sec) ''tls.key'') s' \<and>
    (v_secret v s' = v_secret v s \<and> v_mwc v s' = v_mwc v s \<and> (\<exists>s0 s1. certsValid env p sec s0 = (Inr True, s1)) \<or>
     (\<exists>ca cert key s0 s1. GenerateCerts env (ServiceName (cfg p)) (cfg_Namespace (cfg p)) s0 = (Inr (ca, cert, key), s1) \<and>
        secret_Data sec = cert_data ca cert key \<and> bundle_installed v p ca s'))"
proof -
  let ?ns = "cfg_Namespace (cfg p)" and ?n = "SecretName (cfg p)"
  have provisioned: ?thesis if "provision env p s0 = (Inr (), s')" for s0
    using laws that
  proof (cases rule: provision_cases)
    case (complete ca cert key s1)
    then obtain sec where "secret_Name sec = ?n" "secret_Data sec = cert_data ca cert key"
        "v_secret v s' = put_secret ?ns sec (v_secret v s0)"
      by (auto simp: secret_issued_def)
    with complete show ?thesis
      by (intro exI [of _ sec]) (auto simp: put_secret_def cert_data_def mget_Cons)
  qed simp_all
  obtain r0 s0 where g: "secret_get env ?ns ?n s = (r0, s0)" by (cases "secret_get env ?ns ?n s")
  have seen0: "seen v s0 = seen v s" by (rule silentD [OF silent_ops(1) [OF laws] g])
  show ?thesis
  proof (cases r0)
    case (Inl e)
    with run g provisioned show ?thesis
      by (cases "io_IsNotFound e") (auto simp: ensureCerts_def io_bind_def io_try_def io_fail_def)
  next
    case (Inr sec)
    then have sec: "v_secret v s ?ns ?n = Some sec" using secret_get_law(1) [OF laws g] by blast
    obtain ok s1 where c: "certsValid env p sec s0 = (Inr ok, s1)" "ok \<or> provision env p s1 = (Inr (), s')"
      "ok \<longrightarrow> writeFiles env p (mget [] (secret_Data sec) ''tls.crt'') (mget [] (secret_Data sec) ''tls.key'') s1 = (Inr (), s')"
      using run g Inr by (auto simp: ensureCerts_def io_simps split: if_splits)
    have seen1: "seen v s1 = seen v s0" by (rule silentD [OF silent_certsValid [OF laws] c(1)])
    show ?thesis
    proof (cases ok)
      case True
      then have "writeFiles env p (mget [] (secret_Data sec) ''tls.crt'') (mget [] (secret_Data sec) ''tls.key'') s1 = (Inr (), s')"
        using c(3) by simp
      from writeFiles_effect [OF laws this] show ?thesis
        using sec seen0 seen1 c(1) True by (intro exI [of _ sec]) (auto simp: seen_iff)
    next
      case False
      with c(2) provisioned show ?thesis by blast
    qed
  qed
qed

text \<open>
  C14: what a successful call leaves behind. The Secret exists and the two files the webhook server reads
  hold its certificate and key. Either the Secret was there and passed the check, and neither it
  nor the webhook configuration was touched; or its contents are freshly generated and every
  webhook of the configuration trusts the new authority.
\<close>

theorem ensureCerts_establishes:
  assumes laws: "store_laws env v" and run: "ensureCerts env p s = (Inr (), s')"
  shows "\<exists>sec. v_secret v s' (cfg_Namespace (cfg p)) (SecretName (cfg p)) = Some sec \<and>
    files_hold v p (mget [] (secret_Data sec) ''tls.crt'') (mget [] (secret_Data sec) ''tls.key'') s' \<and>
    (v_secret v s' = v_secret v s \<and> v_mwc v s' = v_mwc v s \<and> (\<exists>s0 s1. certsValid env p sec s0 = (Inr True, s1)) \<or>
     (\<exists>ca cert key s0 s1. GenerateCerts env (ServiceName (cfg p)) (cfg_Namespace (cfg p)) s0 = (Inr (ca, cert, key), s1) \<and>
        secret_Data sec = cert_data ca cert key \<and> bundle_installed v p ca s'))"
  using assms by (rule ensureCerts_post)

lemma memory_ensure_empty:
  "ensureCerts (memory_env b) sample_provisioner empty_world = provision (memory_env b) sample_provisioner empty_world"
  by (simp add: ensureCerts_def io_bind_def io_try_def memory_env_def empty_world_def)

theorem ensureCerts_establishes_witness:
  "\<exists>sec. w_secret (snd (ensureCerts (memory_env True) sample_provisioner empty_world)) ''kompakt-system'' ''kompakt-webhook-certs'' = Some sec \<and>
     w_file (snd (ensureCerts (memory_env True) sample_provisioner empty_world)) (filepath_Join certDir ''tls.key'')
       = Some (mget [] (secret_Data sec) ''tls.key'')"
proof -
  have run: "ensureCerts (memory_env True) sample_provisioner empty_world = (Inr (), provisioned_world True)"
    by (simp add: memory_ensure_empty memory_provision)
  from ensureCerts_establishes [OF memory_store_laws run] show ?thesis
    by (auto simp: run world_view_def files_hold_def)
qed

text \<open>
  C27: a generated certificate passes the check. At every reading of the clock up to 288 days after the
  time at which the generation began, a Secret with the generated files is valid, so that a provision is not
  followed by another one.
\<close>

theorem fresh_certs_pass_check:
  assumes "codec_laws env" and "clocked env clock"
    and "GenerateCerts env (ServiceName (cfg p)) (cfg_Namespace (cfg p)) s = (Inr (ca, cert, key), s')"
    and "secret_Data sec = [(''tls.crt'', cert), (''tls.key'', key), (''ca.crt'', ca)]"
    and "Now env s1 = (now, s2)" and "now \<le> clock s + 288 * day"
  shows "certsValid env p sec s1 = (Inr True, s2)"
proof -
  obtain t where "clock s \<le> t"
    and "\<forall>s3 now s4. Now env s3 = (now, s4) \<longrightarrow> now \<le> t + 288 * day \<longrightarrow> certsValid env p sec s3 = (Inr True, s4)"
    using certsValid_fresh [OF assms(1) clocked_steady [OF assms(2)] assms(3), of sec] assms(2,4) unfolding cert_data_def by blast
  with assms(5,6) show ?thesis by auto
qed

theorem fresh_certs_pass_check_witness:
  "certsValid (memory_env True) sample_provisioner
     \<lparr>secret_Name = ''x'', secret_Namespace = ''y'', secret_Type = '''', secret_Data =
       [(''tls.crt'', ''Cserver''), (''tls.key'', ''Kkey''), (''ca.crt'', ''Cca'')]\<rparr> empty_world = (Inr True, empty_world)"
  by (rule fresh_certs_pass_check [OF memory_codec_laws memory_clocked memory_gen _ memory_now]) (simp_all add: day_def)

text \<open>
  C26: rotation comes in time. The check runs every twelve hours. A certificate with a lifetime of at
  least 64 hours that passes a check has not expired when the next check is due, whatever the
  rounding of the renewal time.
\<close>

theorem checked_cert_outlives_interval:
  assumes "certsValid env p sec s = (Inr True, s')" and "Now env s = (now, s')"
    and "pem_Decode env (mget [] (secret_Data sec) ''tls.crt'') = Some (ty, der)" and "ParseCertificate env der = Inr c"
    and "64 * sint Hour \<le> NotAfter c - NotBefore c" and "t \<le> now + sint checkInterval"
  shows "t < NotAfter c"
proof -
  have "now < renewAt c" using assms(1-4) by (auto elim: certsValid_True)
  moreover have "NotBefore c \<le> NotAfter c" using assms(5) by (simp add: Hour_def)
  ultimately have "100 * (now - NotBefore c) < 81 * (NotAfter c - NotBefore c)"
    using renewAt_bounds(1) [of c] by simp
  then show ?thesis using assms(5,6) by (simp add: Hour_def checkInterval_def)
qed

theorem checked_cert_outlives_interval_witness:
  "certsValid (memory_env True) sample_provisioner
     \<lparr>secret_Name = ''x'', secret_Namespace = ''y'', secret_Type = '''', secret_Data = cert_data ''Cca'' ''Cserver'' ''Kkey''\<rparr> empty_world
     = (Inr True, empty_world) \<and> sint checkInterval < NotAfter sample_server"
proof -
  let ?sec = "\<lparr>secret_Name = ''x'', secret_Namespace = ''y'', secret_Type = '''', secret_Data = cert_data ''Cca'' ''Cserver'' ''Kkey''\<rparr>"
  have valid: "certsValid (memory_env True) sample_provisioner ?sec empty_world = (Inr True, empty_world)"
    using certsValid_fresh [OF memory_codec_laws memory_steady memory_gen, of ?sec] by (auto simp: memory_now day_def)
  have "sint checkInterval < NotAfter sample_server"
    by (rule checked_cert_outlives_interval [OF valid memory_now, of "''CERTIFICATE''" "''server''"])
      (simp_all add: memory_env_def cert_data_def mget_Cons sample_server_def serverTemplate_def Add_def
        certLifetime_def Hour_def)
  with valid show ?thesis by blast
qed

section \<open>A patch that failed\<close>

text \<open>What \<^verbatim>\<open>ensureCerts\<close> does while the Secret is valid.\<close>

lemma ensureCerts_valid:
  assumes laws: "store_laws env v" and sec: "v_secret v s (cfg_Namespace (cfg p)) (SecretName (cfg p)) = Some sec"
    and valid: "\<And>s0. certsValid env p sec s0 = (Inr True, snd (Now env s0))"
  shows "v_secret v (snd (ensureCerts env p s)) = v_secret v s \<and> v_mwc v (snd (ensureCerts env p s)) = v_mwc v s"
proof -
  let ?ns = "cfg_Namespace (cfg p)" and ?n = "SecretName (cfg p)"
  obtain r0 s0 where g: "secret_get env ?ns ?n s = (r0, s0)" by (cases "secret_get env ?ns ?n s")
  have seen0: "seen v s0 = seen v s" by (rule silentD [OF silent_ops(1) [OF laws] g])
  show ?thesis
  proof (cases r0)
    case (Inl e)
    then have "\<not> io_IsNotFound e" using secret_get_law(2) [OF laws g] sec by auto
    then show ?thesis
      using g Inl seen0 by (simp add: ensureCerts_def io_bind_def io_try_def io_fail_def seen_iff)
  next
    case (Inr sec')
    then have "sec' = sec" using secret_get_law(1) [OF laws g] sec by auto
    let ?s1 = "snd (Now env s0)"
    have seen1: "seen v ?s1 = seen v s0" by (rule silentD [OF silent_certsValid [OF laws] valid])
    let ?w = "writeFiles env p (mget [] (secret_Data sec) ''tls.crt'') (mget [] (secret_Data sec) ''tls.key'') ?s1"
    have "snd (ensureCerts env p s) = snd ?w"
      using g Inr valid \<open>sec' = sec\<close> by (simp add: ensureCerts_def io_bind_def io_try_def)
    moreover have "v_secret v (snd ?w) = v_secret v ?s1 \<and> v_mwc v (snd ?w) = v_mwc v ?s1"
      using writeFiles_effect [OF laws, of p _ _ ?s1 "fst ?w" "snd ?w"] by simp
    ultimately show ?thesis using seen0 seen1 by (simp add: seen_iff)
  qed
qed

lemma Start_valid:
  assumes laws: "store_laws env v" and sec: "v_secret v s (cfg_Namespace (cfg p)) (SecretName (cfg p)) = Some sec"
    and valid: "\<And>s0. certsValid env p sec s0 = (Inr True, snd (Now env s0))"
  shows "v_secret v (snd (Start env p evs s)) = v_secret v s \<and> v_mwc v (snd (Start env p evs s)) = v_mwc v s"
  using sec
proof (induction evs arbitrary: s)
  case Nil
  then show ?case by simp
next
  case (Cons ev evs)
  then show ?case
    using ensureCerts_valid [OF laws Cons.prems valid] by (cases ev) simp_all
qed

text \<open>
  C36: a failed patch of the webhook configuration is not repaired. If the call that issued new
  certificates could not patch the configuration and left it as it was, then no later run of the background loop patches it
  while the certificate is valid: the configuration keeps the old authority, although Secret and
  files hold certificates of the new one.
\<close>

theorem failed_patch_is_not_retried:
  assumes laws: "store_laws env v" "codec_laws env" "steady env"
    and clock: "\<And>s. T \<le> fst (Now env s) \<and> fst (Now env s) \<le> T + 288 * day"
    and failed: "ensureCerts env p s = (Inl (Errorf ''patch webhook caBundle'' e), s1)" and noeffect: "v_mwc v s1 = v_mwc v s"
  shows "v_mwc v (snd (Start env p evs s1)) = v_mwc v s \<and>
    (\<exists>ca cert key. secret_issued v p ca cert key s s1 \<and> files_hold v p cert key s1) \<and>
    v_secret v (snd (Start env p evs s1)) = v_secret v s1"
proof -
  let ?ns = "cfg_Namespace (cfg p)" and ?n = "SecretName (cfg p)"
  obtain r0 s0 where g: "secret_get env ?ns ?n s = (r0, s0)" by (cases "secret_get env ?ns ?n s")
  have seen0: "seen v s0 = seen v s" by (rule silentD [OF silent_ops(1) [OF laws(1)] g])
  obtain s2 where seen2: "seen v s2 = seen v s" and prov: "provision env p s2 = (Inl (Errorf ''patch webhook caBundle'' e), s1)"
  proof (cases r0)
    case (Inl e')
    with failed g have "provision env p s0 = (Inl (Errorf ''patch webhook caBundle'' e), s1)"
      by (auto simp: ensureCerts_def io_simps split: if_splits)
    with seen0 show thesis by (rule that)
  next
    case (Inr sec)
    with failed g obtain ok s2 where c: "certsValid env p sec s0 = (Inr ok, s2)"
        and "provision env p s2 = (Inl (Errorf ''patch webhook caBundle'' e), s1)"
      by (auto simp: ensureCerts_def io_simps certsValid_no_error split: if_splits)
    with seen0 silentD [OF silent_certsValid [OF laws(1)] c] show thesis by (intro that) simp_all
  qed
  show ?thesis
    using laws(1) prov
  proof (cases rule: provision_cases)
    case (written ca cert key s3 e')
    then obtain sec where sec: "secret_Name sec = ?n" "secret_Data sec = cert_data ca cert key"
        "v_secret v s1 = put_secret ?ns sec (v_secret v s2)"
      by (auto simp: secret_issued_def)
    obtain t sa sb where t: "Now env sa = (t, sb)"
        "\<forall>s3 now s4. Now env s3 = (now, s4) \<longrightarrow> now \<le> t + 288 * day \<longrightarrow> certsValid env p sec s3 = (Inr True, s4)"
      using certsValid_fresh [OF laws(2,3) written(1) sec(2)] by blast
    have "certsValid env p sec s4 = (Inr True, snd (Now env s4))" for s4
      using t clock [of sa] clock [of s4] by (cases "Now env s4") auto
    moreover have "v_secret v s1 ?ns ?n = Some sec" using sec by (simp add: put_secret_def)
    ultimately show ?thesis
      using Start_valid [OF laws(1)] written(3,4) noeffect seen2 by (auto simp: seen_iff secret_issued_def)
  qed simp_all
qed

theorem failed_patch_is_not_retried_witness:
  "w_mwc (snd (Start (memory_env False) sample_provisioner [TickerC, TickerC] (provisioned_world False))) = w_mwc empty_world"
proof -
  have "ensureCerts (memory_env False) sample_provisioner empty_world =
      (Inl (Errorf ''patch webhook caBundle'' (ApiErr (OtherError ''forbidden''))), provisioned_world False)"
    by (simp add: memory_ensure_empty memory_provision)
  from failed_patch_is_not_retried [OF memory_store_laws memory_codec_laws memory_steady _ this, of 0 "[TickerC, TickerC]"]
  show ?thesis by (simp add: memory_now day_def world_view_def provisioned_world_def empty_world_def)
qed

text \<open>
  A provisioned server is ready. The library pairs a certificate with the key it was made for. After
  a successful provision the readiness check succeeds, at any time within the 288 days.
\<close>

theorem provisioned_server_is_ready:
  assumes laws: "store_laws env v" "codec_laws env" "steady env"
    and pair: "\<And>tmpl parent pub priv s1 der s2 keyDER. CreateCertificate env tmpl parent pub priv s1 = (Inr der, s2) \<Longrightarrow>
      MarshalECPrivateKey env pub = Inr keyDER \<Longrightarrow>
      X509KeyPair env (EncodeToMemory env ''CERTIFICATE'' der) (EncodeToMemory env ''EC PRIVATE KEY'' keyDER) = Inr [der]"
    and clock: "\<And>s. T \<le> fst (Now env s) \<and> fst (Now env s) \<le> T + 288 * day"
    and run: "provision env p s = (Inr (), s')"
  shows "fst (ReadyzCheck env p s') = Inr ()"
  using laws(1) run
proof (cases rule: provision_cases)
  case (complete ca cert key s0)
  let ?crt = "filepath_Join (CertDir (cfg p)) ''tls.crt''" and ?key = "filepath_Join (CertDir (cfg p)) ''tls.key''"
  have read: "fst (ReadFile env path st) = Inr d \<and> v_file v (snd (ReadFile env path st)) = v_file v st"
    if "v_file v st path = Some d" for path st d
  proof -
    obtain r st' where rd: "ReadFile env path st = (r, st')" by (cases "ReadFile env path st")
    then have "seen v st' = seen v st \<and> (\<forall>data. v_file v st path = Some data \<longrightarrow> r = Inr data)"
      using laws(1) unfolding store_laws_def file_laws_def by blast
    with rd that show ?thesis by (simp add: seen_iff)
  qed
  obtain s1 where s1: "ReadFile env ?crt s' = (Inr cert, s1)" "v_file v s1 = v_file v s'"
    using read [of s' ?crt cert] complete by (cases "ReadFile env ?crt s'") (auto simp: files_hold_def)
  obtain s2 where s2: "ReadFile env ?key s1 = (Inr key, s2)"
    using read [of s1 ?key key] s1 complete by (cases "ReadFile env ?key s1") (auto simp: files_hold_def)
  show ?thesis
  proof (rule GenerateCerts_server [OF laws(2,3) complete(1)])
    fix caDER der keyDER c t sa sb
    assume out: "cert = EncodeToMemory env ''CERTIFICATE'' der" "key = EncodeToMemory env ''EC PRIVATE KEY'' keyDER"
      and c: "ParseCertificate env der = Inr c" and now: "Now env sa = (t, sb)" "t + 365 * day < NotAfter c + 10 ^ 9"
      and ex: "\<exists>tmpl parent pub priv s3 s4. CreateCertificate env tmpl parent pub priv s3 = (Inr der, s4) \<and>
        MarshalECPrivateKey env pub = Inr keyDER"
    have kp: "X509KeyPair env cert key = Inr [der]" using ex pair out by blast
    have "\<not> NotAfter c < fst (Now env s2)" using clock [of s2] clock [of sa] now by (simp add: day_def)
    then show ?thesis
      using s1(1) s2 kp c
      by (cases "Now env s2") (simp add: ReadyzCheck_def io_bind_def io_wrap_def io_lift_def io_read_def io_return_def)
  qed
qed simp_all

theorem provisioned_server_is_ready_witness:
  "fst (ReadyzCheck (memory_env True) sample_provisioner (provisioned_world True)) = Inr ()"
proof (rule provisioned_server_is_ready [where T = 0, OF memory_store_laws memory_codec_laws memory_steady])
  show "provision (memory_env True) sample_provisioner empty_world = (Inr (), provisioned_world True)"
    by (simp add: memory_provision)
qed (auto simp: memory_env_def day_def)

end
