(* ===== verification/GoFlag.thy ===== *)
theory GoFlag
  imports GoStrings
begin

text \<open>
  What \<^verbatim>\<open>src/cmd/manager/main.go\<close> uses of Go's \<^verbatim>\<open>flag\<close> package: one boolean flag, parsed from the command line. Packages
  that are linked in register flags of their own (controller-runtime registers \<^verbatim>\<open>kubeconfig\<close>); which names
  these are, whether they are boolean and which values they accept is the argument \<open>others\<close>.
\<close>

section \<open>Model\<close>

text \<open>\<^verbatim>\<open>strconv.ParseBool\<close>\<close>

definition ParseBool :: "string \<Rightarrow> bool option" where
  "ParseBool s =
     (if s \<in> set [''1'', ''t'', ''T'', ''true'', ''TRUE'', ''True''] then Some True
      else if s \<in> set [''0'', ''f'', ''F'', ''false'', ''FALSE'', ''False''] then Some False
      else None)"

text \<open>The name of an argument and its value, if it has one: the first \<^verbatim>\<open>=\<close> after the first character separates them.\<close>

fun split_value :: "string \<Rightarrow> string \<times> string option" where
  "split_value [] = ([], None)"
| "split_value (c # s) = (if c = CHR ''='' then ([], Some s) else (case split_value s of (n, v) \<Rightarrow> (c # n, v)))"

definition flag_name :: "string \<Rightarrow> string \<times> string option" where
  "flag_name s = (case s of [] \<Rightarrow> ([], None) | c # s' \<Rightarrow> (case split_value s' of (n, v) \<Rightarrow> (c # n, v)))"

text \<open>How an argument begins: not a flag, the terminator \<^verbatim>\<open>--\<close>, malformed, or a flag.\<close>

datatype flag_arg = NoFlag | Terminator | BadSyntax | Flag string "string option"

definition classify :: "string \<Rightarrow> flag_arg" where
  "classify s =
     (if length s < 2 \<or> hd s \<noteq> CHR ''-'' then NoFlag
      else if s ! 1 = CHR ''-'' \<and> length s = 2 then Terminator
      else
        let name = (if s ! 1 = CHR ''-'' then drop 2 s else drop 1 s)
        in if name = [] \<or> hd name = CHR ''-'' \<or> hd name = CHR ''='' then BadSyntax
           else case flag_name name of (n, v) \<Rightarrow> Flag n v)"

text \<open>
  \<^verbatim>\<open>flag.Parse\<close> with the flag \<open>name\<close> of current value \<open>b\<close>: \<open>Inl\<close> is the exit code of the process, 2 after an error and 0
  after the help text; \<open>others\<close> tells for a flag of another package whether it is boolean and which values it takes.
\<close>

fun flag_Parse :: "(string \<Rightarrow> (bool \<times> (string \<Rightarrow> bool)) option) \<Rightarrow> string \<Rightarrow> string list \<Rightarrow> bool \<Rightarrow> nat + bool" where
  "flag_Parse others name [] b = Inr b"
| "flag_Parse others name (s # args) b =
     (case classify s of
        NoFlag \<Rightarrow> Inr b
      | Terminator \<Rightarrow> Inr b
      | BadSyntax \<Rightarrow> Inl 2
      | Flag n v \<Rightarrow>
          if n = name then
            (case v of
               None \<Rightarrow> flag_Parse others name args True
             | Some t \<Rightarrow> (case ParseBool t of None \<Rightarrow> Inl 2 | Some b' \<Rightarrow> flag_Parse others name args b'))
          else
            (case others n of
               None \<Rightarrow> Inl (if n = ''help'' \<or> n = ''h'' then 0 else 2)
             | Some (isBool, accepts) \<Rightarrow>
                 (case v of
                    Some t \<Rightarrow> if accepts t then flag_Parse others name args b else Inl 2
                  | None \<Rightarrow>
                      if isBool then (if accepts ''true'' then flag_Parse others name args b else Inl 2)
                      else (case args of
                              [] \<Rightarrow> Inl 2
                            | t # args' \<Rightarrow> if accepts t then flag_Parse others name args' b else Inl 2))))"

section \<open>Properties\<close>

text \<open>The spellings of a setting: one or two dashes, and a value that may be left out for true.\<close>

datatype spelling = Spelling (two_dashes: bool) (written: "string option")

definition spell :: "string \<Rightarrow> spelling \<Rightarrow> string" where
  "spell name sp = (if two_dashes sp then ''--'' else ''-'') @ name @ (case written sp of None \<Rightarrow> [] | Some t \<Rightarrow> CHR ''='' # t)"

definition means :: "spelling \<Rightarrow> bool option" where
  "means sp = (case written sp of None \<Rightarrow> Some True | Some t \<Rightarrow> ParseBool t)"

definition plain_name :: "string \<Rightarrow> bool" where
  "plain_name n \<longleftrightarrow> n \<noteq> [] \<and> hd n \<noteq> CHR ''-'' \<and> CHR ''='' \<notin> set n"

lemma split_value_append: "CHR ''='' \<notin> set n \<Longrightarrow> split_value (n @ CHR ''='' # t) = (n, Some t)"
  and split_value_none: "CHR ''='' \<notin> set n \<Longrightarrow> split_value n = (n, None)"
  by (induction n) auto

lemma classify_spell: "plain_name n \<Longrightarrow> classify (spell n sp) = Flag n (written sp)"
  by (cases n; cases "written sp")
    (auto simp: plain_name_def spell_def classify_def Let_def flag_name_def split_value_append split_value_none)

text \<open>The flag has the value of the last setting, however each is spelled, and keeps its default without one.\<close>

lemma flag_Parse_settings:
  assumes "plain_name name" and "list_all2 (\<lambda>sp b. means sp = Some b) sps bs"
  shows "flag_Parse others name (map (spell name) sps @ rest) b =
    flag_Parse others name rest (last (b # bs))"
  using assms(2)
proof (induction sps bs arbitrary: b rule: list_all2_induct)
  case Nil
  then show ?case by simp
next
  case (Cons sp sps b' bs)
  then have "flag_Parse others name (map (spell name) (sp # sps) @ rest) b = flag_Parse others name (map (spell name) sps @ rest) b'"
    by (cases "written sp") (simp_all add: classify_spell [OF assms(1)] means_def)
  also have "\<dots> = flag_Parse others name rest (last (b # b' # bs))"
    by (simp add: Cons.IH)
  finally show ?case .
qed

lemma flag_Parse_unknown:
  assumes "plain_name n" and "n \<noteq> name" and "others n = None" and "n \<noteq> ''help''" and "n \<noteq> ''h''"
  shows "flag_Parse others name (spell n sp # args) b = Inl 2"
  using assms by (simp add: classify_spell)

end
