(* ===== verification/Manager.thy ===== *)
theory Manager
  imports CertgenProps Lifecycle GoFlag
begin

text \<open>
  The start of the program (\<^verbatim>\<open>src/cmd/manager/main.go\<close>) with the registration of the API types
  (\<^verbatim>\<open>src/api/v1alpha1/groupversion_info.go\<close>): flags, certificates, then the manager
  with its health checks, the webhook, the controller with its detectors, and the run itself. The scheme of
  \<^verbatim>\<open>k8s.io/apimachinery\<close> and the controller-runtime manager are code of other packages; their operations are the fields of the
  arguments \<open>lib\<close> and \<open>m\<close>. The result is the exit code of the process. The logger is left out.
\<close>

section \<open>Scheme\<close>

record schema_GroupVersion =
  Group :: string
  Version :: string

record 'sc SchemeLib =
  NewScheme :: 'sc
  AddKnownTypes :: "schema_GroupVersion \<Rightarrow> string list \<Rightarrow> 'sc \<Rightarrow> 'sc"
  AddToGroupVersion :: "schema_GroupVersion \<Rightarrow> 'sc \<Rightarrow> 'sc"
  SchemeBuilder_AddToScheme :: "('sc \<Rightarrow> io_error option \<times> 'sc) \<Rightarrow> 'sc \<Rightarrow> io_error option \<times> 'sc"
  corev1_AddToScheme :: "'sc \<Rightarrow> io_error option \<times> 'sc"
  coordinationv1_AddToScheme :: "'sc \<Rightarrow> io_error option \<times> 'sc"

definition GroupVersion :: schema_GroupVersion where
  "GroupVersion = \<lparr>Group = ''packer.kompakt.io'', Version = ''v1alpha1''\<rparr>"

text \<open>The types are named by their Go names, which the scheme takes as kinds.\<close>

definition addKnownTypes :: "'sc SchemeLib \<Rightarrow> 'sc \<Rightarrow> io_error option \<times> 'sc" where
  "addKnownTypes lib scheme =
     (let s1 = AddKnownTypes lib GroupVersion [''PackingProfile'', ''PackingProfileList''] scheme;
          s2 = AddToGroupVersion lib GroupVersion s1
      in (None, s2))"

definition AddToScheme :: "'sc SchemeLib \<Rightarrow> 'sc \<Rightarrow> io_error option \<times> 'sc" where
  "AddToScheme lib = SchemeBuilder_AddToScheme lib (addKnownTypes lib)"

text \<open>\<^verbatim>\<open>init\<close> of the program ignores the errors.\<close>

definition main_scheme :: "'sc SchemeLib \<Rightarrow> 'sc" where
  "main_scheme lib =
     (let s1 = snd (corev1_AddToScheme lib (NewScheme lib));
          s2 = snd (coordinationv1_AddToScheme lib s1)
      in snd (AddToScheme lib s2))"

definition testScheme :: "'sc SchemeLib \<Rightarrow> 'sc" where
  "testScheme lib = snd (AddToScheme lib (NewScheme lib))"

section \<open>Start\<close>

record 'sc ManagerOptions =
  mgr_Scheme :: 'sc
  WebhookPort :: nat
  WebhookCertDir :: string
  MetricsBindAddress :: string
  HealthProbeBindAddress :: string
  LeaderElection :: bool
  LeaderElectionID :: string

definition main_options :: "'sc \<Rightarrow> bool \<Rightarrow> 'sc ManagerOptions" where
  "main_options scheme leaderElect =
     \<lparr>mgr_Scheme = scheme, WebhookPort = 9443, WebhookCertDir = certDir, MetricsBindAddress = '':8080'',
      HealthProbeBindAddress = '':8081'', LeaderElection = leaderElect, LeaderElectionID = ''kompakt.leader.election''\<rparr>"

record 'q ControllerSpec =
  MaxConcurrentReconciles :: nat
  For_kind :: string
  EventFilter :: "'q Pod option \<Rightarrow> bool"

record ('s, 'sc, 'q) Mgr =
  GetConfigOrDie :: "('s, unit) io"
  NewForConfig :: "('s, unit) io"
  NewManager :: "'sc ManagerOptions \<Rightarrow> ('s, unit) io"
  AddHealthzCheck :: "string \<Rightarrow> ('s, unit) io"
  AddReadyzCheck :: "string \<Rightarrow> ('s, unit) io \<Rightarrow> ('s, unit) io"
  mgr_Add :: "CertProvisioner \<Rightarrow> ('s, unit) io"
  GetAPIReader :: "string \<Rightarrow> api_error + PackingProfile"
  mgr_Register :: "string \<Rightarrow> PodGateInjector \<Rightarrow> 's \<Rightarrow> 's"
  Complete :: "'q ControllerSpec \<Rightarrow> Reconciler \<Rightarrow> ('s, unit) io"
  mgr_Start :: "('s, unit) io"

definition SetupWithManager :: "('s, 'sc, 'q) Mgr \<Rightarrow> Reconciler \<Rightarrow> ('s, unit) io" where
  "SetupWithManager m r = Complete m \<lparr>MaxConcurrentReconciles = 1, For_kind = ''Pod'', EventFilter = event_filter\<rparr> r"

definition main_detectors :: "Detector list" where
  "main_detectors = [ClusterAutoscaler, GOATScaler \<lparr>EventMaxAge = 0, NoStockDetected = False\<rparr>, NotReadyNodes]"

definition main_reconciler :: Reconciler where
  "main_reconciler = \<lparr>rc_Ledger = New, Detectors = main_detectors, activeDetectors = []\<rparr>"

text \<open>\<^verbatim>\<open>if err != nil { log.Error(...); os.Exit(1) }\<close>\<close>

definition or_exit :: "('s, 'a) io \<Rightarrow> ('a \<Rightarrow> 's \<Rightarrow> nat \<times> 's) \<Rightarrow> 's \<Rightarrow> nat \<times> 's" where
  "or_exit a f s = (case a s of (Inl _, s') \<Rightarrow> (1, s') | (Inr x, s') \<Rightarrow> f x s')"

text \<open>The command line \<open>args\<close> with the flags \<open>others\<close> of linked packages; \<open>mounted\<close> and \<open>env_POD_NAMESPACE\<close> say where the pod runs.\<close>

definition main ::
  "'sc SchemeLib \<Rightarrow> ('s, 'sc, 'q) Mgr \<Rightarrow> ('s, 'key) Env \<Rightarrow> io_error + bytes \<Rightarrow> string \<Rightarrow> (string \<Rightarrow> (bool \<times> (string \<Rightarrow> bool)) option)
   \<Rightarrow> string list \<Rightarrow> 's \<Rightarrow> nat \<times> 's" where
  "main lib m env mounted env_POD_NAMESPACE others args s0 =
     (let scheme = main_scheme lib in
      case flag_Parse others ''leader-elect'' args False of
        Inl code \<Rightarrow> (code, s0)
      | Inr leaderElect \<Rightarrow>
          or_exit (GetConfigOrDie m) (\<lambda>_.
          or_exit (NewForConfig m) (\<lambda>_.
          let certProvisioner = certgen_New (main_certConfig mounted env_POD_NAMESPACE) in
          or_exit (EnsureCerts env certProvisioner) (\<lambda>_.
          or_exit (NewManager m (main_options scheme leaderElect)) (\<lambda>_.
          or_exit (AddHealthzCheck m ''healthz'') (\<lambda>_.
          or_exit (AddReadyzCheck m ''readyz'' (ReadyzCheck env certProvisioner)) (\<lambda>_.
          or_exit (mgr_Add m certProvisioner) (\<lambda>_ s.
            let resolver = NewProfileResolver (GetAPIReader m);
                injector = NewPodGateInjector resolver;
                s1 = mgr_Register m ''/mutate-v1-pod'' injector s
            in or_exit (SetupWithManager m main_reconciler) (\<lambda>_.
               or_exit (mgr_Start m) (\<lambda>_ s. (0, s))) s1))))))) s0)"

section \<open>Properties\<close>

lemma or_exit_zero: "or_exit a f s = (0, s'') \<longleftrightarrow> (\<exists>x s'. a s = (Inr x, s') \<and> f x s' = (0, s''))"
  by (auto simp: or_exit_def split: prod.splits sum.splits)

text \<open>A manager whose set-up writes neither Secrets nor webhook configurations nor files.\<close>

definition mgr_silent :: "'s View \<Rightarrow> ('s, 'sc, 'q) Mgr \<Rightarrow> bool" where
  "mgr_silent v m \<longleftrightarrow> (\<forall>l. silent v (NewManager m l)) \<and> (\<forall>n. silent v (AddHealthzCheck m n)) \<and>
     (\<forall>n c. silent v (AddReadyzCheck m n c)) \<and> (\<forall>p. silent v (mgr_Add m p)) \<and>
     (\<forall>path i s. seen v (mgr_Register m path i s) = seen v s) \<and> (\<forall>c r. silent v (Complete m c r))"

text \<open>What is relied on of the scheme, with the kinds it knows: registration adds, a builder runs its function.\<close>

definition scheme_laws :: "('sc \<Rightarrow> (schema_GroupVersion \<times> string) set) \<Rightarrow> 'sc SchemeLib \<Rightarrow> bool" where
  "scheme_laws known lib \<longleftrightarrow>
     (\<forall>gv ks s. known (AddKnownTypes lib gv ks s) = known s \<union> Pair gv ` set ks) \<and>
     (\<forall>gv s. known s \<subseteq> known (AddToGroupVersion lib gv s)) \<and>
     (\<forall>f s. fst (f s) = None \<longrightarrow> SchemeBuilder_AddToScheme lib f s = f s)"

lemma AddToScheme_known:
  assumes "scheme_laws known lib"
  shows "fst (AddToScheme lib s) = None"
    and "known s \<union> {(GroupVersion, ''PackingProfile''), (GroupVersion, ''PackingProfileList'')} \<subseteq> known (snd (AddToScheme lib s))"
proof -
  have "AddToScheme lib s = addKnownTypes lib s"
    using assms by (simp add: AddToScheme_def scheme_laws_def addKnownTypes_def Let_def)
  moreover have typed: "known (AddKnownTypes lib GroupVersion ks t) = known t \<union> Pair GroupVersion ` set ks" for ks t
    using assms by (simp add: scheme_laws_def)
  moreover have kept: "known t \<subseteq> known (AddToGroupVersion lib GroupVersion t)" for t
    using assms by (simp add: scheme_laws_def)
  ultimately show "fst (AddToScheme lib s) = None"
    "known s \<union> {(GroupVersion, ''PackingProfile''), (GroupVersion, ''PackingProfileList'')} \<subseteq> known (snd (AddToScheme lib s))"
    using kept [of "AddKnownTypes lib GroupVersion [''PackingProfile'', ''PackingProfileList''] s"]
    by (auto simp: addKnownTypes_def Let_def typed)
qed

lemma main_run:
  assumes "main lib m env mounted pod_ns others args s = (0, s')" and "flag_Parse others ''leader-elect'' args False = Inr leader"
  obtains s2 s3 s4 s5 s6 s7 s8 where "ensureCerts env (certgen_New (main_certConfig mounted pod_ns)) s2 = (Inr (), s3)"
    and "NewManager m (main_options (main_scheme lib) leader) s3 = (Inr (), s4)" "AddHealthzCheck m ''healthz'' s4 = (Inr (), s5)"
      "AddReadyzCheck m ''readyz'' (ReadyzCheck env (certgen_New (main_certConfig mounted pod_ns))) s5 = (Inr (), s6)"
      "mgr_Add m (certgen_New (main_certConfig mounted pod_ns)) s6 = (Inr (), s7)"
      "SetupWithManager m main_reconciler (mgr_Register m ''/mutate-v1-pod''
         (NewPodGateInjector (NewProfileResolver (GetAPIReader m))) s7) = (Inr (), s8)"
    and "mgr_Start m s8 = (Inr (), s')"
  using assms unfolding main_def EnsureCerts_def Let_def by (auto simp: or_exit_zero)

lemma main_started:
  fixes m :: "('s, 'sc, 'q) Mgr" and env :: "('s, 'key) Env" and mounted :: "io_error + bytes" and pod_ns :: string
  defines "p \<equiv> certgen_New (main_certConfig mounted pod_ns)"
  assumes laws: "store_laws env v" "mgr_silent v m" "scheme_laws known lib"
    and run: "main lib m env mounted pod_ns others args s = (0, s')" and flags: "flag_Parse others ''leader-elect'' args False = Inr leader"
  shows "\<exists>opts s0 s0' s1 sec. NewManager m opts s0 = (Inr (), s0') \<and> LeaderElection opts = leader \<and> WebhookCertDir opts = CertDir (cfg p) \<and>
    {(GroupVersion, ''PackingProfile''), (GroupVersion, ''PackingProfileList'')} \<subseteq> known (mgr_Scheme opts) \<and>
    mgr_Start m s1 = (Inr (), s') \<and> v_secret v s1 (cfg_Namespace (cfg p)) (SecretName (cfg p)) = Some sec \<and>
    files_hold v p (mget [] (secret_Data sec) ''tls.crt'') (mget [] (secret_Data sec) ''tls.key'') s1"
proof -
  let ?o = "main_options (main_scheme lib) leader"
  obtain s2 s3 s4 s5 s6 s7 s8 where ens: "ensureCerts env p s2 = (Inr (), s3)"
    and steps: "NewManager m ?o s3 = (Inr (), s4)" "AddHealthzCheck m ''healthz'' s4 = (Inr (), s5)"
      "AddReadyzCheck m ''readyz'' (ReadyzCheck env p) s5 = (Inr (), s6)" "mgr_Add m p s6 = (Inr (), s7)"
      "SetupWithManager m main_reconciler (mgr_Register m ''/mutate-v1-pod''
         (NewPodGateInjector (NewProfileResolver (GetAPIReader m))) s7) = (Inr (), s8)"
    and start: "mgr_Start m s8 = (Inr (), s')"
    unfolding p_def using run flags by (rule main_run)
  have "seen v s4 = seen v s3" "seen v s5 = seen v s4" "seen v s6 = seen v s5" "seen v s7 = seen v s6"
    using laws(2) steps(1-4) by (auto simp: mgr_silent_def silent_def)
  moreover have "seen v s8 = seen v s7"
    using laws(2) steps(5) by (auto simp: mgr_silent_def silent_def SetupWithManager_def)
  ultimately have "seen v s8 = seen v s3" by simp
  with ensureCerts_post [OF laws(1) ens] obtain sec where "v_secret v s8 (cfg_Namespace (cfg p)) (SecretName (cfg p)) = Some sec"
      "files_hold v p (mget [] (secret_Data sec) ''tls.crt'') (mget [] (secret_Data sec) ''tls.key'') s8"
    by (auto simp: seen_iff files_hold_def)
  moreover have "{(GroupVersion, ''PackingProfile''), (GroupVersion, ''PackingProfileList'')} \<subseteq> known (mgr_Scheme ?o)"
    using AddToScheme_known(2) [OF laws(3)] by (simp add: main_options_def main_scheme_def Let_def)
  moreover have "LeaderElection ?o = leader" "WebhookCertDir ?o = CertDir (cfg p)"
    by (simp_all add: main_options_def p_def certgen_New_def main_certConfig_def)
  ultimately show ?thesis using steps(1) start by blast
qed

text \<open>
  C31: the server only starts with its certificates in place. If the program is run with arguments that set the flag to \<open>leader\<close> and ends
  normally, a manager was created with this leader election setting, with a scheme that knows the
  kinds of this API and with the directory of the certificates, and it was started in a state where the Secret exists and both certificate files
  agree with it, with a controller whose ledger satisfies the invariant. If the certificates cannot be ensured, the
  program exits with code 1 whatever the manager would do; with a flag nobody knows it exits with code 2 and does nothing.
\<close>

theorem main_starts_after_certs:
  fixes m :: "('s, 'sc, 'q) Mgr" and env :: "('s, 'key) Env" and mounted :: "io_error + bytes" and pod_ns :: string
  defines "p \<equiv> certgen_New (main_certConfig mounted pod_ns)"
  assumes laws: "store_laws env v" "mgr_silent v m" "scheme_laws known lib"
    and set: "list_all2 (\<lambda>sp b. means sp = Some b) sps bs"
  shows "(main lib m env mounted pod_ns others (map (spell ''leader-elect'') sps) s = (0, s') \<longrightarrow>
      (\<exists>opts s0 s0' s1 sec. NewManager m opts s0 = (Inr (), s0') \<and> LeaderElection opts = last (False # bs) \<and> WebhookCertDir opts = CertDir (cfg p) \<and>
        {(GroupVersion, ''PackingProfile''), (GroupVersion, ''PackingProfileList'')} \<subseteq> known (mgr_Scheme opts) \<and>
        mgr_Start m s1 = (Inr (), s') \<and> v_secret v s1 (cfg_Namespace (cfg p)) (SecretName (cfg p)) = Some sec \<and>
        files_hold v p (mget [] (secret_Data sec) ''tls.crt'') (mget [] (secret_Data sec) ''tls.key'') s1)) \<and>
    sync_inv (rc_Ledger main_reconciler) \<and>
    (\<forall>s1 s2 s3 e. GetConfigOrDie m s = (Inr (), s1) \<longrightarrow> NewForConfig m s1 = (Inr (), s2) \<longrightarrow>
       EnsureCerts env p s2 = (Inl e, s3) \<longrightarrow> main lib m env mounted pod_ns others (map (spell ''leader-elect'') sps) s = (1, s3)) \<and>
    (\<forall>n sp rest. plain_name n \<longrightarrow> n \<notin> {''leader-elect'', ''help'', ''h''} \<longrightarrow> others n = None \<longrightarrow>
       main lib m env mounted pod_ns others (map (spell ''leader-elect'') sps @ spell n sp # rest) s = (2, s))"
proof -
  have name: "plain_name ''leader-elect''" by (simp add: plain_name_def)
  note parse = flag_Parse_settings [OF name set, where b = False]
  have flags: "flag_Parse others ''leader-elect'' (map (spell ''leader-elect'') sps) False = Inr (last (False # bs))"
    using parse [of others "[]"] by simp
  have "sync_inv (rc_Ledger main_reconciler)" by (simp add: main_reconciler_def sync_inv_New)
  moreover have "main lib m env mounted pod_ns others (map (spell ''leader-elect'') sps) s = (1, s3)"
    if "GetConfigOrDie m s = (Inr (), s1)" "NewForConfig m s1 = (Inr (), s2)" "EnsureCerts env p s2 = (Inl e, s3)" for s1 s2 s3 e
    using that by (simp add: main_def p_def or_exit_def Let_def flags)
  moreover have "main lib m env mounted pod_ns others (map (spell ''leader-elect'') sps @ spell n sp # rest) s = (2, s)"
    if "plain_name n" "n \<notin> {''leader-elect'', ''help'', ''h''}" "others n = None" for n sp rest
  proof -
    have "flag_Parse others ''leader-elect'' (map (spell ''leader-elect'') sps @ spell n sp # rest) False = Inl 2"
      unfolding parse by (rule flag_Parse_unknown) (use that in auto)
    then show ?thesis by (simp add: main_def)
  qed
  ultimately show ?thesis
    unfolding p_def using main_started [OF laws _ flags] by (intro conjI allI impI) simp_all
qed

definition idle_manager :: "(World, (schema_GroupVersion \<times> string) list, int64) Mgr" where
  "idle_manager =
     \<lparr>GetConfigOrDie = io_return (), NewForConfig = io_return (), NewManager = (\<lambda>_. io_return ()),
      AddHealthzCheck = (\<lambda>_. io_return ()), AddReadyzCheck = (\<lambda>_ _. io_return ()), mgr_Add = (\<lambda>_. io_return ()),
      GetAPIReader = (\<lambda>n. Inl (NotFound n)), mgr_Register = (\<lambda>_ _ s. s), Complete = (\<lambda>_ _. io_return ()),
      mgr_Start = io_return ()\<rparr>"

definition list_scheme :: "(schema_GroupVersion \<times> string) list SchemeLib" where
  "list_scheme =
     \<lparr>NewScheme = [], AddKnownTypes = (\<lambda>gv ks s. s @ map (Pair gv) ks), AddToGroupVersion = (\<lambda>gv s. s @ [(gv, ''WatchEvent'')]),
      SchemeBuilder_AddToScheme = (\<lambda>f. f), corev1_AddToScheme = Pair None, coordinationv1_AddToScheme = Pair None\<rparr>"

theorem main_starts_after_certs_witness:
  "main list_scheme idle_manager (memory_env False) (Inl (SysErr ''no such file'')) '''' (\<lambda>_. None) [''--leader-elect=true''] empty_world
     = (1, provisioned_world False)"
proof -
  have silent: "mgr_silent world_view idle_manager" by (simp add: mgr_silent_def idle_manager_def)
  have scheme: "scheme_laws set list_scheme" by (auto simp: scheme_laws_def list_scheme_def)
  have arg: "list_all2 (\<lambda>sp b. means sp = Some b) [Spelling True (Some ''true'')] [True]"
    "map (spell ''leader-elect'') [Spelling True (Some ''true'')] = [''--leader-elect=true'']"
    by (simp_all add: means_def ParseBool_def spell_def)
  have "EnsureCerts (memory_env False) sample_provisioner empty_world =
      (Inl (Errorf ''patch webhook caBundle'' (ApiErr (OtherError ''forbidden''))), provisioned_world False)"
    by (simp add: EnsureCerts_def memory_ensure_empty memory_provision)
  moreover have "GetConfigOrDie idle_manager empty_world = (Inr (), empty_world)"
    "NewForConfig idle_manager empty_world = (Inr (), empty_world)"
    by (simp_all add: idle_manager_def io_return_def)
  ultimately show ?thesis
    using main_starts_after_certs [OF memory_store_laws silent scheme arg(1)] unfolding sample_provisioner_def arg(2) by blast
qed

end
