(* ===== verification/GoHeap.thy ===== *)
theory GoHeap
  imports Prelude "HOL-Library.Monad_Syntax" "HOL-Library.Sublist"
begin

text \<open>
  Go's memory where sharing matters: a heap of cells, slices and maps and pointers as addresses into it,
  and what the source uses of \<^verbatim>\<open>new\<close>, \<^verbatim>\<open>make\<close>, \<^verbatim>\<open>copy\<close> and \<^verbatim>\<open>range\<close> on them. A cell holds a whole
  array, map or struct. A heap is the list of the cells allocated so far and an address is an index, so the next free address is the
  length. An operation that would touch memory that is not there, or not of the expected type, yields
  \<open>None\<close>; Go's type system excludes both, and the theorems show that it does not happen.

  The locale \<open>copier\<close> is the contract of a deep copy: it succeeds on every readable object, the copy reads the same,
  the old cells are untouched and everything the copy consists of is fresh.
\<close>

section \<open>Cells\<close>

type_synonym addr = nat
type_synonym 'c heap = "'c list"

definition cell :: "'c heap \<Rightarrow> addr \<Rightarrow> 'c option" where
  "cell h a = (if a < length h then Some (h ! a) else None)"

definition alloc :: "'c \<Rightarrow> 'c heap \<Rightarrow> addr \<times> 'c heap" where
  "alloc c h = (length h, h @ [c])"

definition store :: "addr \<Rightarrow> 'c \<Rightarrow> 'c heap \<Rightarrow> 'c heap option" where
  "store a c h = (if a < length h then Some (h[a := c]) else None)"

text \<open>How the contents of one Go type are kept in a cell.\<close>

record ('e, 'c) kind =
  mk :: "'e \<Rightarrow> 'c"
  un :: "'c \<Rightarrow> 'e option"

definition kind_ok :: "('e, 'c) kind \<Rightarrow> bool" where
  "kind_ok K \<longleftrightarrow> (\<forall>x. un K (mk K x) = Some x)"

definition load :: "('e, 'c) kind \<Rightarrow> 'c heap \<Rightarrow> addr \<Rightarrow> 'e option" where
  "load K h a = Option.bind (cell h a) (un K)"

section \<open>Slices, maps and pointers\<close>

text \<open>A slice is a window of an array; its capacity is never looked at.\<close>

record Slice =
  sl_ptr :: addr
  sl_off :: nat
  sl_len :: nat

definition elems :: "('e list, 'c) kind \<Rightarrow> 'c heap \<Rightarrow> Slice \<Rightarrow> 'e list option" where
  "elems K h s = do {
     xs \<leftarrow> load K h (sl_ptr s);
     if sl_off s + sl_len s \<le> length xs then Some (take (sl_len s) (drop (sl_off s) xs)) else None }"

text \<open>\<^verbatim>\<open>make([]T, n)\<close>: a fresh array of zero values.\<close>

definition make_slice :: "('e list, 'c) kind \<Rightarrow> 'e \<Rightarrow> nat \<Rightarrow> 'c heap \<Rightarrow> Slice \<times> 'c heap" where
  "make_slice K zero n h =
     (case alloc (mk K (replicate n zero)) h of (a, h') \<Rightarrow> (\<lparr>sl_ptr = a, sl_off = 0, sl_len = n\<rparr>, h'))"

text \<open>\<^verbatim>\<open>copy(dst, src)\<close>: as many elements as both have.\<close>

definition copy_slice :: "('e list, 'c) kind \<Rightarrow> Slice \<Rightarrow> Slice \<Rightarrow> 'c heap \<Rightarrow> 'c heap option" where
  "copy_slice K dst src h = do {
     xs \<leftarrow> elems K h src;
     ys \<leftarrow> load K h (sl_ptr dst);
     let n = min (sl_len dst) (sl_len src);
     store (sl_ptr dst) (mk K (take (sl_off dst) ys @ take n xs @ drop (sl_off dst + n) ys)) h }"

text \<open>\<^verbatim>\<open>s[i] = x\<close>; out of range Go panics.\<close>

definition set_elem :: "('e list, 'c) kind \<Rightarrow> Slice \<Rightarrow> nat \<Rightarrow> 'e \<Rightarrow> 'c heap \<Rightarrow> 'c heap option" where
  "set_elem K s i x h = do {
     ys \<leftarrow> load K h (sl_ptr s);
     if i < sl_len s \<and> sl_off s + sl_len s \<le> length ys then store (sl_ptr s) (mk K (ys[sl_off s + i := x])) h else None }"

text \<open>\<^verbatim>\<open>*out = make([]T, len(*in)); copy(*out, *in)\<close>\<close>

definition dup_slice :: "('e list, 'c) kind \<Rightarrow> 'e \<Rightarrow> Slice \<Rightarrow> 'c heap \<Rightarrow> (Slice \<times> 'c heap) option" where
  "dup_slice K zero s h =
     (case make_slice K zero (sl_len s) h of (s', h1) \<Rightarrow> do {
        h2 \<leftarrow> copy_slice K s' s h1;
        Some (s', h2) })"

text \<open>\<^verbatim>\<open>for i := range *in { (*in)[i].DeepCopyInto(&(*out)[i]) }\<close>, from index \<open>i\<close> for \<open>n\<close> rounds\<close>

primrec copy_elems ::
  "('e list, 'c) kind \<Rightarrow> ('e \<Rightarrow> 'c heap \<Rightarrow> ('e \<times> 'c heap) option) \<Rightarrow> Slice \<Rightarrow> Slice \<Rightarrow> nat \<Rightarrow> nat \<Rightarrow> 'c heap
   \<Rightarrow> 'c heap option" where
  "copy_elems K f src dst i 0 h = Some h"
| "copy_elems K f src dst i (Suc n) h = do {
     xs \<leftarrow> elems K h src;
     (y, h1) \<leftarrow> f (xs ! i) h;
     h2 \<leftarrow> set_elem K dst i y h1;
     copy_elems K f src dst (Suc i) n h2 }"

definition dup_slice_deep ::
  "('e list, 'c) kind \<Rightarrow> 'e \<Rightarrow> ('e \<Rightarrow> 'c heap \<Rightarrow> ('e \<times> 'c heap) option) \<Rightarrow> Slice \<Rightarrow> 'c heap
   \<Rightarrow> (Slice \<times> 'c heap) option" where
  "dup_slice_deep K zero f s h =
     (case make_slice K zero (sl_len s) h of (s', h1) \<Rightarrow> do {
        h2 \<leftarrow> copy_elems K f s s' 0 (sl_len s) h1;
        Some (s', h2) })"

text \<open>\<^verbatim>\<open>*out = make(map[K]V, len(*in)); for key, val := range *in { (*out)[key] = val }\<close>\<close>

primrec range_put :: "(('k, 'v) gmap, 'c) kind \<Rightarrow> addr \<Rightarrow> ('k, 'v) gmap \<Rightarrow> 'c heap \<Rightarrow> 'c heap option" where
  "range_put K out [] h = Some h"
| "range_put K out (e # m) h = do {
     t \<leftarrow> load K h out;
     h1 \<leftarrow> store out (mk K (mput (fst e) (snd e) t)) h;
     range_put K out m h1 }"

definition dup_map :: "(('k, 'v) gmap, 'c) kind \<Rightarrow> addr \<Rightarrow> 'c heap \<Rightarrow> (addr \<times> 'c heap) option" where
  "dup_map K a h =
     (case alloc (mk K []) h of (out, h1) \<Rightarrow> do {
        m \<leftarrow> load K h1 a;
        h2 \<leftarrow> range_put K out m h1;
        Some (out, h2) })"

text \<open>
  \<^verbatim>\<open>out := new(T); in.DeepCopyInto(out)\<close>: \<open>f\<close> maps the struct read through \<^verbatim>\<open>in\<close> to the one left behind \<^verbatim>\<open>out\<close>.
  With \<open>f\<close> the plain assignment this is also \<^verbatim>\<open>*out = new(T); **out = **in\<close>.
\<close>

definition dup_ptr ::
  "('e, 'c) kind \<Rightarrow> 'e \<Rightarrow> ('e \<Rightarrow> 'c heap \<Rightarrow> ('e \<times> 'c heap) option) \<Rightarrow> addr \<Rightarrow> 'c heap \<Rightarrow> (addr \<times> 'c heap) option" where
  "dup_ptr K zero f a h =
     (case alloc (mk K zero) h of (out, h1) \<Rightarrow> do {
        x \<leftarrow> load K h1 a;
        (y, h2) \<leftarrow> f x h1;
        h3 \<leftarrow> store out (mk K y) h2;
        Some (out, h3) })"

text \<open>\<^verbatim>\<open>if in.F != nil { ... }\<close> after \<^verbatim>\<open>*out = *in\<close>\<close>

definition if_set :: "('a \<Rightarrow> 'c heap \<Rightarrow> ('a \<times> 'c heap) option) \<Rightarrow> 'a option \<Rightarrow> 'c heap \<Rightarrow> ('a option \<times> 'c heap) option" where
  "if_set f x h = (case x of None \<Rightarrow> Some (None, h) | Some y \<Rightarrow> do { (y', h') \<leftarrow> f y h; Some (Some y', h') })"

text \<open>\<^verbatim>\<open>*out = *in\<close> for a struct without references\<close>

definition assign :: "'a \<Rightarrow> 'c heap \<Rightarrow> ('a \<times> 'c heap) option" where
  "assign x h = Some (x, h)"

section \<open>What an object reads as, and the cells it consists of\<close>

definition rd_flat :: "'c heap \<Rightarrow> 'a \<Rightarrow> 'a option" where
  "rd_flat h x = Some x"

definition refs_flat :: "'c heap \<Rightarrow> 'a \<Rightarrow> addr set" where
  "refs_flat h x = {}"

definition rd_opt :: "('c heap \<Rightarrow> 'a \<Rightarrow> 'v option) \<Rightarrow> 'c heap \<Rightarrow> 'a option \<Rightarrow> 'v option option" where
  "rd_opt rd h x = (case x of None \<Rightarrow> Some None | Some y \<Rightarrow> map_option Some (rd h y))"

definition refs_opt :: "('c heap \<Rightarrow> 'a \<Rightarrow> addr set) \<Rightarrow> 'c heap \<Rightarrow> 'a option \<Rightarrow> addr set" where
  "refs_opt refs h x = (case x of None \<Rightarrow> {} | Some y \<Rightarrow> refs h y)"

definition rd_slice :: "('e list, 'c) kind \<Rightarrow> ('c heap \<Rightarrow> 'e \<Rightarrow> 'v option) \<Rightarrow> 'c heap \<Rightarrow> Slice \<Rightarrow> 'v list option" where
  "rd_slice K rd h s = Option.bind (elems K h s) (\<lambda>xs. those (map (rd h) xs))"

definition refs_slice ::
  "('e list, 'c) kind \<Rightarrow> ('c heap \<Rightarrow> 'e \<Rightarrow> addr set) \<Rightarrow> 'c heap \<Rightarrow> Slice \<Rightarrow> addr set" where
  "refs_slice K refs h s = insert (sl_ptr s) (case elems K h s of None \<Rightarrow> {} | Some xs \<Rightarrow> \<Union> (refs h ` set xs))"

definition rd_map :: "(('k, 'v) gmap, 'c) kind \<Rightarrow> 'c heap \<Rightarrow> addr \<Rightarrow> ('k \<Rightarrow> 'v option) option" where
  "rd_map K h a = Option.bind (load K h a) (\<lambda>m. if wf_gmap m then Some (map_of m) else None)"

definition refs_map :: "'c heap \<Rightarrow> addr \<Rightarrow> addr set" where
  "refs_map h a = {a}"

definition rd_ptr :: "('e, 'c) kind \<Rightarrow> ('c heap \<Rightarrow> 'e \<Rightarrow> 'v option) \<Rightarrow> 'c heap \<Rightarrow> addr \<Rightarrow> 'v option" where
  "rd_ptr K rd h a = Option.bind (load K h a) (rd h)"

definition refs_ptr :: "('e, 'c) kind \<Rightarrow> ('c heap \<Rightarrow> 'e \<Rightarrow> addr set) \<Rightarrow> 'c heap \<Rightarrow> addr \<Rightarrow> addr set" where
  "refs_ptr K refs h a = insert a (case load K h a of None \<Rightarrow> {} | Some x \<Rightarrow> refs h x)"


section \<open>The contract of a deep copy\<close>

locale copier =
  fixes rd :: "'c heap \<Rightarrow> 'a \<Rightarrow> 'v option"
    and refs :: "'c heap \<Rightarrow> 'a \<Rightarrow> addr set"
    and cp :: "'a \<Rightarrow> 'c heap \<Rightarrow> ('a \<times> 'c heap) option"
  assumes local: "\<forall>a \<in> refs h x. cell h' a = cell h a \<Longrightarrow> rd h' x = rd h x \<and> refs h' x = refs h x"
    and live: "rd h x = Some v \<Longrightarrow> refs h x \<subseteq> {..<length h}"
    and copies: "rd h x = Some v \<Longrightarrow>
      \<exists>x' h'. cp x h = Some (x', h') \<and> prefix h h' \<and> rd h' x' = Some v \<and> refs h' x' \<subseteq> {length h..<length h'}"

lemma cell_prefix: "prefix h h' \<Longrightarrow> a < length h \<Longrightarrow> cell h' a = cell h a"
  by (auto simp: prefix_def cell_def nth_append)

lemma load_prefix: "load K h a = Some x \<Longrightarrow> prefix h h' \<Longrightarrow> load K h' a = Some x"
  by (auto simp: load_def cell_def prefix_def nth_append split: if_splits)

lemma load_cell: "cell h' a = cell h a \<Longrightarrow> load K h' a = load K h a"
  by (simp add: load_def)

lemma load_bound: "load K h a = Some x \<Longrightarrow> a < length h"
  by (auto simp: load_def cell_def split: if_splits)

lemma load_middle [simp]: "kind_ok K \<Longrightarrow> load K (h @ mk K x # g) (length h) = Some x"
  by (simp add: load_def cell_def kind_ok_def)

lemma store_middle [simp]: "store (length h) c (h @ c' # g) = Some (h @ c # g)"
  by (simp add: store_def)

lemma cell_middle: "a \<noteq> length h \<Longrightarrow> cell (h @ c # g) a = cell (h @ c' # g) a"
  by (auto simp: cell_def nth_append nth_Cons')

context copier
begin

lemma stable:
  assumes "rd h x = Some v" and "prefix h h'"
  shows "rd h' x = Some v" and "refs h' x = refs h x"
proof -
  have "\<forall>a \<in> refs h x. cell h' a = cell h a"
    using live [OF assms(1)] cell_prefix [OF assms(2)] by auto
  with local [of h x h'] assms(1) show "rd h' x = Some v" "refs h' x = refs h x" by simp_all
qed

text \<open>Nothing is shared: writes to either of original and copy leave the other as it is.\<close>

lemma independent:
  assumes "rd h x = Some v" and "cp x h = Some (x', h')"
  shows "prefix h h' \<and> rd h' x = Some v \<and> rd h' x' = Some v \<and> refs h' x \<inter> refs h' x' = {} \<and>
    (\<forall>h''. (\<forall>a. a \<notin> refs h' x' \<longrightarrow> cell h'' a = cell h' a) \<longrightarrow> rd h'' x = Some v) \<and>
    (\<forall>h''. (\<forall>a. a \<notin> refs h' x \<longrightarrow> cell h'' a = cell h' a) \<longrightarrow> rd h'' x' = Some v)"
proof -
  have c: "prefix h h'" "rd h' x' = Some v" "refs h' x' \<subseteq> {length h..<length h'}"
    using copies [OF assms(1)] assms(2) by auto
  note s = stable [OF assms(1) c(1)]
  have disj: "refs h' x \<inter> refs h' x' = {}"
    using live [OF assms(1)] s(2) c(3) by force
  have "rd h'' x = Some v" if "\<forall>a. a \<notin> refs h' x' \<longrightarrow> cell h'' a = cell h' a" for h''
    using local [of h' x h''] s(1) that disj by auto
  moreover have "rd h'' x' = Some v" if "\<forall>a. a \<notin> refs h' x \<longrightarrow> cell h'' a = cell h' a" for h''
    using local [of h' x' h''] c(2) that disj by auto
  ultimately show ?thesis
    using c s disj by blast
qed

end

section \<open>Copies of structs from copies of their fields\<close>

lemma copier_flat: "copier rd_flat refs_flat assign"
  by unfold_locales (simp_all add: rd_flat_def refs_flat_def assign_def)

lemma copier_opt:
  assumes "copier rd refs cp"
  shows "copier (rd_opt rd) (refs_opt refs) (if_set cp)"
proof
  fix h h' :: "'a heap" and x :: "'b option" and v
  show "\<forall>a \<in> refs_opt refs h x. cell h' a = cell h a \<Longrightarrow>
      rd_opt rd h' x = rd_opt rd h x \<and> refs_opt refs h' x = refs_opt refs h x"
    using copier.local [OF assms, of h _ h'] by (cases x) (simp_all add: rd_opt_def refs_opt_def)
  assume v: "rd_opt rd h x = Some v"
  then show "refs_opt refs h x \<subseteq> {..<length h}"
    using copier.live [OF assms] by (cases x) (auto simp: rd_opt_def refs_opt_def)
  show "\<exists>x' h'. if_set cp x h = Some (x', h') \<and> prefix h h' \<and> rd_opt rd h' x' = Some v \<and>
      refs_opt refs h' x' \<subseteq> {length h..<length h'}"
  proof (cases x)
    case None
    with v show ?thesis by (simp add: rd_opt_def refs_opt_def if_set_def)
  next
    case (Some y)
    with v obtain w where w: "rd h y = Some w" "v = Some w" by (auto simp: rd_opt_def)
    from copier.copies [OF assms w(1)] obtain y' h'' where "cp y h = Some (y', h'')" "prefix h h''" "rd h'' y' = Some w"
        "refs h'' y' \<subseteq> {length h..<length h''}"
      by blast
    then show ?thesis
      by (intro exI [of _ "Some y'"] exI [of _ h'']) (simp add: Some w(2) rd_opt_def refs_opt_def if_set_def)
  qed
qed

definition rd_pair ::
  "('c heap \<Rightarrow> 'a \<Rightarrow> 'v option) \<Rightarrow> ('c heap \<Rightarrow> 'b \<Rightarrow> 'w option) \<Rightarrow> 'c heap \<Rightarrow> 'a \<times> 'b \<Rightarrow> ('v \<times> 'w) option" where
  "rd_pair rd1 rd2 h p = do { v \<leftarrow> rd1 h (fst p); w \<leftarrow> rd2 h (snd p); Some (v, w) }"

definition refs_pair ::
  "('c heap \<Rightarrow> 'a \<Rightarrow> addr set) \<Rightarrow> ('c heap \<Rightarrow> 'b \<Rightarrow> addr set) \<Rightarrow> 'c heap \<Rightarrow> 'a \<times> 'b \<Rightarrow> addr set" where
  "refs_pair refs1 refs2 h p = refs1 h (fst p) \<union> refs2 h (snd p)"

definition then_copy ::
  "('a \<Rightarrow> 'c heap \<Rightarrow> ('a \<times> 'c heap) option) \<Rightarrow> ('b \<Rightarrow> 'c heap \<Rightarrow> ('b \<times> 'c heap) option)
   \<Rightarrow> 'a \<times> 'b \<Rightarrow> 'c heap \<Rightarrow> (('a \<times> 'b) \<times> 'c heap) option" where
  "then_copy cp1 cp2 p h = do { (x, h1) \<leftarrow> cp1 (fst p) h; (y, h2) \<leftarrow> cp2 (snd p) h1; Some ((x, y), h2) }"

lemma rd_pair_Some [simp]:
  "rd_pair rd1 rd2 h p = Some vw \<longleftrightarrow> rd1 h (fst p) = Some (fst vw) \<and> rd2 h (snd p) = Some (snd vw)"
  by (cases vw) (auto simp: rd_pair_def bind_eq_Some_conv)

lemma copier_pair:
  assumes "copier rd1 refs1 cp1" and "copier rd2 refs2 cp2"
  shows "copier (rd_pair rd1 rd2) (refs_pair refs1 refs2) (then_copy cp1 cp2)"
proof
  fix h h' :: "'a heap" and p :: "'b \<times> 'd" and vw
  show "\<forall>a \<in> refs_pair refs1 refs2 h p. cell h' a = cell h a \<Longrightarrow>
      rd_pair rd1 rd2 h' p = rd_pair rd1 rd2 h p \<and> refs_pair refs1 refs2 h' p = refs_pair refs1 refs2 h p"
    using copier.local [OF assms(1), of h "fst p" h'] copier.local [OF assms(2), of h "snd p" h']
    by (simp add: rd_pair_def refs_pair_def)
  assume v: "rd_pair rd1 rd2 h p = Some vw"
  then show "refs_pair refs1 refs2 h p \<subseteq> {..<length h}"
    using copier.live [OF assms(1)] copier.live [OF assms(2)] by (simp add: refs_pair_def)
  from v obtain x h1 where 1: "cp1 (fst p) h = Some (x, h1)" "prefix h h1" "rd1 h1 x = Some (fst vw)"
      "refs1 h1 x \<subseteq> {length h..<length h1}"
    using copier.copies [OF assms(1), of h "fst p" "fst vw"] by auto
  have "rd2 h1 (snd p) = Some (snd vw)"
    using v copier.stable(1) [OF assms(2) _ 1(2)] by simp
  then obtain y h2 where 2: "cp2 (snd p) h1 = Some (y, h2)" "prefix h1 h2" "rd2 h2 y = Some (snd vw)"
      "refs2 h2 y \<subseteq> {length h1..<length h2}"
    using copier.copies [OF assms(2)] by blast
  note 3 = copier.stable [OF assms(1) 1(3) 2(2)]
  have "length h \<le> length h1" "length h1 \<le> length h2" using 1(2) 2(2) by (auto dest: prefix_length_le)
  then have "refs_pair refs1 refs2 h2 (x, y) \<subseteq> {length h..<length h2}"
    using 1(4) 2(4) 3(2) by (auto simp: refs_pair_def)
  with 1 2 3 show "\<exists>x' h'. then_copy cp1 cp2 p h = Some (x', h') \<and> prefix h h' \<and> rd_pair rd1 rd2 h' x' = Some vw \<and>
      refs_pair refs1 refs2 h' x' \<subseteq> {length h..<length h'}"
    by (intro exI [of _ "(x, y)"] exI [of _ h2]) (auto simp: then_copy_def intro: prefix_order.trans)
qed

text \<open>A struct is copied by copying its reference fields \<open>get\<close> and putting the copies back.\<close>

lemma copier_struct:
  assumes "copier rd refs cp"
    and "\<And>h x. rd' h x = map_option (vput x) (rd h (get x))" and "\<And>h x. refs' h x = refs h (get x)"
    and "\<And>x h. cp' x h = map_option (apfst (put x)) (cp (get x) h)"
    and "\<And>x y. get (put x y) = y" and "\<And>x y v. vput (put x y) v = vput x v"
  shows "copier rd' refs' cp'"
proof
  fix h h' :: "'a heap" and x v
  show "\<forall>a \<in> refs' h x. cell h' a = cell h a \<Longrightarrow> rd' h' x = rd' h x \<and> refs' h' x = refs' h x"
    using copier.local [OF assms(1), of h "get x" h'] by (simp add: assms(2,3))
  assume "rd' h x = Some v"
  then obtain w where w: "rd h (get x) = Some w" "v = vput x w" by (auto simp: assms(2))
  show "refs' h x \<subseteq> {..<length h}"
    using copier.live [OF assms(1) w(1)] by (simp add: assms(3))
  from copier.copies [OF assms(1) w(1)]
  show "\<exists>x' h'. cp' x h = Some (x', h') \<and> prefix h h' \<and> rd' h' x' = Some v \<and> refs' h' x' \<subseteq> {length h..<length h'}"
    by (auto simp: assms(2-6) w(2))
qed

section \<open>Copies of slices, maps and pointers\<close>

lemma elems_cell: "cell h' (sl_ptr s) = cell h (sl_ptr s) \<Longrightarrow> elems K h' s = elems K h s"
  using load_cell [of h' "sl_ptr s" h K] by (simp add: elems_def)

lemma elems_prefix: "elems K h s = Some xs \<Longrightarrow> prefix h h' \<Longrightarrow> elems K h' s = Some xs"
  using load_prefix [of K h "sl_ptr s" _ h'] by (cases "load K h (sl_ptr s)") (simp_all add: elems_def)

lemma elems_bound: "elems K h s = Some xs \<Longrightarrow> sl_ptr s < length h \<and> length xs = sl_len s"
  by (auto simp: elems_def bind_eq_Some_conv dest: load_bound split: if_splits)

lemma elems_whole [simp]:
  "kind_ok K \<Longrightarrow> length xs = n \<Longrightarrow> elems K (h @ mk K xs # g) \<lparr>sl_ptr = length h, sl_off = 0, sl_len = n\<rparr> = Some xs"
  by (simp add: elems_def)

lemma those_Some: "those (map f xs) = Some vs \<longleftrightarrow> list_all2 (\<lambda>x v. f x = Some v) xs vs"
  by (induction xs arbitrary: vs) (auto simp: list_all2_Cons1 split: option.split)

lemma those_map_Some [simp]: "those (map Some xs) = Some xs"
  by (induction xs) simp_all

lemma rd_slice_flat: "rd_slice K rd_flat h s = elems K h s"
  by (cases "elems K h s") (simp_all add: rd_slice_def rd_flat_def [abs_def])

lemma dup_slice_eq:
  assumes "kind_ok K" and "elems K h s = Some xs"
  shows "dup_slice K zero s h = Some (\<lparr>sl_ptr = length h, sl_off = 0, sl_len = sl_len s\<rparr>, h @ [mk K xs])"
proof -
  have "elems K (h @ [mk K (replicate (sl_len s) zero)]) s = Some xs"
    using elems_prefix [OF assms(2)] by simp
  moreover have "length xs = sl_len s" using elems_bound [OF assms(2)] by simp
  ultimately show ?thesis
    by (simp add: dup_slice_def make_slice_def alloc_def copy_slice_def assms(1) Let_def)
qed

lemma copier_slice:
  assumes "kind_ok K"
  shows "copier (rd_slice K rd_flat) (refs_slice K refs_flat) (dup_slice K zero)"
proof
  fix h h' :: "'b heap" and s v
  have refs: "refs_slice K refs_flat g t = {sl_ptr t}" for g t
    by (auto simp: refs_slice_def refs_flat_def split: option.split)
  show "\<forall>a \<in> refs_slice K refs_flat h s. cell h' a = cell h a \<Longrightarrow>
      rd_slice K rd_flat h' s = rd_slice K rd_flat h s \<and> refs_slice K refs_flat h' s = refs_slice K refs_flat h s"
    using elems_cell [of h' s h K] by (simp add: refs rd_slice_flat)
  assume v: "rd_slice K rd_flat h s = Some v"
  then show "refs_slice K refs_flat h s \<subseteq> {..<length h}"
    using elems_bound [of K h s v] by (simp add: refs rd_slice_flat)
  show "\<exists>x' h'. dup_slice K zero s h = Some (x', h') \<and> prefix h h' \<and> rd_slice K rd_flat h' x' = Some v \<and>
      refs_slice K refs_flat h' x' \<subseteq> {length h..<length h'}"
    using dup_slice_eq [OF assms, of h s v zero] elems_bound [of K h s v] v assms
    by (simp add: refs rd_slice_flat)
qed

text \<open>Maps: the copy has the same lookups, in whatever order the entries come.\<close>

lemma range_put_eq:
  "kind_ok K \<Longrightarrow> range_put K (length h) m (h @ [mk K t]) = Some (h @ [mk K (fold (\<lambda>e. mput (fst e) (snd e)) m t)])"
  by (induction m arbitrary: t) simp_all

lemma map_of_refill: "wf_gmap m \<Longrightarrow> map_of (fold (\<lambda>e. mput (fst e) (snd e)) m t) = map_of t ++ map_of m"
proof (induction m arbitrary: t)
  case Nil
  then show ?case by simp
next
  case (Cons e m)
  then have "fst e \<notin> dom (map_of m)" by (simp add: wf_gmap_def dom_map_of_conv_image_fst)
  with Cons show ?case
    by (cases e) (auto simp: wf_gmap_def map_of_mput fun_eq_iff map_add_def split: option.split)
qed

lemma wf_refill: "wf_gmap t \<Longrightarrow> wf_gmap (fold (\<lambda>e. mput (fst e) (snd e)) m t)"
  by (induction m arbitrary: t) (simp_all add: wf_gmap_def mput_def distinct_update)

lemma copier_map:
  assumes "kind_ok K"
  shows "copier (rd_map K) refs_map (dup_map K)"
proof
  fix h h' :: "'c heap" and a v
  show "\<forall>b \<in> refs_map h a. cell h' b = cell h b \<Longrightarrow> rd_map K h' a = rd_map K h a \<and> refs_map h' a = refs_map h a"
    using load_cell [of h' a h K] by (simp add: rd_map_def refs_map_def)
  assume "rd_map K h a = Some v"
  then obtain m where m: "load K h a = Some m" "wf_gmap m" "v = map_of m"
    by (auto simp: rd_map_def bind_eq_Some_conv split: if_splits)
  from m(1) show "refs_map h a \<subseteq> {..<length h}" by (auto simp: refs_map_def dest: load_bound)
  let ?m = "fold (\<lambda>e. mput (fst e) (snd e)) m []"
  have "dup_map K a h = Some (length h, h @ [mk K ?m])"
    using load_prefix [OF m(1), of "h @ [mk K []]"] range_put_eq [OF assms]
    by (simp add: dup_map_def alloc_def)
  moreover have "wf_gmap ?m" "map_of ?m = map_of m"
    using wf_refill [of "[]" m] map_of_refill [OF m(2), of "[]"] by (simp_all add: wf_gmap_def)
  ultimately show "\<exists>x' h'. dup_map K a h = Some (x', h') \<and> prefix h h' \<and> rd_map K h' x' = Some v \<and>
      refs_map h' x' \<subseteq> {length h..<length h'}"
    using assms m(3) by (simp add: rd_map_def refs_map_def)
qed

text \<open>Pointers to structs.\<close>

lemma copier_ptr:
  assumes K: "kind_ok K" and f: "copier rd refs f"
  shows "copier (rd_ptr K rd) (refs_ptr K refs) (dup_ptr K zero f)"
proof
  fix h h' :: "'b heap" and a v
  show "\<forall>b \<in> refs_ptr K refs h a. cell h' b = cell h b \<Longrightarrow>
      rd_ptr K rd h' a = rd_ptr K rd h a \<and> refs_ptr K refs h' a = refs_ptr K refs h a"
    using load_cell [of h' a h K] copier.local [OF f, of h _ h']
    by (cases "load K h a") (simp_all add: rd_ptr_def refs_ptr_def)
  assume "rd_ptr K rd h a = Some v"
  then obtain x where x: "load K h a = Some x" "rd h x = Some v" by (auto simp: rd_ptr_def bind_eq_Some_conv)
  show "refs_ptr K refs h a \<subseteq> {..<length h}"
    using load_bound [OF x(1)] copier.live [OF f x(2)] by (simp add: refs_ptr_def x(1))
  let ?h1 = "h @ [mk K zero]"
  have x1: "load K ?h1 a = Some x" "rd ?h1 x = Some v"
    using load_prefix [OF x(1)] copier.stable(1) [OF f x(2)] by simp_all
  obtain y g where y: "f x ?h1 = Some (y, ?h1 @ g)" "rd (?h1 @ g) y = Some v"
      "refs (?h1 @ g) y \<subseteq> {length ?h1..<length (?h1 @ g)}"
    using copier.copies [OF f x1(2)] unfolding prefix_def by blast
  let ?h3 = "h @ mk K y # g"
  have footprint: "\<forall>a \<in> refs (?h1 @ g) y. cell ?h3 a = cell (?h1 @ g) a"
    using y(3) by (auto intro!: cell_middle)
  have same: "rd ?h3 y = Some v" "refs ?h3 y = refs (?h1 @ g) y"
    using copier.local [OF f footprint] y(2) by simp_all
  have "dup_ptr K zero f a h = Some (length h, ?h3)"
    using x1(1) y(1) by (simp add: dup_ptr_def alloc_def)
  then show "\<exists>x' h'. dup_ptr K zero f a h = Some (x', h') \<and> prefix h h' \<and> rd_ptr K rd h' x' = Some v \<and>
      refs_ptr K refs h' x' \<subseteq> {length h..<length h'}"
    using K same y(3) by (auto simp: rd_ptr_def refs_ptr_def)
qed

text \<open>Slices of structs that hold references themselves: the loop over the elements.\<close>

context copier
begin

definition copied_above :: "nat \<Rightarrow> 'c heap \<Rightarrow> 'a \<Rightarrow> 'v \<Rightarrow> bool" where
  "copied_above b h y v \<longleftrightarrow> rd h y = Some v \<and> refs h y \<subseteq> {b..<length h}"

lemma copied_above_kept:
  assumes "copied_above (Suc b) h y v" and "length h \<le> length h'"
    and "\<And>a. b < a \<Longrightarrow> a < length h \<Longrightarrow> cell h' a = cell h a"
  shows "copied_above (Suc b) h' y v"
proof -
  have "\<forall>a \<in> refs h y. cell h' a = cell h a"
    using assms(1,3) unfolding copied_above_def by force
  with local [of h y h'] assms(1,2) show ?thesis unfolding copied_above_def by force
qed

lemma copy_elems_ok:
  assumes K: "kind_ok K" and src: "elems K h s = Some xs" and vals: "list_all2 (\<lambda>x v. rd h x = Some v) xs vs"
  shows "i + n = length xs \<Longrightarrow> length ys = length xs \<Longrightarrow>
    (\<forall>j < i. copied_above (Suc (length h)) (h @ mk K ys # g) (ys ! j) (vs ! j)) \<Longrightarrow>
    \<exists>ys' g'. copy_elems K cp s \<lparr>sl_ptr = length h, sl_off = 0, sl_len = length xs\<rparr> i n (h @ mk K ys # g) = Some (h @ mk K ys' # g') \<and>
      length ys' = length xs \<and> (\<forall>j < length xs. copied_above (Suc (length h)) (h @ mk K ys' # g') (ys' ! j) (vs ! j))"
proof (induction n arbitrary: i ys g)
  case 0
  then show ?case by auto
next
  case (Suc n)
  let ?h = "h @ mk K ys # g"
  have "rd h (xs ! i) = Some (vs ! i)"
    using vals Suc.prems(1) by (auto simp: list_all2_conv_all_nth)
  then have "rd ?h (xs ! i) = Some (vs ! i)" by (rule stable) simp
  from copies [OF this] obtain y g1 where y: "cp (xs ! i) ?h = Some (y, ?h @ g1)" "rd (?h @ g1) y = Some (vs ! i)"
      "refs (?h @ g1) y \<subseteq> {length ?h..<length (?h @ g1)}"
    unfolding prefix_def by blast
  let ?h2 = "h @ mk K (ys[i := y]) # g @ g1"
  have set: "set_elem K \<lparr>sl_ptr = length h, sl_off = 0, sl_len = length xs\<rparr> i y (?h @ g1) = Some ?h2"
    using K Suc.prems(1,2) by (simp add: set_elem_def)
  have kept: "copied_above (Suc (length h)) ?h2 z v" if "copied_above (Suc (length h)) (?h @ g1) z v" for z v
    by (rule copied_above_kept [OF that]) (auto simp: cell_def nth_append nth_Cons')
  have old: "copied_above (Suc (length h)) (?h @ g1) (ys ! j) (vs ! j)" if "j < i" for j
    by (rule copied_above_kept [OF Suc.prems(3) [rule_format, OF that]]) (auto simp: cell_def nth_append nth_Cons')
  have "copied_above (Suc (length h)) (?h @ g1) y (vs ! i)"
    using y(2,3) unfolding copied_above_def by force
  then have "\<forall>j < Suc i. copied_above (Suc (length h)) ?h2 (ys[i := y] ! j) (vs ! j)"
    using kept old Suc.prems(1,2) by (auto simp: less_Suc_eq)
  from Suc.IH [OF _ _ this] Suc.prems(1,2) show ?case
    using elems_prefix [OF src, of ?h] y(1) set by simp
qed

end

lemma copier_slice_deep:
  assumes K: "kind_ok K" and f: "copier rd refs f"
  shows "copier (rd_slice K rd) (refs_slice K refs) (dup_slice_deep K zero f)"
proof
  fix h h' :: "'b heap" and s v
  show "\<forall>a \<in> refs_slice K refs h s. cell h' a = cell h a \<Longrightarrow>
      rd_slice K rd h' s = rd_slice K rd h s \<and> refs_slice K refs h' s = refs_slice K refs h s"
    using elems_cell [of h' s h K] copier.local [OF f, of h _ h']
    by (cases "elems K h s") (auto simp: rd_slice_def refs_slice_def cong: map_cong)
  assume "rd_slice K rd h s = Some v"
  then obtain xs where xs: "elems K h s = Some xs" "list_all2 (\<lambda>x v. rd h x = Some v) xs v"
    by (auto simp: rd_slice_def bind_eq_Some_conv those_Some)
  have n: "length xs = sl_len s" using elems_bound [OF xs(1)] by simp
  show "refs_slice K refs h s \<subseteq> {..<length h}"
    using elems_bound [OF xs(1)] copier.live [OF f] xs(2)
    by (fastforce simp: refs_slice_def xs(1) list_all2_conv_all_nth in_set_conv_nth)
  obtain ys g where loop: "copy_elems K f s \<lparr>sl_ptr = length h, sl_off = 0, sl_len = sl_len s\<rparr> 0 (sl_len s)
        (h @ [mk K (replicate (sl_len s) zero)]) = Some (h @ mk K ys # g)"
      and ys: "length ys = sl_len s"
      "\<forall>j < sl_len s. copier.copied_above rd refs (Suc (length h)) (h @ mk K ys # g) (ys ! j) (v ! j)"
    using copier.copy_elems_ok [OF f K xs, of 0 "length xs" "replicate (sl_len s) zero" "[]"] n by auto
  then have "list_all2 (\<lambda>y w. rd (h @ mk K ys # g) y = Some w) ys v"
    using list_all2_lengthD [OF xs(2)] n by (auto simp: list_all2_conv_all_nth copier.copied_above_def [OF f])
  moreover have "\<Union> (refs (h @ mk K ys # g) ` set ys) \<subseteq> {length h..<length (h @ mk K ys # g)}"
    using ys by (fastforce simp: in_set_conv_nth copier.copied_above_def [OF f])
  ultimately show "\<exists>x' h'. dup_slice_deep K zero f s h = Some (x', h') \<and> prefix h h' \<and> rd_slice K rd h' x' = Some v \<and>
      refs_slice K refs h' x' \<subseteq> {length h..<length h'}"
    using K loop ys(1)
    by (simp add: dup_slice_deep_def make_slice_def alloc_def rd_slice_def refs_slice_def those_Some)
qed

end
