(* ===== verification/DeepCopy.thy ===== *)
theory DeepCopy
  imports GoHeap KubeTypes
begin

text \<open>
  The deep copies of the API types (\<^verbatim>\<open>src/api/v1alpha1/zz_generated.deepcopy.go\<close>) on a heap. Every read through
  the Kubernetes client hands out such a copy, so that the controller may write to what it was given.

  The types of \<^verbatim>\<open>packingprofile_types.go\<close> appear here as they lie in memory: a record is parametrised over what its reference
  fields hold, addresses and slices in memory (\<open>CapacitySource_mem\<close>) and the values read from there otherwise, with \<open>None\<close> for nil.
  \<^verbatim>\<open>in.DeepCopyInto(out)\<close> is a function of the struct behind \<^verbatim>\<open>in\<close> and the heap to the struct left behind \<^verbatim>\<open>out\<close> and the new
  heap; \<^verbatim>\<open>in\<close> and \<^verbatim>\<open>out\<close> do not overlap, since every call of the source passes an \<^verbatim>\<open>out\<close> it has just allocated.
  \<^verbatim>\<open>ObjectMeta\<close>, \<^verbatim>\<open>ListMeta\<close> and \<^verbatim>\<open>Condition\<close> and their deep copies belong to \<^verbatim>\<open>k8s.io/apimachinery\<close>: they are the
  types \<open>'om\<close>, \<open>'lm\<close> and \<open>'cond\<close> and the argument \<open>L\<close>; what they keep on the heap is a cell \<open>CForeign\<close>.
\<close>

section \<open>The types in memory\<close>

record ('amap, 'lmap, 'taints) NodeGroupTemplate_rep =
  r_NamePrefix :: string
  r_InstanceType :: string
  r_Allocatable :: 'amap
  r_Labels :: 'lmap
  r_Taints :: 'taints

record 'strs DemandSource_rep =
  r_ds_Type :: string
  r_ds_Resources :: 'strs
  r_AdditionalResources :: 'strs
  r_Annotation :: string
  r_Unit :: string

record ('strs, 'labelref, 'templates) CapacitySource_rep =
  r_cs_Type :: string
  r_cs_Resources :: 'strs
  r_Label :: string
  r_PerDeviceCount :: 'labelref
  r_NodeGroupTemplates :: 'templates

record ('reqs, 'strs) ReadinessSignal_rep =
  r_NodeConditions :: 'reqs
  r_RequiredLabels :: 'strs

record ('ds, 'cs, 'rs, 'rules) PackingProfileSpec_rep =
  r_DemandSource :: 'ds
  r_CapacitySource :: 'cs
  r_ReadinessSignal :: 'rs
  r_Rules :: 'rules
  r_ReservationTimeout :: string

record ('strs, 'conds) PackingProfileStatus_rep =
  r_ActiveGates :: "32 word"
  r_InflightNodes :: "32 word"
  r_ActiveDetectors :: 'strs
  r_Conditions :: 'conds

record TypeMeta =
  tm_Kind :: string
  tm_APIVersion :: string

record ('om, 'spec, 'status) PackingProfile_rep =
  r_TypeMeta :: TypeMeta
  r_ObjectMeta :: 'om
  r_Spec :: 'spec
  r_Status :: 'status

record ('lm, 'items) PackingProfileList_rep =
  r_list_TypeMeta :: TypeMeta
  r_ListMeta :: 'lm
  r_Items :: 'items

type_synonym NodeGroupTemplate_mem = "(addr option, addr option, Slice option) NodeGroupTemplate_rep"
type_synonym DemandSource_mem = "Slice option DemandSource_rep"
type_synonym CapacitySource_mem = "(Slice option, addr option, Slice option) CapacitySource_rep"
type_synonym ReadinessSignal_mem = "(Slice option, Slice option) ReadinessSignal_rep"
type_synonym PackingProfileSpec_mem =
  "(DemandSource_mem, CapacitySource_mem, ReadinessSignal_mem, Slice option) PackingProfileSpec_rep"
type_synonym PackingProfileStatus_mem = "(Slice option, Slice option) PackingProfileStatus_rep"
type_synonym 'om PackingProfile_mem = "('om, PackingProfileSpec_mem, PackingProfileStatus_mem) PackingProfile_rep"
type_synonym 'lm PackingProfileList_mem = "('lm, Slice option) PackingProfileList_rep"

datatype ('om, 'lm, 'cond, 'x) gocell =
    CStrings "string list"
  | CTaints "NodeGroupTaint list"
  | CRequirements "NodeConditionRequirement list"
  | CRules "RuleRef list"
  | CTemplates "NodeGroupTemplate_mem list"
  | CConditions "'cond list"
  | CProfiles "'om PackingProfile_mem list"
  | CAllocatable resources
  | CLabels smap
  | CLabelRef LabelRef
  | CRequirement NodeConditionRequirement
  | CTaint NodeGroupTaint
  | CRule RuleRef
  | CTemplate NodeGroupTemplate_mem
  | CDemandSource DemandSource_mem
  | CCapacitySource CapacitySource_mem
  | CReadinessSignal ReadinessSignal_mem
  | CSpec PackingProfileSpec_mem
  | CStatus PackingProfileStatus_mem
  | CProfile "'om PackingProfile_mem"
  | CProfileList "'lm PackingProfileList_mem"
  | CForeign 'x

type_synonym ('om, 'lm, 'cond, 'x) memory = "('om, 'lm, 'cond, 'x) gocell heap"

text \<open>What is kept in which cell.\<close>

definition strings_kind :: "(string list, ('om, 'lm, 'cond, 'x) gocell) kind" where
  "strings_kind = \<lparr>mk = CStrings, un = (\<lambda>c. case c of CStrings x \<Rightarrow> Some x | _ \<Rightarrow> None)\<rparr>"

definition taints_kind :: "(NodeGroupTaint list, ('om, 'lm, 'cond, 'x) gocell) kind" where
  "taints_kind = \<lparr>mk = CTaints, un = (\<lambda>c. case c of CTaints x \<Rightarrow> Some x | _ \<Rightarrow> None)\<rparr>"

definition requirements_kind :: "(NodeConditionRequirement list, ('om, 'lm, 'cond, 'x) gocell) kind" where
  "requirements_kind = \<lparr>mk = CRequirements, un = (\<lambda>c. case c of CRequirements x \<Rightarrow> Some x | _ \<Rightarrow> None)\<rparr>"

definition rules_kind :: "(RuleRef list, ('om, 'lm, 'cond, 'x) gocell) kind" where
  "rules_kind = \<lparr>mk = CRules, un = (\<lambda>c. case c of CRules x \<Rightarrow> Some x | _ \<Rightarrow> None)\<rparr>"

definition templates_kind :: "(NodeGroupTemplate_mem list, ('om, 'lm, 'cond, 'x) gocell) kind" where
  "templates_kind = \<lparr>mk = CTemplates, un = (\<lambda>c. case c of CTemplates x \<Rightarrow> Some x | _ \<Rightarrow> None)\<rparr>"

definition conditions_kind :: "('cond list, ('om, 'lm, 'cond, 'x) gocell) kind" where
  "conditions_kind = \<lparr>mk = CConditions, un = (\<lambda>c. case c of CConditions x \<Rightarrow> Some x | _ \<Rightarrow> None)\<rparr>"

definition profiles_kind :: "('om PackingProfile_mem list, ('om, 'lm, 'cond, 'x) gocell) kind" where
  "profiles_kind = \<lparr>mk = CProfiles, un = (\<lambda>c. case c of CProfiles x \<Rightarrow> Some x | _ \<Rightarrow> None)\<rparr>"

definition allocatable_kind :: "(resources, ('om, 'lm, 'cond, 'x) gocell) kind" where
  "allocatable_kind = \<lparr>mk = CAllocatable, un = (\<lambda>c. case c of CAllocatable x \<Rightarrow> Some x | _ \<Rightarrow> None)\<rparr>"

definition labels_kind :: "(smap, ('om, 'lm, 'cond, 'x) gocell) kind" where
  "labels_kind = \<lparr>mk = CLabels, un = (\<lambda>c. case c of CLabels x \<Rightarrow> Some x | _ \<Rightarrow> None)\<rparr>"

definition LabelRef_kind :: "(LabelRef, ('om, 'lm, 'cond, 'x) gocell) kind" where
  "LabelRef_kind = \<lparr>mk = CLabelRef, un = (\<lambda>c. case c of CLabelRef x \<Rightarrow> Some x | _ \<Rightarrow> None)\<rparr>"

definition NodeConditionRequirement_kind :: "(NodeConditionRequirement, ('om, 'lm, 'cond, 'x) gocell) kind" where
  "NodeConditionRequirement_kind = \<lparr>mk = CRequirement, un = (\<lambda>c. case c of CRequirement x \<Rightarrow> Some x | _ \<Rightarrow> None)\<rparr>"

definition NodeGroupTaint_kind :: "(NodeGroupTaint, ('om, 'lm, 'cond, 'x) gocell) kind" where
  "NodeGroupTaint_kind = \<lparr>mk = CTaint, un = (\<lambda>c. case c of CTaint x \<Rightarrow> Some x | _ \<Rightarrow> None)\<rparr>"

definition RuleRef_kind :: "(RuleRef, ('om, 'lm, 'cond, 'x) gocell) kind" where
  "RuleRef_kind = \<lparr>mk = CRule, un = (\<lambda>c. case c of CRule x \<Rightarrow> Some x | _ \<Rightarrow> None)\<rparr>"

definition NodeGroupTemplate_kind :: "(NodeGroupTemplate_mem, ('om, 'lm, 'cond, 'x) gocell) kind" where
  "NodeGroupTemplate_kind = \<lparr>mk = CTemplate, un = (\<lambda>c. case c of CTemplate x \<Rightarrow> Some x | _ \<Rightarrow> None)\<rparr>"

definition DemandSource_kind :: "(DemandSource_mem, ('om, 'lm, 'cond, 'x) gocell) kind" where
  "DemandSource_kind = \<lparr>mk = CDemandSource, un = (\<lambda>c. case c of CDemandSource x \<Rightarrow> Some x | _ \<Rightarrow> None)\<rparr>"

definition CapacitySource_kind :: "(CapacitySource_mem, ('om, 'lm, 'cond, 'x) gocell) kind" where
  "CapacitySource_kind = \<lparr>mk = CCapacitySource, un = (\<lambda>c. case c of CCapacitySource x \<Rightarrow> Some x | _ \<Rightarrow> None)\<rparr>"

definition ReadinessSignal_kind :: "(ReadinessSignal_mem, ('om, 'lm, 'cond, 'x) gocell) kind" where
  "ReadinessSignal_kind = \<lparr>mk = CReadinessSignal, un = (\<lambda>c. case c of CReadinessSignal x \<Rightarrow> Some x | _ \<Rightarrow> None)\<rparr>"

definition PackingProfileSpec_kind :: "(PackingProfileSpec_mem, ('om, 'lm, 'cond, 'x) gocell) kind" where
  "PackingProfileSpec_kind = \<lparr>mk = CSpec, un = (\<lambda>c. case c of CSpec x \<Rightarrow> Some x | _ \<Rightarrow> None)\<rparr>"

definition PackingProfileStatus_kind :: "(PackingProfileStatus_mem, ('om, 'lm, 'cond, 'x) gocell) kind" where
  "PackingProfileStatus_kind = \<lparr>mk = CStatus, un = (\<lambda>c. case c of CStatus x \<Rightarrow> Some x | _ \<Rightarrow> None)\<rparr>"

definition PackingProfile_kind :: "('om PackingProfile_mem, ('om, 'lm, 'cond, 'x) gocell) kind" where
  "PackingProfile_kind = \<lparr>mk = CProfile, un = (\<lambda>c. case c of CProfile x \<Rightarrow> Some x | _ \<Rightarrow> None)\<rparr>"

definition PackingProfileList_kind :: "('lm PackingProfileList_mem, ('om, 'lm, 'cond, 'x) gocell) kind" where
  "PackingProfileList_kind = \<lparr>mk = CProfileList, un = (\<lambda>c. case c of CProfileList x \<Rightarrow> Some x | _ \<Rightarrow> None)\<rparr>"

lemma kinds_ok [simp]:
  "kind_ok strings_kind"
  "kind_ok taints_kind"
  "kind_ok requirements_kind"
  "kind_ok rules_kind"
  "kind_ok templates_kind"
  "kind_ok conditions_kind"
  "kind_ok profiles_kind"
  "kind_ok allocatable_kind"
  "kind_ok labels_kind"
  "kind_ok LabelRef_kind"
  "kind_ok NodeConditionRequirement_kind"
  "kind_ok NodeGroupTaint_kind"
  "kind_ok RuleRef_kind"
  "kind_ok NodeGroupTemplate_kind"
  "kind_ok DemandSource_kind"
  "kind_ok CapacitySource_kind"
  "kind_ok ReadinessSignal_kind"
  "kind_ok PackingProfileSpec_kind"
  "kind_ok PackingProfileStatus_kind"
  "kind_ok PackingProfile_kind"
  "kind_ok PackingProfileList_kind"
  by (simp_all add: kind_ok_def strings_kind_def taints_kind_def requirements_kind_def rules_kind_def templates_kind_def conditions_kind_def profiles_kind_def allocatable_kind_def labels_kind_def LabelRef_kind_def NodeConditionRequirement_kind_def NodeGroupTaint_kind_def RuleRef_kind_def NodeGroupTemplate_kind_def DemandSource_kind_def CapacitySource_kind_def ReadinessSignal_kind_def PackingProfileSpec_kind_def PackingProfileStatus_kind_def PackingProfile_kind_def PackingProfileList_kind_def)

text \<open>The zero values that \<^verbatim>\<open>new\<close> and \<^verbatim>\<open>make\<close> start from.\<close>

definition zero_NodeGroupTaint :: NodeGroupTaint where
  "zero_NodeGroupTaint = \<lparr>ngt_Key = '''', ngt_Value = '''', ngt_Effect = ''''\<rparr>"

definition zero_NodeConditionRequirement :: NodeConditionRequirement where
  "zero_NodeConditionRequirement = \<lparr>ncr_Type = '''', ncr_Status = ''''\<rparr>"

definition zero_NodeGroupTemplate :: NodeGroupTemplate_mem where
  "zero_NodeGroupTemplate =
     \<lparr>r_NamePrefix = '''', r_InstanceType = '''', r_Allocatable = None, r_Labels = None, r_Taints = None\<rparr>"

definition zero_DemandSource :: DemandSource_mem where
  "zero_DemandSource =
     \<lparr>r_ds_Type = '''', r_ds_Resources = None, r_AdditionalResources = None, r_Annotation = '''', r_Unit = ''''\<rparr>"

definition zero_CapacitySource :: CapacitySource_mem where
  "zero_CapacitySource =
     \<lparr>r_cs_Type = '''', r_cs_Resources = None, r_Label = '''', r_PerDeviceCount = None, r_NodeGroupTemplates = None\<rparr>"

definition zero_ReadinessSignal :: ReadinessSignal_mem where
  "zero_ReadinessSignal = \<lparr>r_NodeConditions = None, r_RequiredLabels = None\<rparr>"

definition zero_PackingProfileSpec :: PackingProfileSpec_mem where
  "zero_PackingProfileSpec =
     \<lparr>r_DemandSource = zero_DemandSource, r_CapacitySource = zero_CapacitySource, r_ReadinessSignal = zero_ReadinessSignal,
      r_Rules = None, r_ReservationTimeout = ''''\<rparr>"

definition zero_PackingProfileStatus :: PackingProfileStatus_mem where
  "zero_PackingProfileStatus = \<lparr>r_ActiveGates = 0, r_InflightNodes = 0, r_ActiveDetectors = None, r_Conditions = None\<rparr>"

definition zero_TypeMeta :: TypeMeta where
  "zero_TypeMeta = \<lparr>tm_Kind = '''', tm_APIVersion = ''''\<rparr>"

section \<open>The library's part\<close>

record ('om, 'lm, 'cond, 'c) ApiMachinery =
  ObjectMeta_DeepCopyInto :: "'om \<Rightarrow> 'c heap \<Rightarrow> ('om \<times> 'c heap) option"
  ListMeta_DeepCopyInto :: "'lm \<Rightarrow> 'c heap \<Rightarrow> ('lm \<times> 'c heap) option"
  Condition_DeepCopyInto :: "'cond \<Rightarrow> 'c heap \<Rightarrow> ('cond \<times> 'c heap) option"
  zero_ObjectMeta :: 'om
  zero_ListMeta :: 'lm
  zero_Condition :: 'cond

definition zero_PackingProfile :: "('om, 'lm, 'cond, 'c) ApiMachinery \<Rightarrow> 'om PackingProfile_mem" where
  "zero_PackingProfile L = \<lparr>r_TypeMeta = zero_TypeMeta, r_ObjectMeta = zero_ObjectMeta L, r_Spec = zero_PackingProfileSpec,
     r_Status = zero_PackingProfileStatus\<rparr>"

definition zero_PackingProfileList :: "('om, 'lm, 'cond, 'c) ApiMachinery \<Rightarrow> 'lm PackingProfileList_mem" where
  "zero_PackingProfileList L = \<lparr>r_list_TypeMeta = zero_TypeMeta, r_ListMeta = zero_ListMeta L, r_Items = None\<rparr>"

section \<open>Copies into a struct\<close>

text \<open>\<^verbatim>\<open>NodeGroupTemplate.DeepCopyInto\<close> comes before its caller.\<close>

definition NodeGroupTemplate_DeepCopyInto ::
  "NodeGroupTemplate_mem \<Rightarrow> ('om, 'lm, 'cond, 'x) memory \<Rightarrow> (NodeGroupTemplate_mem \<times> ('om, 'lm, 'cond, 'x) memory) option" where
  "NodeGroupTemplate_DeepCopyInto inp h = do {
     let out = inp;
     (a, h1) \<leftarrow> if_set (dup_map allocatable_kind) (r_Allocatable inp) h;
     let out = out\<lparr>r_Allocatable := a\<rparr>;
     (l, h2) \<leftarrow> if_set (dup_map labels_kind) (r_Labels inp) h1;
     let out = out\<lparr>r_Labels := l\<rparr>;
     (t, h3) \<leftarrow> if_set (dup_slice taints_kind zero_NodeGroupTaint) (r_Taints inp) h2;
     let out = out\<lparr>r_Taints := t\<rparr>;
     Some (out, h3) }"

definition CapacitySource_DeepCopyInto ::
  "CapacitySource_mem \<Rightarrow> ('om, 'lm, 'cond, 'x) memory \<Rightarrow> (CapacitySource_mem \<times> ('om, 'lm, 'cond, 'x) memory) option" where
  "CapacitySource_DeepCopyInto inp h = do {
     let out = inp;
     (r, h1) \<leftarrow> if_set (dup_slice strings_kind '''') (r_cs_Resources inp) h;
     let out = out\<lparr>r_cs_Resources := r\<rparr>;
     (d, h2) \<leftarrow> if_set (dup_ptr LabelRef_kind \<lparr>lr_Label = ''''\<rparr> assign) (r_PerDeviceCount inp) h1;
     let out = out\<lparr>r_PerDeviceCount := d\<rparr>;
     (t, h3) \<leftarrow> if_set (dup_slice_deep templates_kind zero_NodeGroupTemplate NodeGroupTemplate_DeepCopyInto) (r_NodeGroupTemplates inp) h2;
     let out = out\<lparr>r_NodeGroupTemplates := t\<rparr>;
     Some (out, h3) }"

definition DemandSource_DeepCopyInto ::
  "DemandSource_mem \<Rightarrow> ('om, 'lm, 'cond, 'x) memory \<Rightarrow> (DemandSource_mem \<times> ('om, 'lm, 'cond, 'x) memory) option" where
  "DemandSource_DeepCopyInto inp h = do {
     let out = inp;
     (r, h1) \<leftarrow> if_set (dup_slice strings_kind '''') (r_ds_Resources inp) h;
     let out = out\<lparr>r_ds_Resources := r\<rparr>;
     (a, h2) \<leftarrow> if_set (dup_slice strings_kind '''') (r_AdditionalResources inp) h1;
     let out = out\<lparr>r_AdditionalResources := a\<rparr>;
     Some (out, h2) }"

definition LabelRef_DeepCopyInto :: "LabelRef \<Rightarrow> 'c heap \<Rightarrow> (LabelRef \<times> 'c heap) option" where
  "LabelRef_DeepCopyInto = assign"

definition NodeConditionRequirement_DeepCopyInto ::
  "NodeConditionRequirement \<Rightarrow> 'c heap \<Rightarrow> (NodeConditionRequirement \<times> 'c heap) option" where
  "NodeConditionRequirement_DeepCopyInto = assign"

definition NodeGroupTaint_DeepCopyInto :: "NodeGroupTaint \<Rightarrow> 'c heap \<Rightarrow> (NodeGroupTaint \<times> 'c heap) option" where
  "NodeGroupTaint_DeepCopyInto = assign"

definition RuleRef_DeepCopyInto :: "RuleRef \<Rightarrow> 'c heap \<Rightarrow> (RuleRef \<times> 'c heap) option" where
  "RuleRef_DeepCopyInto = assign"

definition ReadinessSignal_DeepCopyInto ::
  "ReadinessSignal_mem \<Rightarrow> ('om, 'lm, 'cond, 'x) memory \<Rightarrow> (ReadinessSignal_mem \<times> ('om, 'lm, 'cond, 'x) memory) option" where
  "ReadinessSignal_DeepCopyInto inp h = do {
     let out = inp;
     (c, h1) \<leftarrow> if_set (dup_slice requirements_kind zero_NodeConditionRequirement) (r_NodeConditions inp) h;
     let out = out\<lparr>r_NodeConditions := c\<rparr>;
     (l, h2) \<leftarrow> if_set (dup_slice strings_kind '''') (r_RequiredLabels inp) h1;
     let out = out\<lparr>r_RequiredLabels := l\<rparr>;
     Some (out, h2) }"

definition PackingProfileSpec_DeepCopyInto ::
  "PackingProfileSpec_mem \<Rightarrow> ('om, 'lm, 'cond, 'x) memory \<Rightarrow> (PackingProfileSpec_mem \<times> ('om, 'lm, 'cond, 'x) memory) option" where
  "PackingProfileSpec_DeepCopyInto inp h = do {
     let out = inp;
     (d, h1) \<leftarrow> DemandSource_DeepCopyInto (r_DemandSource inp) h;
     let out = out\<lparr>r_DemandSource := d\<rparr>;
     (c, h2) \<leftarrow> CapacitySource_DeepCopyInto (r_CapacitySource inp) h1;
     let out = out\<lparr>r_CapacitySource := c\<rparr>;
     (s, h3) \<leftarrow> ReadinessSignal_DeepCopyInto (r_ReadinessSignal inp) h2;
     let out = out\<lparr>r_ReadinessSignal := s\<rparr>;
     (r, h4) \<leftarrow> if_set (dup_slice rules_kind \<lparr>rule_Name = ''''\<rparr>) (r_Rules inp) h3;
     let out = out\<lparr>r_Rules := r\<rparr>;
     Some (out, h4) }"

definition PackingProfileStatus_DeepCopyInto ::
  "('om, 'lm, 'cond, ('om, 'lm, 'cond, 'x) gocell) ApiMachinery \<Rightarrow> PackingProfileStatus_mem \<Rightarrow> ('om, 'lm, 'cond, 'x) memory
   \<Rightarrow> (PackingProfileStatus_mem \<times> ('om, 'lm, 'cond, 'x) memory) option" where
  "PackingProfileStatus_DeepCopyInto L inp h = do {
     let out = inp;
     (d, h1) \<leftarrow> if_set (dup_slice strings_kind '''') (r_ActiveDetectors inp) h;
     let out = out\<lparr>r_ActiveDetectors := d\<rparr>;
     (c, h2) \<leftarrow> if_set (dup_slice_deep conditions_kind (zero_Condition L) (Condition_DeepCopyInto L)) (r_Conditions inp) h1;
     let out = out\<lparr>r_Conditions := c\<rparr>;
     Some (out, h2) }"

definition PackingProfile_DeepCopyInto ::
  "('om, 'lm, 'cond, ('om, 'lm, 'cond, 'x) gocell) ApiMachinery \<Rightarrow> 'om PackingProfile_mem \<Rightarrow> ('om, 'lm, 'cond, 'x) memory
   \<Rightarrow> ('om PackingProfile_mem \<times> ('om, 'lm, 'cond, 'x) memory) option" where
  "PackingProfile_DeepCopyInto L inp h = do {
     let out = inp;
     let out = out\<lparr>r_TypeMeta := r_TypeMeta inp\<rparr>;
     (m, h1) \<leftarrow> ObjectMeta_DeepCopyInto L (r_ObjectMeta inp) h;
     let out = out\<lparr>r_ObjectMeta := m\<rparr>;
     (s, h2) \<leftarrow> PackingProfileSpec_DeepCopyInto (r_Spec inp) h1;
     let out = out\<lparr>r_Spec := s\<rparr>;
     (t, h3) \<leftarrow> PackingProfileStatus_DeepCopyInto L (r_Status inp) h2;
     let out = out\<lparr>r_Status := t\<rparr>;
     Some (out, h3) }"

definition PackingProfileList_DeepCopyInto ::
  "('om, 'lm, 'cond, ('om, 'lm, 'cond, 'x) gocell) ApiMachinery \<Rightarrow> 'lm PackingProfileList_mem \<Rightarrow> ('om, 'lm, 'cond, 'x) memory
   \<Rightarrow> ('lm PackingProfileList_mem \<times> ('om, 'lm, 'cond, 'x) memory) option" where
  "PackingProfileList_DeepCopyInto L inp h = do {
     let out = inp;
     let out = out\<lparr>r_list_TypeMeta := r_list_TypeMeta inp\<rparr>;
     (m, h1) \<leftarrow> ListMeta_DeepCopyInto L (r_ListMeta inp) h;
     let out = out\<lparr>r_ListMeta := m\<rparr>;
     (i, h2) \<leftarrow> if_set (dup_slice_deep profiles_kind (zero_PackingProfile L) (PackingProfile_DeepCopyInto L)) (r_Items inp) h1;
     let out = out\<lparr>r_Items := i\<rparr>;
     Some (out, h2) }"

section \<open>Copies behind a new pointer\<close>

text \<open>The methods \<^verbatim>\<open>DeepCopy\<close>: nil for nil, otherwise a new object that the receiver is copied into.\<close>

definition CapacitySource_DeepCopy ::
  "addr option \<Rightarrow> ('om, 'lm, 'cond, 'x) memory \<Rightarrow> (addr option \<times> ('om, 'lm, 'cond, 'x) memory) option" where
  "CapacitySource_DeepCopy = if_set (dup_ptr CapacitySource_kind zero_CapacitySource CapacitySource_DeepCopyInto)"

definition DemandSource_DeepCopy ::
  "addr option \<Rightarrow> ('om, 'lm, 'cond, 'x) memory \<Rightarrow> (addr option \<times> ('om, 'lm, 'cond, 'x) memory) option" where
  "DemandSource_DeepCopy = if_set (dup_ptr DemandSource_kind zero_DemandSource DemandSource_DeepCopyInto)"

definition LabelRef_DeepCopy ::
  "addr option \<Rightarrow> ('om, 'lm, 'cond, 'x) memory \<Rightarrow> (addr option \<times> ('om, 'lm, 'cond, 'x) memory) option" where
  "LabelRef_DeepCopy = if_set (dup_ptr LabelRef_kind \<lparr>lr_Label = ''''\<rparr> LabelRef_DeepCopyInto)"

definition NodeConditionRequirement_DeepCopy ::
  "addr option \<Rightarrow> ('om, 'lm, 'cond, 'x) memory \<Rightarrow> (addr option \<times> ('om, 'lm, 'cond, 'x) memory) option" where
  "NodeConditionRequirement_DeepCopy = if_set (dup_ptr NodeConditionRequirement_kind zero_NodeConditionRequirement NodeConditionRequirement_DeepCopyInto)"

definition NodeGroupTaint_DeepCopy ::
  "addr option \<Rightarrow> ('om, 'lm, 'cond, 'x) memory \<Rightarrow> (addr option \<times> ('om, 'lm, 'cond, 'x) memory) option" where
  "NodeGroupTaint_DeepCopy = if_set (dup_ptr NodeGroupTaint_kind zero_NodeGroupTaint NodeGroupTaint_DeepCopyInto)"

definition NodeGroupTemplate_DeepCopy ::
  "addr option \<Rightarrow> ('om, 'lm, 'cond, 'x) memory \<Rightarrow> (addr option \<times> ('om, 'lm, 'cond, 'x) memory) option" where
  "NodeGroupTemplate_DeepCopy = if_set (dup_ptr NodeGroupTemplate_kind zero_NodeGroupTemplate NodeGroupTemplate_DeepCopyInto)"

definition PackingProfile_DeepCopy ::
  "('om, 'lm, 'cond, ('om, 'lm, 'cond, 'x) gocell) ApiMachinery \<Rightarrow> addr option \<Rightarrow> ('om, 'lm, 'cond, 'x) memory
   \<Rightarrow> (addr option \<times> ('om, 'lm, 'cond, 'x) memory) option" where
  "PackingProfile_DeepCopy L = if_set (dup_ptr PackingProfile_kind (zero_PackingProfile L) (PackingProfile_DeepCopyInto L))"

definition PackingProfileList_DeepCopy ::
  "('om, 'lm, 'cond, ('om, 'lm, 'cond, 'x) gocell) ApiMachinery \<Rightarrow> addr option \<Rightarrow> ('om, 'lm, 'cond, 'x) memory
   \<Rightarrow> (addr option \<times> ('om, 'lm, 'cond, 'x) memory) option" where
  "PackingProfileList_DeepCopy L = if_set (dup_ptr PackingProfileList_kind (zero_PackingProfileList L) (PackingProfileList_DeepCopyInto L))"

definition PackingProfileSpec_DeepCopy ::
  "addr option \<Rightarrow> ('om, 'lm, 'cond, 'x) memory \<Rightarrow> (addr option \<times> ('om, 'lm, 'cond, 'x) memory) option" where
  "PackingProfileSpec_DeepCopy = if_set (dup_ptr PackingProfileSpec_kind zero_PackingProfileSpec PackingProfileSpec_DeepCopyInto)"

definition PackingProfileStatus_DeepCopy ::
  "('om, 'lm, 'cond, ('om, 'lm, 'cond, 'x) gocell) ApiMachinery \<Rightarrow> addr option \<Rightarrow> ('om, 'lm, 'cond, 'x) memory
   \<Rightarrow> (addr option \<times> ('om, 'lm, 'cond, 'x) memory) option" where
  "PackingProfileStatus_DeepCopy L = if_set (dup_ptr PackingProfileStatus_kind zero_PackingProfileStatus (PackingProfileStatus_DeepCopyInto L))"

definition ReadinessSignal_DeepCopy ::
  "addr option \<Rightarrow> ('om, 'lm, 'cond, 'x) memory \<Rightarrow> (addr option \<times> ('om, 'lm, 'cond, 'x) memory) option" where
  "ReadinessSignal_DeepCopy = if_set (dup_ptr ReadinessSignal_kind zero_ReadinessSignal ReadinessSignal_DeepCopyInto)"

definition RuleRef_DeepCopy ::
  "addr option \<Rightarrow> ('om, 'lm, 'cond, 'x) memory \<Rightarrow> (addr option \<times> ('om, 'lm, 'cond, 'x) memory) option" where
  "RuleRef_DeepCopy = if_set (dup_ptr RuleRef_kind \<lparr>rule_Name = ''''\<rparr> RuleRef_DeepCopyInto)"

text \<open>An interface value \<^verbatim>\<open>runtime.Object\<close>: nil, or a pointer with its type.\<close>

datatype Object = NilObject | ProfileObject addr | ProfileListObject addr

definition PackingProfile_DeepCopyObject ::
  "('om, 'lm, 'cond, ('om, 'lm, 'cond, 'x) gocell) ApiMachinery \<Rightarrow> addr option \<Rightarrow> ('om, 'lm, 'cond, 'x) memory
   \<Rightarrow> (Object \<times> ('om, 'lm, 'cond, 'x) memory) option" where
  "PackingProfile_DeepCopyObject L inp h = do {
     (c, h') \<leftarrow> PackingProfile_DeepCopy L inp h;
     Some (case c of Some p \<Rightarrow> ProfileObject p | None \<Rightarrow> NilObject, h') }"

definition PackingProfileList_DeepCopyObject ::
  "('om, 'lm, 'cond, ('om, 'lm, 'cond, 'x) gocell) ApiMachinery \<Rightarrow> addr option \<Rightarrow> ('om, 'lm, 'cond, 'x) memory
   \<Rightarrow> (Object \<times> ('om, 'lm, 'cond, 'x) memory) option" where
  "PackingProfileList_DeepCopyObject L inp h = do {
     (c, h') \<leftarrow> PackingProfileList_DeepCopy L inp h;
     Some (case c of Some p \<Rightarrow> ProfileListObject p | None \<Rightarrow> NilObject, h') }"

end
