(* ===== verification/DeepCopyProps.thy ===== *)
theory DeepCopyProps
  imports DeepCopy
begin

text \<open>
  The deep copies of the API types keep the contract \<open>copier\<close>: the copy reads the same, shares nothing with the original, and
  nothing else on the heap changes. Since a copy reads as the same value, the other theories may treat objects as values.
\<close>

section \<open>Reference fields\<close>

lemmas field_copier_rules = copier_opt [OF copier_slice] copier_opt [OF copier_map] copier_opt [OF copier_ptr [OF _ copier_flat]]

lemma strings_field: "copier (rd_opt (rd_slice strings_kind rd_flat)) (refs_opt (refs_slice strings_kind refs_flat)) (if_set (dup_slice strings_kind ''''))"
  and taints_field: "copier (rd_opt (rd_slice taints_kind rd_flat)) (refs_opt (refs_slice taints_kind refs_flat)) (if_set (dup_slice taints_kind zero_NodeGroupTaint))"
  and requirements_field:
    "copier (rd_opt (rd_slice requirements_kind rd_flat)) (refs_opt (refs_slice requirements_kind refs_flat)) (if_set (dup_slice requirements_kind zero_NodeConditionRequirement))"
  and rules_field: "copier (rd_opt (rd_slice rules_kind rd_flat)) (refs_opt (refs_slice rules_kind refs_flat)) (if_set (dup_slice rules_kind \<lparr>rule_Name = ''''\<rparr>))"
  and allocatable_field: "copier (rd_opt (rd_map allocatable_kind)) (refs_opt refs_map) (if_set (dup_map allocatable_kind))"
  and labels_field: "copier (rd_opt (rd_map labels_kind)) (refs_opt refs_map) (if_set (dup_map labels_kind))"
  and labelref_field:
    "copier (rd_opt (rd_ptr LabelRef_kind rd_flat)) (refs_opt (refs_ptr LabelRef_kind refs_flat)) (if_set (dup_ptr LabelRef_kind \<lparr>lr_Label = ''''\<rparr> assign))"
  by (rule field_copier_rules, simp)+

lemmas tuple_defs = rd_pair_def refs_pair_def then_copy_def Let_def option.map_comp

section \<open>Structs\<close>

definition rd_NodeGroupTemplate where
  "rd_NodeGroupTemplate h x = do {
     a \<leftarrow> rd_opt (rd_map allocatable_kind) h (r_Allocatable x);
     l \<leftarrow> rd_opt (rd_map labels_kind) h (r_Labels x);
     t \<leftarrow> rd_opt (rd_slice taints_kind rd_flat) h (r_Taints x);
     Some \<lparr>r_NamePrefix = r_NamePrefix x, r_InstanceType = r_InstanceType x, r_Allocatable = a, r_Labels = l, r_Taints = t\<rparr> }"

definition refs_NodeGroupTemplate where
  "refs_NodeGroupTemplate h x = refs_opt refs_map h (r_Allocatable x) \<union> (refs_opt refs_map h (r_Labels x) \<union> (refs_opt (refs_slice taints_kind refs_flat) h (r_Taints x)))"

interpretation NodeGroupTemplate: copier rd_NodeGroupTemplate refs_NodeGroupTemplate NodeGroupTemplate_DeepCopyInto
  by (rule copier_struct [where get = "\<lambda>x. (r_Allocatable x, r_Labels x, r_Taints x)" and put = "\<lambda>x (a, l, t). x\<lparr>r_Allocatable := a, r_Labels := l, r_Taints := t\<rparr>"
        and vput = "\<lambda>x (a, l, t). \<lparr>r_NamePrefix = r_NamePrefix x, r_InstanceType = r_InstanceType x, r_Allocatable = a, r_Labels = l, r_Taints = t\<rparr>",
        OF copier_pair [OF allocatable_field copier_pair [OF labels_field taints_field]]])
    (auto simp: rd_NodeGroupTemplate_def refs_NodeGroupTemplate_def NodeGroupTemplate_DeepCopyInto_def tuple_defs split: Option.bind_splits)

lemmas templates_field = copier_opt [OF copier_slice_deep [OF kinds_ok(5) NodeGroupTemplate.copier_axioms, where zero = zero_NodeGroupTemplate]]

definition rd_CapacitySource where
  "rd_CapacitySource h x = do {
     r \<leftarrow> rd_opt (rd_slice strings_kind rd_flat) h (r_cs_Resources x);
     d \<leftarrow> rd_opt (rd_ptr LabelRef_kind rd_flat) h (r_PerDeviceCount x);
     t \<leftarrow> rd_opt (rd_slice templates_kind rd_NodeGroupTemplate) h (r_NodeGroupTemplates x);
     Some \<lparr>r_cs_Type = r_cs_Type x, r_cs_Resources = r, r_Label = r_Label x, r_PerDeviceCount = d, r_NodeGroupTemplates = t\<rparr> }"

definition refs_CapacitySource where
  "refs_CapacitySource h x = refs_opt (refs_slice strings_kind refs_flat) h (r_cs_Resources x) \<union> (refs_opt (refs_ptr LabelRef_kind refs_flat) h (r_PerDeviceCount x) \<union> (refs_opt (refs_slice templates_kind refs_NodeGroupTemplate) h (r_NodeGroupTemplates x)))"

interpretation CapacitySource: copier rd_CapacitySource refs_CapacitySource CapacitySource_DeepCopyInto
  by (rule copier_struct [where get = "\<lambda>x. (r_cs_Resources x, r_PerDeviceCount x, r_NodeGroupTemplates x)" and put = "\<lambda>x (r, d, t). x\<lparr>r_cs_Resources := r, r_PerDeviceCount := d, r_NodeGroupTemplates := t\<rparr>"
        and vput = "\<lambda>x (r, d, t). \<lparr>r_cs_Type = r_cs_Type x, r_cs_Resources = r, r_Label = r_Label x, r_PerDeviceCount = d, r_NodeGroupTemplates = t\<rparr>",
        OF copier_pair [OF strings_field copier_pair [OF labelref_field templates_field]]])
    (auto simp: rd_CapacitySource_def refs_CapacitySource_def CapacitySource_DeepCopyInto_def tuple_defs split: Option.bind_splits)

definition rd_DemandSource where
  "rd_DemandSource h x = do {
     r \<leftarrow> rd_opt (rd_slice strings_kind rd_flat) h (r_ds_Resources x);
     a \<leftarrow> rd_opt (rd_slice strings_kind rd_flat) h (r_AdditionalResources x);
     Some \<lparr>r_ds_Type = r_ds_Type x, r_ds_Resources = r, r_AdditionalResources = a, r_Annotation = r_Annotation x, r_Unit = r_Unit x\<rparr> }"

definition refs_DemandSource where
  "refs_DemandSource h x = refs_opt (refs_slice strings_kind refs_flat) h (r_ds_Resources x) \<union> (refs_opt (refs_slice strings_kind refs_flat) h (r_AdditionalResources x))"

interpretation DemandSource: copier rd_DemandSource refs_DemandSource DemandSource_DeepCopyInto
  by (rule copier_struct [where get = "\<lambda>x. (r_ds_Resources x, r_AdditionalResources x)" and put = "\<lambda>x (r, a). x\<lparr>r_ds_Resources := r, r_AdditionalResources := a\<rparr>"
        and vput = "\<lambda>x (r, a). \<lparr>r_ds_Type = r_ds_Type x, r_ds_Resources = r, r_AdditionalResources = a, r_Annotation = r_Annotation x, r_Unit = r_Unit x\<rparr>",
        OF copier_pair [OF strings_field strings_field]])
    (auto simp: rd_DemandSource_def refs_DemandSource_def DemandSource_DeepCopyInto_def tuple_defs split: Option.bind_splits)

definition rd_ReadinessSignal where
  "rd_ReadinessSignal h x = do {
     c \<leftarrow> rd_opt (rd_slice requirements_kind rd_flat) h (r_NodeConditions x);
     l \<leftarrow> rd_opt (rd_slice strings_kind rd_flat) h (r_RequiredLabels x);
     Some \<lparr>r_NodeConditions = c, r_RequiredLabels = l\<rparr> }"

definition refs_ReadinessSignal where
  "refs_ReadinessSignal h x = refs_opt (refs_slice requirements_kind refs_flat) h (r_NodeConditions x) \<union> (refs_opt (refs_slice strings_kind refs_flat) h (r_RequiredLabels x))"

interpretation ReadinessSignal: copier rd_ReadinessSignal refs_ReadinessSignal ReadinessSignal_DeepCopyInto
  by (rule copier_struct [where get = "\<lambda>x. (r_NodeConditions x, r_RequiredLabels x)" and put = "\<lambda>x (c, l). x\<lparr>r_NodeConditions := c, r_RequiredLabels := l\<rparr>"
        and vput = "\<lambda>x (c, l). \<lparr>r_NodeConditions = c, r_RequiredLabels = l\<rparr>",
        OF copier_pair [OF requirements_field strings_field]])
    (auto simp: rd_ReadinessSignal_def refs_ReadinessSignal_def ReadinessSignal_DeepCopyInto_def tuple_defs split: Option.bind_splits)

definition rd_PackingProfileSpec where
  "rd_PackingProfileSpec h x = do {
     d \<leftarrow> rd_DemandSource h (r_DemandSource x);
     c \<leftarrow> rd_CapacitySource h (r_CapacitySource x);
     s \<leftarrow> rd_ReadinessSignal h (r_ReadinessSignal x);
     r \<leftarrow> rd_opt (rd_slice rules_kind rd_flat) h (r_Rules x);
     Some \<lparr>r_DemandSource = d, r_CapacitySource = c, r_ReadinessSignal = s, r_Rules = r, r_ReservationTimeout = r_ReservationTimeout x\<rparr> }"

definition refs_PackingProfileSpec where
  "refs_PackingProfileSpec h x = refs_DemandSource h (r_DemandSource x) \<union> (refs_CapacitySource h (r_CapacitySource x) \<union> (refs_ReadinessSignal h (r_ReadinessSignal x) \<union> (refs_opt (refs_slice rules_kind refs_flat) h (r_Rules x))))"

interpretation PackingProfileSpec: copier rd_PackingProfileSpec refs_PackingProfileSpec PackingProfileSpec_DeepCopyInto
  by (rule copier_struct [where get = "\<lambda>x. (r_DemandSource x, r_CapacitySource x, r_ReadinessSignal x, r_Rules x)" and put = "\<lambda>x (d, c, s, r). x\<lparr>r_DemandSource := d, r_CapacitySource := c, r_ReadinessSignal := s, r_Rules := r\<rparr>"
        and vput = "\<lambda>x (d, c, s, r). \<lparr>r_DemandSource = d, r_CapacitySource = c, r_ReadinessSignal = s, r_Rules = r, r_ReservationTimeout = r_ReservationTimeout x\<rparr>",
        OF copier_pair [OF DemandSource.copier_axioms copier_pair [OF CapacitySource.copier_axioms copier_pair [OF ReadinessSignal.copier_axioms rules_field]]]])
    (auto simp: rd_PackingProfileSpec_def refs_PackingProfileSpec_def PackingProfileSpec_DeepCopyInto_def tuple_defs split: Option.bind_splits)

text \<open>What is relied on of the library: its own deep copies keep the contract, read in some way \<open>V\<close>.\<close>

record ('om, 'lm, 'cond, 'omv, 'lmv, 'condv, 'c) MetaView =
  rd_ObjectMeta :: "'c heap \<Rightarrow> 'om \<Rightarrow> 'omv option"
  refs_ObjectMeta :: "'c heap \<Rightarrow> 'om \<Rightarrow> addr set"
  rd_ListMeta :: "'c heap \<Rightarrow> 'lm \<Rightarrow> 'lmv option"
  refs_ListMeta :: "'c heap \<Rightarrow> 'lm \<Rightarrow> addr set"
  rd_Condition :: "'c heap \<Rightarrow> 'cond \<Rightarrow> 'condv option"
  refs_Condition :: "'c heap \<Rightarrow> 'cond \<Rightarrow> addr set"

definition meta_laws ::
  "('om, 'lm, 'cond, 'c) ApiMachinery \<Rightarrow> ('om, 'lm, 'cond, 'omv, 'lmv, 'condv, 'c) MetaView \<Rightarrow> bool" where
  "meta_laws L V \<longleftrightarrow> copier (rd_ObjectMeta V) (refs_ObjectMeta V) (ObjectMeta_DeepCopyInto L) \<and>
     copier (rd_ListMeta V) (refs_ListMeta V) (ListMeta_DeepCopyInto L) \<and>
     copier (rd_Condition V) (refs_Condition V) (Condition_DeepCopyInto L)"

lemma meta_lawsD:
  assumes "meta_laws L V"
  shows "copier (rd_ObjectMeta V) (refs_ObjectMeta V) (ObjectMeta_DeepCopyInto L)"
    and "copier (rd_ListMeta V) (refs_ListMeta V) (ListMeta_DeepCopyInto L)"
    and "copier (rd_Condition V) (refs_Condition V) (Condition_DeepCopyInto L)"
  using assms by (simp_all add: meta_laws_def)

definition rd_PackingProfileStatus where
  "rd_PackingProfileStatus V h x = do {
     d \<leftarrow> rd_opt (rd_slice strings_kind rd_flat) h (r_ActiveDetectors x);
     c \<leftarrow> rd_opt (rd_slice conditions_kind (rd_Condition V)) h (r_Conditions x);
     Some \<lparr>r_ActiveGates = r_ActiveGates x, r_InflightNodes = r_InflightNodes x, r_ActiveDetectors = d, r_Conditions = c\<rparr> }"

definition refs_PackingProfileStatus where
  "refs_PackingProfileStatus V h x = refs_opt (refs_slice strings_kind refs_flat) h (r_ActiveDetectors x) \<union> (refs_opt (refs_slice conditions_kind (refs_Condition V)) h (r_Conditions x))"

lemma PackingProfileStatus_copier:
  assumes "meta_laws L V"
  shows "copier (rd_PackingProfileStatus V) (refs_PackingProfileStatus V) (PackingProfileStatus_DeepCopyInto L)"
  by (rule copier_struct [where get = "\<lambda>x. (r_ActiveDetectors x, r_Conditions x)" and put = "\<lambda>x (d, c). x\<lparr>r_ActiveDetectors := d, r_Conditions := c\<rparr>"
        and vput = "\<lambda>x (d, c). \<lparr>r_ActiveGates = r_ActiveGates x, r_InflightNodes = r_InflightNodes x, r_ActiveDetectors = d, r_Conditions = c\<rparr>",
        OF copier_pair [OF strings_field copier_opt [OF copier_slice_deep [OF kinds_ok(6) meta_lawsD(3) [OF assms], where zero = "zero_Condition L"]]]])
    (auto simp: rd_PackingProfileStatus_def refs_PackingProfileStatus_def PackingProfileStatus_DeepCopyInto_def tuple_defs split: Option.bind_splits)

definition rd_PackingProfile where
  "rd_PackingProfile V h x = do {
     m \<leftarrow> rd_ObjectMeta V h (r_ObjectMeta x);
     s \<leftarrow> rd_PackingProfileSpec h (r_Spec x);
     t \<leftarrow> rd_PackingProfileStatus V h (r_Status x);
     Some \<lparr>r_TypeMeta = r_TypeMeta x, r_ObjectMeta = m, r_Spec = s, r_Status = t\<rparr> }"

definition refs_PackingProfile where
  "refs_PackingProfile V h x = refs_ObjectMeta V h (r_ObjectMeta x) \<union> (refs_PackingProfileSpec h (r_Spec x) \<union> (refs_PackingProfileStatus V h (r_Status x)))"

lemma PackingProfile_copier:
  assumes "meta_laws L V"
  shows "copier (rd_PackingProfile V) (refs_PackingProfile V) (PackingProfile_DeepCopyInto L)"
  by (rule copier_struct [where get = "\<lambda>x. (r_ObjectMeta x, r_Spec x, r_Status x)" and put = "\<lambda>x (m, s, t). x\<lparr>r_ObjectMeta := m, r_Spec := s, r_Status := t\<rparr>"
        and vput = "\<lambda>x (m, s, t). \<lparr>r_TypeMeta = r_TypeMeta x, r_ObjectMeta = m, r_Spec = s, r_Status = t\<rparr>",
        OF copier_pair [OF meta_lawsD(1) [OF assms] copier_pair [OF PackingProfileSpec.copier_axioms PackingProfileStatus_copier [OF assms]]]])
    (auto simp: rd_PackingProfile_def refs_PackingProfile_def PackingProfile_DeepCopyInto_def tuple_defs split: Option.bind_splits)

definition rd_PackingProfileList where
  "rd_PackingProfileList V h x = do {
     m \<leftarrow> rd_ListMeta V h (r_ListMeta x);
     i \<leftarrow> rd_opt (rd_slice profiles_kind (rd_PackingProfile V)) h (r_Items x);
     Some \<lparr>r_list_TypeMeta = r_list_TypeMeta x, r_ListMeta = m, r_Items = i\<rparr> }"

definition refs_PackingProfileList where
  "refs_PackingProfileList V h x = refs_ListMeta V h (r_ListMeta x) \<union> (refs_opt (refs_slice profiles_kind (refs_PackingProfile V)) h (r_Items x))"

lemma PackingProfileList_copier:
  assumes "meta_laws L V"
  shows "copier (rd_PackingProfileList V) (refs_PackingProfileList V) (PackingProfileList_DeepCopyInto L)"
  by (rule copier_struct [where get = "\<lambda>x. (r_ListMeta x, r_Items x)" and put = "\<lambda>x (m, i). x\<lparr>r_ListMeta := m, r_Items := i\<rparr>"
        and vput = "\<lambda>x (m, i). \<lparr>r_list_TypeMeta = r_list_TypeMeta x, r_ListMeta = m, r_Items = i\<rparr>",
        OF copier_pair [OF meta_lawsD(2) [OF assms] copier_opt [OF copier_slice_deep [OF kinds_ok(7) PackingProfile_copier [OF assms], where zero = "zero_PackingProfile L"]]]])
    (auto simp: rd_PackingProfileList_def refs_PackingProfileList_def PackingProfileList_DeepCopyInto_def tuple_defs split: Option.bind_splits)

section \<open>Properties\<close>

abbreviation profile_at where
  "profile_at V \<equiv> rd_ptr PackingProfile_kind (rd_PackingProfile V)"

abbreviation profile_cells where
  "profile_cells V \<equiv> refs_ptr PackingProfile_kind (refs_PackingProfile V)"

lemma DeepCopy_nil: "if_set f None h = Some (None, h)"
  by (simp add: if_set_def)

lemma copier_DeepCopy:
  assumes "kind_ok K" and "copier rd refs f" and "rd_ptr K rd h p = Some v"
  obtains q h' where "if_set (dup_ptr K zero f) (Some p) h = Some (Some q, h')" and "dup_ptr K zero f p h = Some (q, h')"
    and "prefix h h'" and "rd_ptr K rd h' q = Some v" and "refs_ptr K refs h' q \<subseteq> {length h..<length h'}"
  using copier.copies [OF copier_ptr [OF assms(1,2), of zero] assms(3)] by (auto simp: if_set_def)

text \<open>
  C15: a deep copy of a profile shares nothing with the original. If the profile behind \<open>p\<close> can be read, \<^verbatim>\<open>DeepCopy\<close> and
  \<^verbatim>\<open>DeepCopyObject\<close> return a pointer to a copy that reads as the same value, nil fields included;
  no cell that was there before changes; and whatever is later written to the cells of the copy, the original still reads as before, and the
  other way round. The copy of nil is nil, and \<^verbatim>\<open>DeepCopyObject\<close> then returns a nil interface.
\<close>

theorem profile_copy_is_independent:
  assumes "meta_laws L V" and "profile_at V h p = Some v"
  shows "(\<exists>q h'. PackingProfile_DeepCopy L (Some p) h = Some (Some q, h') \<and>
      PackingProfile_DeepCopyObject L (Some p) h = Some (ProfileObject q, h') \<and> prefix h h' \<and>
      profile_cells V h' p \<inter> profile_cells V h' q = {} \<and>
      (\<forall>h''. (\<forall>a. a \<notin> profile_cells V h' q \<longrightarrow> cell h'' a = cell h' a) \<longrightarrow> profile_at V h'' p = Some v) \<and>
      (\<forall>h''. (\<forall>a. a \<notin> profile_cells V h' p \<longrightarrow> cell h'' a = cell h' a) \<longrightarrow> profile_at V h'' q = Some v)) \<and>
    PackingProfile_DeepCopy L None h = Some (None, h) \<and> PackingProfile_DeepCopyObject L None h = Some (NilObject, h)"
proof -
  note cop = PackingProfile_copier [OF assms(1)]
  obtain q h' where q: "PackingProfile_DeepCopy L (Some p) h = Some (Some q, h')"
      "dup_ptr PackingProfile_kind (zero_PackingProfile L) (PackingProfile_DeepCopyInto L) p h = Some (q, h')"
    unfolding PackingProfile_DeepCopy_def by (rule copier_DeepCopy [OF kinds_ok(20) cop assms(2)])
  moreover have "PackingProfile_DeepCopyObject L (Some p) h = Some (ProfileObject q, h')"
    using q(1) by (simp add: PackingProfile_DeepCopyObject_def)
  moreover have "PackingProfile_DeepCopy L None h = Some (None, h)" "PackingProfile_DeepCopyObject L None h = Some (NilObject, h)"
    by (simp_all add: PackingProfile_DeepCopyObject_def PackingProfile_DeepCopy_def DeepCopy_nil)
  ultimately show ?thesis
    using copier.independent [OF copier_ptr [OF kinds_ok(20) cop] assms(2) q(2)] by blast
qed

text \<open>A library instance: object metadata with a name and a map of labels, conditions without references.\<close>

definition foreign_kind :: "(smap, ('om, 'lm, 'cond, smap) gocell) kind" where
  "foreign_kind = \<lparr>mk = CForeign, un = (\<lambda>c. case c of CForeign m \<Rightarrow> Some m | _ \<Rightarrow> None)\<rparr>"

type_synonym sample_cell = "(string \<times> addr option, unit, Condition, smap) gocell"

definition sample_machinery :: "(string \<times> addr option, unit, Condition, sample_cell) ApiMachinery" where
  "sample_machinery =
     \<lparr>ObjectMeta_DeepCopyInto = then_copy assign (if_set (dup_map foreign_kind)),
      ListMeta_DeepCopyInto = assign, Condition_DeepCopyInto = assign, zero_ObjectMeta = ('''', None), zero_ListMeta = (),
      zero_Condition = \<lparr>cond_Type = '''', cond_Status = '''', cond_Reason = '''', cond_Message = '''', cond_LastTransitionTime = 0\<rparr>\<rparr>"

definition sample_meta_view where
  "sample_meta_view =
     \<lparr>rd_ObjectMeta = rd_pair rd_flat (rd_opt (rd_map (foreign_kind :: (smap, sample_cell) kind))),
      refs_ObjectMeta = refs_pair refs_flat (refs_opt refs_map),
      rd_ListMeta = (rd_flat :: _ \<Rightarrow> unit \<Rightarrow> _), refs_ListMeta = refs_flat,
      rd_Condition = (rd_flat :: _ \<Rightarrow> Condition \<Rightarrow> _), refs_Condition = refs_flat\<rparr>"

lemma sample_meta_laws: "meta_laws sample_machinery sample_meta_view"
proof -
  have "kind_ok (foreign_kind :: (smap, sample_cell) kind)" by (simp add: kind_ok_def foreign_kind_def)
  then show ?thesis
    by (simp add: meta_laws_def sample_machinery_def sample_meta_view_def copier_flat)
      (intro copier_pair copier_flat copier_opt copier_map)
qed

definition sample_memory :: "sample_cell heap" where
  "sample_memory =
     [CProfile \<lparr>r_TypeMeta = \<lparr>tm_Kind = ''PackingProfile'', tm_APIVersion = ''packer.kompakt.io/v1alpha1''\<rparr>, r_ObjectMeta = (''gpu'', Some 1),
        r_Spec = zero_PackingProfileSpec\<lparr>r_CapacitySource := zero_CapacitySource\<lparr>r_NodeGroupTemplates := Some \<lparr>sl_ptr = 2, sl_off = 1, sl_len = 1\<rparr>\<rparr>\<rparr>,
        r_Status = zero_PackingProfileStatus\<lparr>r_ActiveDetectors := Some \<lparr>sl_ptr = 4, sl_off = 0, sl_len = 1\<rparr>\<rparr>\<rparr>,
      CForeign [(''team'', ''ml'')],
      CTemplates [zero_NodeGroupTemplate, zero_NodeGroupTemplate\<lparr>r_NamePrefix := ''gpu-'', r_Labels := Some 3\<rparr>],
      CLabels [(''zone'', ''a'')],
      CStrings [''goatscaler'']]"

lemmas memory_eval = sample_memory_def sample_meta_view_def zero_PackingProfileSpec_def zero_PackingProfileStatus_def
  zero_CapacitySource_def zero_DemandSource_def zero_ReadinessSignal_def zero_NodeGroupTemplate_def
  rd_PackingProfile_def rd_PackingProfileSpec_def rd_PackingProfileStatus_def rd_CapacitySource_def rd_DemandSource_def
  rd_ReadinessSignal_def rd_NodeGroupTemplate_def rd_ptr_def rd_slice_def rd_map_def rd_opt_def rd_flat_def rd_pair_def
  load_def elems_def cell_def wf_gmap_def foreign_kind_def PackingProfile_kind_def templates_kind_def labels_kind_def
  strings_kind_def

lemma sample_profile_reads: "\<exists>v. profile_at sample_meta_view sample_memory 0 = Some v"
  by (simp add: memory_eval)

theorem profile_copy_is_independent_witness:
  "\<exists>v q h'. profile_at sample_meta_view sample_memory 0 = Some v \<and>
     PackingProfile_DeepCopyObject sample_machinery (Some 0) sample_memory = Some (ProfileObject q, h') \<and> prefix sample_memory h' \<and>
     profile_cells sample_meta_view h' 0 \<inter> profile_cells sample_meta_view h' q = {}"
proof -
  obtain v where v: "profile_at sample_meta_view sample_memory 0 = Some v" using sample_profile_reads by blast
  from profile_copy_is_independent [OF sample_meta_laws v] v show ?thesis by blast
qed

abbreviation pointer_copier where
  "pointer_copier K rd refs f \<equiv> copier (rd_opt (rd_ptr K rd)) (refs_opt (refs_ptr K refs)) f"

lemma pointer_copierI: "kind_ok K \<Longrightarrow> copier rd refs f \<Longrightarrow> pointer_copier K rd refs (if_set (dup_ptr K zero f))"
  by (intro copier_opt copier_ptr)

text \<open>
  Every deep copy of the file keeps the contract. For each of the twelve API types, with whatever slices, maps and nested structs
  it has, \<^verbatim>\<open>DeepCopy\<close> succeeds on every readable object, returns nil exactly for nil, allocates all of the copy anew and leaves all
  other cells alone, so that the copy reads the same and shares nothing with the original.
\<close>

theorem deep_copies_keep_contract:
  assumes "meta_laws L V"
  shows "pointer_copier CapacitySource_kind rd_CapacitySource refs_CapacitySource CapacitySource_DeepCopy \<and>
    pointer_copier DemandSource_kind rd_DemandSource refs_DemandSource DemandSource_DeepCopy \<and>
    pointer_copier LabelRef_kind rd_flat refs_flat LabelRef_DeepCopy \<and>
    pointer_copier NodeConditionRequirement_kind rd_flat refs_flat NodeConditionRequirement_DeepCopy \<and>
    pointer_copier NodeGroupTaint_kind rd_flat refs_flat NodeGroupTaint_DeepCopy \<and>
    pointer_copier NodeGroupTemplate_kind rd_NodeGroupTemplate refs_NodeGroupTemplate NodeGroupTemplate_DeepCopy \<and>
    pointer_copier PackingProfile_kind (rd_PackingProfile V) (refs_PackingProfile V) (PackingProfile_DeepCopy L) \<and>
    pointer_copier PackingProfileList_kind (rd_PackingProfileList V) (refs_PackingProfileList V) (PackingProfileList_DeepCopy L) \<and>
    pointer_copier PackingProfileSpec_kind rd_PackingProfileSpec refs_PackingProfileSpec PackingProfileSpec_DeepCopy \<and>
    pointer_copier PackingProfileStatus_kind (rd_PackingProfileStatus V) (refs_PackingProfileStatus V) (PackingProfileStatus_DeepCopy L) \<and>
    pointer_copier ReadinessSignal_kind rd_ReadinessSignal refs_ReadinessSignal ReadinessSignal_DeepCopy \<and>
    pointer_copier RuleRef_kind rd_flat refs_flat RuleRef_DeepCopy"
  unfolding CapacitySource_DeepCopy_def DemandSource_DeepCopy_def LabelRef_DeepCopy_def NodeConditionRequirement_DeepCopy_def
    NodeGroupTaint_DeepCopy_def NodeGroupTemplate_DeepCopy_def PackingProfile_DeepCopy_def PackingProfileList_DeepCopy_def
    PackingProfileSpec_DeepCopy_def PackingProfileStatus_DeepCopy_def ReadinessSignal_DeepCopy_def RuleRef_DeepCopy_def
    LabelRef_DeepCopyInto_def NodeConditionRequirement_DeepCopyInto_def NodeGroupTaint_DeepCopyInto_def RuleRef_DeepCopyInto_def
  by (intro conjI pointer_copierI kinds_ok copier_flat CapacitySource.copier_axioms DemandSource.copier_axioms
      NodeGroupTemplate.copier_axioms PackingProfileSpec.copier_axioms ReadinessSignal.copier_axioms
      PackingProfile_copier PackingProfileList_copier PackingProfileStatus_copier assms)

theorem deep_copies_keep_contract_witness:
  "pointer_copier PackingProfileList_kind (rd_PackingProfileList sample_meta_view) (refs_PackingProfileList sample_meta_view)
     (PackingProfileList_DeepCopy sample_machinery)"
  using deep_copies_keep_contract [OF sample_meta_laws] by blast

end
