(* ===== verification/Spec2Isabelle.thy ===== *)
theory Spec2Isabelle
  imports LedgerProps InflightProps PlacementProps Lifecycle Metrics CertgenProps Manager DeepCopyProps
begin

text \<open>
  A verification library for Kompakt, a Kubernetes controller that holds pods back with scheduling
  gates until a node can take them, so that the cluster autoscaler does not provision too many nodes.

  \<^bold>\<open>The program and its parts.\<close> A mutating webhook (\<^verbatim>\<open>src/internal/webhook\<close>) gates a pod at admission
  when its label names a PackingProfile, which a resolver (\<^verbatim>\<open>src/internal/matcher\<close>) looks up. The controller
  (\<^verbatim>\<open>src/internal/controller\<close>) reconciles gated pods one at a time: it rebuilds the node ledger
  (\<^verbatim>\<open>src/internal/ledger\<close>) from the cluster, adds the in-flight nodes that a chain of detectors
  (\<^verbatim>\<open>src/internal/inflight\<close>) reports, lets the rules of the profile (\<^verbatim>\<open>src/internal/rules\<close>) decide on
  the ledger, and then releases the pod, pinned to a node or not, or holds it for another
  second; at the end it writes the status of the profile. A provisioner (\<^verbatim>\<open>src/internal/certgen\<close>) keeps the
  TLS certificates of the webhook server. \<^verbatim>\<open>src/cmd/manager/main.go\<close> wires these up.

  \<^bold>\<open>Theories and the code they model.\<close>
  \<^item> \<open>Prelude\<close>: association lists as Go maps (\<open>gmap\<close>), \<^verbatim>\<open>int64\<close> arithmetic on 64-bit words, the scan for a
    minimum, the interface \<open>keyed_store\<close> of a map.
  \<^item> \<open>GoStrings\<close>, \<open>GoTime\<close>, \<open>GoDouble\<close>: what the source uses of Go's \<^verbatim>\<open>strings\<close>, \<^verbatim>\<open>strconv\<close>, \<^verbatim>\<open>time\<close> and of
    \<^verbatim>\<open>float64\<close>; \<open>ParseDuration\<close> follows the library's scanner, and the error of a product of doubles is bounded.
  \<^item> \<open>KubeTypes\<close>: the keys of \<^verbatim>\<open>src/internal/kompakt/labels.go\<close>, the types of
    \<^verbatim>\<open>src/api/v1alpha1/packingprofile_types.go\<close> with all their fields, and records of the Kubernetes objects
    with the fields the source reads or writes.
  \<^item> \<open>GoHeap\<close>: Go's memory as a heap of typed cells, slices, maps and pointers, and the interface \<open>copier\<close> of a function that
    copies a value into new cells; \<open>DeepCopy\<close>: every function of \<^verbatim>\<open>src/api/v1alpha1/zz_generated.deepcopy.go\<close> on
    it; \<open>DeepCopyProps\<close>: the interpretations, from the leaf types up to \<^verbatim>\<open>PackingProfileList\<close>.
  \<^item> \<open>Scheduling\<close>: \<^verbatim>\<open>src/internal/scheduling/tolerations.go\<close>.
  \<^item> \<open>Ledger\<close>: every operation of \<^verbatim>\<open>ledger.go\<close> on the record \<open>NodeLedger\<close>; a Go method that returns an error is a
    function into \<open>ledger_error + \<dots>\<close>, and the store through the pointer that \<^verbatim>\<open>findEntry\<close> returns is
    \<open>withEntry\<close>. \<open>Capacity\<close> has the notions of eligibility, exact slack and the invariant
    \<open>ledger_ok\<close>, with the interface \<open>capacity_book\<close> that both searches are interpreted for; \<open>LedgerProps\<close> has its theorems.
  \<^item> \<open>Rules\<close>: demand extraction, both rule plugins and the registry, with the interfaces \<open>rule_contract\<close> (what an
    evaluation may do to a ledger) and \<open>rule_registry\<close>, through which the rule loop is verified.
  \<^item> \<open>Inflight\<close> and \<open>InflightProps\<close>: the three detectors with their parsers, the regular expression of
    \<^verbatim>\<open>goatscaler.go\<close> included, and the interface \<open>detector_contract\<close>.
  \<^item> \<open>Gates\<close>, \<open>Templates\<close>, \<open>Conditions\<close>, \<open>Sync\<close>, \<open>Reconciler\<close>: the controller, in the order of
    \<^verbatim>\<open>packingprofile_controller.go\<close>: the pod handed to \<^verbatim>\<open>Patch\<close>, the choice of a node group template, the
    status conditions with the interface \<open>condition_writer\<close>, the ledger rebuild, and \<open>Reconcile\<close> itself. \<open>SyncProps\<close> and \<open>ReconcilerProps\<close> have the theorems.
  \<^item> \<open>Webhook\<close>: the resolver and the admission handler.
  \<^item> \<open>Placement\<close> and \<open>PlacementProps\<close>: sequences of \<open>Reconcile\<close> calls for many pods as a step relation (\<open>calls\<close>), with an
    account of what has been pinned to a node.
  \<^item> \<open>Lifecycle\<close>: the composition of webhook and controller as a step relation on one pod, and the loop of calls and
    requeues that the work queue runs for it.
  \<^item> \<open>Metrics\<close>: the declarations of \<^verbatim>\<open>src/internal/metrics/metrics.go\<close> and the labels the other parts use.
  \<^item> \<open>Certgen\<close> and \<open>CertgenProps\<close>: the certificate provisioner as actions on an outside world that may fail.
  \<^item> \<open>GoFlag\<close>: the scanner of Go's \<^verbatim>\<open>flag\<close> package; \<open>Manager\<close>: the registration of the API types
    (\<^verbatim>\<open>groupversion_info.go\<close>), \<^verbatim>\<open>SetupWithManager\<close> and the start-up sequence of \<^verbatim>\<open>main\<close>.

  \<^bold>\<open>What the theorems show.\<close> The searches of the ledger return an eligible node of least slack or fail only if
  there is none, independently of the iteration order of Go's maps up to ties; reservations are exact,
  reversible, survive a rebuild, and no sequence of placements or rule evaluations books more on a
  node than was free there; while amounts are in range every ledger is well formed and its arithmetic does not wrap. The
  rules take exactly the documented decisions. The detectors report exactly the pending nodes of their
  sources, by the heuristic of the code where a node has never been ready, and the texts they parse are read back as they were written. A rebuild makes the ledger reflect
  the listed nodes, the running pods and the first detector that reports anything. A call of
  \<open>Reconcile\<close> patches a pod only for a documented reason, with exactly the described rewritten pod, keeps
  the invariant while amounts are in range, retries after a failed list, and writes the described status. Over any sequence of
  calls that see a node, a pod is pinned to it only if it is compatible and fits beside everything that runs or has been pinned there. An admitted pod
  has at any time all gates that admission left or exactly those it came with, and gets them back at
  the latest by a call after its timeout, which the requeue loop makes. A deep copy reads as the original and shares no
  memory with it. A generated certificate passes the check; one that passes does not expire
  before the next check; a successful provisioning leaves Secret, files and trust bundle in agreement, and the error
  of a failed one tells how far it came; the server starts only with its certificates in place and the API types
  registered. Several
  theorems record behaviour that differs from the documentation: a held pod reserves again at every
  evaluation, one failed list or a call for another profile forgets reservations, a reinvoked webhook duplicates gates, a failed patch of the trust
  bundle is not retried, a negative demand annotation creates capacity, nodes count as existing before they are ready, a packing rule in front keeps the second rule from being asked, and the reservation it makes while the
  second rule waits blocks the pod itself.

  \<^bold>\<open>Modelling decisions.\<close> State is passed explicitly. A Go map is an association list with distinct keys
  (\<open>wf_gmap\<close>), a map that may be nil an option; where the result depends on the iteration order the
  theorems say so. \<^verbatim>\<open>int64\<close> and \<^verbatim>\<open>int32\<close> are words read with \<open>sint\<close>; \<open>amounts_ok\<close> and \<open>ledger_ok\<close> bound
  quantities such that sums stay in range. A \<^verbatim>\<open>time.Time\<close> is an integer of nanoseconds, a \<^verbatim>\<open>time.Duration\<close> a word.
  One clock reading stands for all readings of one reconcile; the provisioner reads the clock as an
  action each time. The ledger's mutex makes each of its operations a step; \<^verbatim>\<open>MaxConcurrentReconciles\<close> is 1, so
  one \<open>Reconcile\<close> is a step. Metrics, events, patches and status writes are a list of effects in order; log
  lines are left out. All loops of the code are over finite lists and all functions of the model are
  total: scanners recurse on a shrinking input. The background loop of the
  provisioner is a function of the finite sequence of events it has received. Only the loop of calls and requeues
  (\<open>requeue_loop\<close>) has fuel, one unit per call; one more than the seconds left until the timeout is shown to be enough.
  Values are immutable everywhere except in \<open>GoHeap\<close> and \<open>DeepCopy\<close>, where the types of the API appear as they lie in memory.

  \<^bold>\<open>Parameters.\<close> Code of other packages is an argument: \<^verbatim>\<open>Quantity.MilliValue\<close> (\<open>milli\<close>), the answers of the API
  server (\<open>Api\<close>, \<open>Reader\<close>), the JSON codec and the uuid generator of the webhook, the Kubernetes client, file system,
  clock, random source and cryptographic packages of the provisioner (\<open>Env\<close>), the scheme and the metadata types of apimachinery (\<open>SchemeLib\<close>,
  \<open>ApiMachinery\<close>), the flags of linked packages, and the controller-runtime manager (\<open>Mgr\<close>). What a theorem relies on is a named hypothesis (\<open>inputs_ok\<close>, \<open>store_laws\<close>, \<open>reads_back\<close>, \<open>codec_laws\<close>,
  \<open>steady\<close>, \<open>working\<close>, \<open>meta_laws\<close>, \<open>scheme_laws\<close>, \<open>clocked\<close>, \<open>mgr_silent\<close>) with a concrete instance in the witness.

  \<^bold>\<open>Not modelled.\<close> Logging, the controller-runtime work queue beyond the requeue of one pod, the JSON patch computed
  from two pods, and other writers of the objects the program handles.
\<close>

end
